theory Spec2Isabelle
  imports Complex_Main "HOL-Library.AList" "HOL-Library.Extended_Nat"
begin

section \<open>Conventions\<close>

text \<open>
  The program is JavaScript. Its numbers are doubles and are modelled as HOL reals:
  \<open>Math.sqrt\<close>, \<open>Math.exp\<close>, \<open>Math.log\<close>, \<open>Math.acos\<close>, \<open>Math.sin\<close>, \<open>Math.cos\<close> are
  \<open>sqrt\<close>, \<open>exp\<close>, \<open>ln\<close>, \<open>arccos\<close>, \<open>sin\<close>, \<open>cos\<close>; \<open>Math.hypot(a,b)\<close> is
  \<open>sqrt (a\<^sup>2 + b\<^sup>2)\<close>; \<open>Math.pow\<close> on a non-negative base is \<open>powr\<close>.

  Rounding is modelled where it decides how often a loop runs: the time that
  \<open>simulateAll\<close> accumulates with \<open>time += timeStep\<close>, and the quotient \<open>duration / p.dt\<close>
  that bounds the loops of \<open>simulateStone\<close> and \<open>simulateDraw\<close>, are rounded to the nearest
  double (\<open>fl\<close> below), and the counter of those loops does not count beyond \<open>2 ^ 53\<close>.
  All other arithmetic is exact.

  NaN is modelled where the simulation produces it from finite inputs: \<open>resolveCollision\<close>
  divides by the distance of the two centres, which is 0 for coincident centres, and a
  flag on stones and states records that their numbers are NaN from then on. Every other
  division of the source is the division of HOL, which agrees with it whenever the
  divisor is not zero; the evaluator guards each of its divisions. The arguments of the
  evaluator and the parameters of the simulation are reals, hence finite numbers.

  Shot numbers and remaining-shot counts are integers. Team tags are strings, as in the
  source. An object used as a dictionary with integer keys (\<open>buckets17\<close>) is an association
  list in insertion order; \<open>AList.update\<close> overwrites a key that is present and appends one
  that is not, as an assignment \<open>b[k] = v\<close> does.
\<close>

named_theorems eval_consts \<open>the numeric constants of the evaluator\<close>

section \<open>Rounding to double precision\<close>

text \<open>
  \<open>fl x\<close> is the double nearest to the real \<open>x\<close>, with ties going to the even significand,
  as IEEE 754 prescribes for the results of \<open>+\<close> and \<open>/\<close>. \<open>binade x\<close> is the exponent \<open>e\<close>
  with \<open>2 powi e \<le> \<bar>x\<bar> < 2 powi (e + 1)\<close>, but not less than the exponent \<open>-1022\<close> of the
  smallest normal double; the doubles of that binade are the integer multiples of
  \<open>2 powi (e - 52)\<close>, and
  \<open>roundEven\<close> picks the nearest multiple. \<open>minNormal\<close> is the smallest positive normal
  double and \<open>unitRoundoff\<close> the largest relative error of a rounding above it.

  Beyond the largest double the source has \<open>Infinity\<close> and \<open>-Infinity\<close>, which \<open>fl\<close> does
  not return: \<open>fl x\<close> is then a real of the size of \<open>x\<close>. It is used below only where its
  result is compared with a double, and the comparison comes out as it does for the
  infinity.
\<close>

definition roundEven :: "real \<Rightarrow> int" where
  "roundEven y = (let f = \<lfloor>y\<rfloor> in
     if y - real_of_int f < 1/2 then f
     else if y - real_of_int f > 1/2 then f + 1
     else if even f then f else f + 1)"

definition binade :: "real \<Rightarrow> int" where
  "binade x = max \<lfloor>log 2 \<bar>x\<bar>\<rfloor> (- 1022)"

definition fl :: "real \<Rightarrow> real" where
  "fl x = (if x = 0 then 0
           else 2 powi (binade x - 52) * real_of_int (roundEven (x / 2 powi (binade x - 52))))"

definition minNormal :: real where
  "minNormal = 2 powi (- 1022)"

definition unitRoundoff :: real where
  "unitRoundoff = 2 powi (- 53)"

section \<open>The end evaluator (analyze/curlingeval.js)\<close>

subsection \<open>Constants\<close>

type_synonym stoneTuple = "string \<times> real \<times> real"
type_synonym buckets = "(int \<times> real) list"

definition R_HOUSE :: real where [eval_consts]: "R_HOUSE = 1.829"
definition D_STONE :: real where [eval_consts]: "D_STONE = 0.285"

definition H0 :: real where [eval_consts]: "H0 = 0.90"
definition ALPHA1 :: real where [eval_consts]: "ALPHA1 = 1.0"
definition GAMMA :: real where [eval_consts]: "GAMMA = 1.5"
definition W_GUARD :: real where [eval_consts]: "W_GUARD = 0.60"
definition W_CENTER :: real where [eval_consts]: "W_CENTER = 0.30"
definition W_FREEZE :: real where [eval_consts]: "W_FREEZE = 0.40"
definition W_TAKEOUT :: real where [eval_consts]: "W_TAKEOUT = 0.50"
definition W_CONG :: real where [eval_consts]: "W_CONG = 0.20"
definition CENTER_BAND :: real where [eval_consts]: "CENTER_BAND = 0.60"
definition FREEZE_RADIUS :: real where [eval_consts]: "FREEZE_RADIUS = 0.35"

definition HALF_WIDTH :: real where [eval_consts]: "HALF_WIDTH = 2.44"
definition BACK_LINE :: real where [eval_consts]: "BACK_LINE = - 5.486"
definition HOG_LINE :: real where [eval_consts]: "HOG_LINE = 6.40"

definition BASELINE_HAMMER :: "real list" where
  "BASELINE_HAMMER = [0.30, 0.40, 0.25, 0.04, 0.01, 0, 0, 0, 0]"
definition BASELINE_STEAL :: "real list" where
  "BASELINE_STEAL = [0.035, 0.010, 0.003, 0.001, 0.0006, 0.0003, 0.0001, 0.00005]"

definition DBL_DMAX :: real where [eval_consts]: "DBL_DMAX = 0.95"
definition DBL_THETA_MAX :: real where "DBL_THETA_MAX = (12 * pi) / 180"
definition DBL_J :: real where [eval_consts]: "DBL_J = 0.10"
definition DBL_L :: real where [eval_consts]: "DBL_L = 0.20"
definition DBL_KAPPA :: real where [eval_consts]: "DBL_KAPPA = 4.0"
definition DBL_BETA0 :: real where [eval_consts]: "DBL_BETA0 = 0.3"
definition DBL_BETA1 :: real where [eval_consts]: "DBL_BETA1 = 1.0"
definition DBL_LAMBDA :: real where [eval_consts]: "DBL_LAMBDA = 0.5"
definition DBL_CAP_RHO :: real where [eval_consts]: "DBL_CAP_RHO = 0.6"

definition A_EV :: real where [eval_consts]: "A_EV = 1.0"
definition BETA0 :: real where [eval_consts]: "BETA0 = 0.35"
definition BETA1 :: real where [eval_consts]: "BETA1 = 0.90"

subsection \<open>Utility\<close>

definition clamp :: "real \<Rightarrow> real \<Rightarrow> real \<Rightarrow> real" where
  "clamp x lo hi = max lo (min hi x)"

text \<open>
  \<open>softmax1D\<close>: \<open>Math.max(...arr)\<close> is the fold of \<open>max\<close>; on the empty array the source
  maps over nothing and returns the empty array. \<open>s||1\<close> replaces a zero sum by 1.
\<close>

definition softmax1D :: "real list \<Rightarrow> real list" where
  "softmax1D arr = (case arr of [] \<Rightarrow> [] | a # as \<Rightarrow>
     (let m = fold max as a;
          exps = map (\<lambda>v. exp (v - m)) arr;
          s = sum_list exps
      in map (\<lambda>v. v / (if s = 0 then 1 else s)) exps))"

definition isInPlay :: "real \<Rightarrow> real \<Rightarrow> bool" where
  "isInPlay x y =
     (if \<bar>x\<bar> > HALF_WIDTH + D_STONE / 2 then False
      else if y < BACK_LINE - D_STONE / 2 then False
      else if y > HOG_LINE + D_STONE / 2 then False
      else True)"

definition hypot2 :: "real \<Rightarrow> real \<Rightarrow> real" where
  "hypot2 x y = sqrt (x\<^sup>2 + y\<^sup>2)"

subsection \<open>Positional scoring\<close>

definition baseHammer :: "int \<Rightarrow> string \<Rightarrow> string \<Rightarrow> real" where
  "baseHammer s team hammerTeam =
     H0 * sqrt (real_of_int (max s 0) / 16.0) * (if team = hammerTeam then 1 else - 1)"

definition radialValue :: "real \<Rightarrow> real" where
  "radialValue r =
     (if r > R_HOUSE then 0.0
      else (let depthBoost = (if r < 1.3 then 1.25 else 0.9)
            in depthBoost * ALPHA1 * (1.0 - (r / R_HOUSE) powr GAMMA)))"

text \<open>
  The loop of \<open>hasLineOfSightBlocker\<close> over the blockers, with its \<open>continue\<close> and its two
  early returns of 1.0; falling off the end returns 0.0.
\<close>

primrec blockerLoop :: "real \<Rightarrow> real \<Rightarrow> real \<Rightarrow> real \<Rightarrow> real \<Rightarrow> real \<Rightarrow> (real \<times> real) list \<Rightarrow> real" where
  "blockerLoop x y vr ux uy phi [] = 0.0"
| "blockerLoop x y vr ux uy phi (b # bs) = (case b of (bx, by) \<Rightarrow>
     (if hypot2 bx by \<ge> vr - 0.000001 then blockerLoop x y vr ux uy phi bs
      else (let wx = bx - x; wy = by - y; wr = hypot2 wx wy in
        if wr < 0.000001 then 1.0
        else (let dot = max (- 1) (min 1 ((wx * ux + wy * uy) / wr));
                  sinT = sqrt (max 0 (1 - dot * dot));
                  perp = wr * sinT;
                  theta = arccos dot
              in if theta \<le> phi \<and> perp \<le> D_STONE / 2 then 1.0
                 else blockerLoop x y vr ux uy phi bs))))"

definition hasLineOfSightBlocker :: "real \<times> real \<Rightarrow> (real \<times> real) list \<Rightarrow> real \<Rightarrow> real" where
  "hasLineOfSightBlocker pos blockers phiDeg = (case pos of (x, y) \<Rightarrow>
     (let vx = - x; vy = - y; vr = hypot2 vx vy in
      if vr < 0.000001 then 1.0
      else (let ux = vx / vr; uy = vy / vr; phi = (phiDeg * pi) / 180
            in blockerLoop x y vr ux uy phi blockers)))"

definition takeoutEase :: "real \<Rightarrow> real" where
  "takeoutEase G = 1.0 - 0.9 * G"

definition centerFactor :: "real \<Rightarrow> real" where
  "centerFactor x = 1.0 - min \<bar>x\<bar> 1.0"

text \<open>The entry objects \<open>{x,y,r,G,T,v,pre,acc}\<close> of \<open>computeTeamStoneValues\<close>.\<close>

record entry =
  ex :: real
  ey :: real
  er :: real
  eG :: real
  eT :: real
  ev :: real
  epre :: real
  eacc :: real

definition stoneEntry :: "(real \<times> real) list \<Rightarrow> (real \<times> real) list \<Rightarrow> real \<times> real \<Rightarrow> entry" where
  "stoneEntry allPos teamPos pos = (case pos of (x, y) \<Rightarrow>
     (let r = hypot2 x y; v0 = radialValue r in
      if v0 \<le> 0 then \<lparr>ex = x, ey = y, er = r, eG = 0, eT = 1, ev = 0, epre = 0, eacc = 0\<rparr>
      else (let G = hasLineOfSightBlocker (x, y) allPos 7.5;
                v1 = v0 * (1 + W_GUARD * G);
                v2 = v1 * (1 + W_CENTER * centerFactor x);
                F = (if list_ex (\<lambda>(fx, fy). \<not> (fx = x \<and> fy = y) \<and>
                           hypot2 (fx - x) (fy - y) \<le> FREEZE_RADIUS \<and>
                           hypot2 fx fy \<le> r + 0.10) teamPos then 1 else 0);
                v3 = v2 * (1 + W_FREEZE * F);
                T = takeoutEase G;
                v4 = v3 * (1 - W_TAKEOUT * T)
            in \<lparr>ex = x, ey = y, er = r, eG = G, eT = T, ev = v4, epre = v4, eacc = 0\<rparr>)))"

definition computeTeamStoneValues :: "string \<Rightarrow> stoneTuple list \<Rightarrow> entry list" where
  "computeTeamStoneValues team stones =
     (let allPos = map (\<lambda>(t, x, y). (x, y)) stones;
          teamPos = map (\<lambda>(t, x, y). (x, y)) (filter (\<lambda>(t, x, y). t = team) stones)
      in map (stoneEntry allPos teamPos) teamPos)"

subsection \<open>Double-takeout vulnerability\<close>

text \<open>
  The inner loop over \<open>others\<close> that multiplies up \<open>B\<close>, skipping the two stones of the
  pair; \<open>nx = 1\<close>, \<open>ny = 0\<close>.
\<close>

definition blockFactor :: "entry \<Rightarrow> entry \<Rightarrow> (real \<times> real) list \<Rightarrow> real" where
  "blockFactor ei ej others =
     fold (\<lambda>(kx, ky) B.
        if (kx = ex ei \<and> ky = ey ei) \<or> (kx = ex ej \<and> ky = ey ej) then B
        else (let okx = kx - ex ei; oky = ky - ey ei; offK = \<bar>okx * 1 + oky * 0\<bar>
              in B * (1 - exp (- ((offK / DBL_L)\<^sup>2))))) others 1"

text \<open>
  The body of the double loop for one pair \<open>i < j\<close>: every \<open>continue\<close> leaves the entries
  as they are; otherwise the two entries are overwritten in place. \<open>ux = 0\<close>, \<open>uy = -1\<close>,
  \<open>nx = 1\<close>, \<open>ny = 0\<close>.
\<close>

definition dblPair :: "real \<Rightarrow> (real \<times> real) list \<Rightarrow> nat \<times> nat \<Rightarrow> entry list \<Rightarrow> entry list" where
  "dblPair beta others ij es = (case ij of (i, j) \<Rightarrow>
     (let ei = es ! i; ej = es ! j in
      if er ei > R_HOUSE \<or> er ej > R_HOUSE then es
      else (let dx = ex ej - ex ei; dy = ey ej - ey ei; dij = hypot2 dx dy in
        if dij > DBL_DMAX \<or> dij < 0.000001 then es
        else (let X = min (eT ei) (eT ej);
                  cos0 = max (- 1) (min 1 ((dx * 0 + dy * (- 1)) / dij));
                  thetaSmall = arccos \<bar>cos0\<bar>;
                  A = max 0 (1 - thetaSmall / DBL_THETA_MAX);
                  off = \<bar>dx * 1 + dy * 0\<bar>;
                  w = max 0 (D_STONE / 2 - off);
                  W = clamp (w / DBL_J) 0 1;
                  B = clamp (blockFactor ei ej others) 0 1;
                  Pdbl = 1 / (1 + exp (- (DBL_KAPPA * (X * A * W * B) - beta)));
                  Mi = max (ev ei) 0; Mj = max (ev ej) 0; M = Mi + Mj in
          if M \<le> 0 then es
          else (let delta = DBL_LAMBDA * Pdbl * M;
                    capi = DBL_CAP_RHO * epre ei - eacc ei;
                    capj = DBL_CAP_RHO * epre ej - eacc ej;
                    di = min (delta * (Mi / M)) (max 0 capi);
                    dj = min (delta * (Mj / M)) (max 0 capj)
                in es[i := ei\<lparr>ev := max 0 (ev ei - di), eacc := eacc ei + di\<rparr>,
                      j := ej\<lparr>ev := max 0 (ev ej - dj), eacc := eacc ej + dj\<rparr>])))))"

text \<open>The index pairs \<open>i < j < n\<close> in the order the two nested \<open>for\<close> loops visit them.\<close>

definition pairIndices :: "nat \<Rightarrow> (nat \<times> nat) list" where
  "pairIndices n = concat (map (\<lambda>i. map (\<lambda>j. (i, j)) [Suc i..<n]) [0..<n])"

text \<open>
  \<open>applyDoubleVulnerability\<close> mutates the entries it is given; the model returns them.
  \<open>skill||50\<close> replaces a zero skill by 50.
\<close>

definition applyDoubleVulnerability :: "entry list \<Rightarrow> stoneTuple list \<Rightarrow> int \<Rightarrow> real \<Rightarrow> entry list" where
  "applyDoubleVulnerability teamEntries allStones s skill =
     (if length teamEntries < 2 then teamEntries
      else (let q = clamp ((if skill = 0 then 50 else skill) / 100) 0.1 0.9;
                S = sqrt (real_of_int (max s 0) / 16.0);
                beta = DBL_BETA0 + DBL_BETA1 * (1 - q) * (1 - S);
                others = map (\<lambda>(t, x, y). (x, y)) allStones
            in fold (dblPair beta others) (pairIndices (length teamEntries)) teamEntries))"

subsection \<open>Congestion\<close>

definition countCenter :: "stoneTuple list \<Rightarrow> string \<Rightarrow> nat" where
  "countCenter stones team =
     length (filter (\<lambda>(t, x, y). t = team \<and> \<not> hypot2 x y \<le> R_HOUSE \<and> \<bar>x\<bar> \<le> CENTER_BAND) stones)"

definition congestionTerm :: "stoneTuple list \<Rightarrow> string \<Rightarrow> int \<Rightarrow> real" where
  "congestionTerm stones hammerTeam s =
     (let nh = (if hammerTeam = ''red'' then ''yellow'' else ''red'')
      in W_CONG * (real (countCenter stones nh) - real (countCenter stones hammerTeam))
           * sqrt (real_of_int (max s 0) / 16.0))"

subsection \<open>Distribution\<close>

text \<open>
  \<open>kVals\<close> is \<open>-8..8\<close>. \<open>BASELINE_HAMMER[k]||1e-5\<close> and \<open>BASELINE_STEAL[-k-1]||1e-5\<close> read
  inside the arrays for every such \<open>k\<close> and replace a zero entry by \<open>1e-5\<close>.
\<close>

definition baseOf :: "int \<Rightarrow> real" where
  "baseOf k =
     (if k = 0 then BASELINE_HAMMER ! 0
      else if k > 0 then (let b = BASELINE_HAMMER ! nat k in if b = 0 then 0.00001 else b)
      else (let b = BASELINE_STEAL ! nat (- k - 1) in if b = 0 then 0.00001 else b))"

definition distribution17_fromScore :: "real \<Rightarrow> int \<Rightarrow> real \<Rightarrow> buckets" where
  "distribution17_fromScore scoreForHammer s skill =
     (let sRoot = sqrt (real_of_int (max s 0) / 16.0);
          q = clamp ((if skill = 0 then 50 else skill) / 100) 0.1 0.9;
          mu = clamp (A_EV * scoreForHammer) (- 6) 6;
          beta = BETA0 + BETA1 * (1 - q) * (1 - sRoot);
          kVals = [- 8..8];
          logits = map (\<lambda>k. ln (baseOf k + 0.000000000001) - beta * (real_of_int k - mu)\<^sup>2) kVals;
          probs = softmax1D logits
      in zip kVals probs)"

subsection \<open>Constraints\<close>

text \<open>\<open>countThrown\<close> returns the pair \<open>(red, yellow)\<close>; \<open>Math.floor(n/2)\<close> is \<open>div\<close>.\<close>

definition countThrown :: "int \<Rightarrow> string \<Rightarrow> int \<times> int" where
  "countThrown n hammerTeam =
     (let n1 = n + 1 in
      if hammerTeam = ''red'' then (n1 div 2, (n1 + 1) div 2)
      else ((n1 + 1) div 2, n1 div 2))"

definition houseRadii :: "string \<Rightarrow> stoneTuple list \<Rightarrow> real list" where
  "houseRadii team stones =
     sort (map (\<lambda>(t, x, y). hypot2 x y)
       (filter (\<lambda>(t, x, y). t = team \<and> isInPlay x y \<and> hypot2 x y \<le> R_HOUSE) stones))"

text \<open>
  \<open>terminalScore\<close> is the \<open>score\<close> variable of \<open>collapseToTerminal\<close>. An empty array is
  falsy in \<open>rRed.length\<close>; the cutoff \<open>Infinity\<close> lets every radius through the filter.
\<close>

definition terminalScore :: "stoneTuple list \<Rightarrow> string \<Rightarrow> int" where
  "terminalScore stones hammerTeam =
     (let rRed = houseRadii ''red'' stones; rYel = houseRadii ''yellow'' stones in
      if rRed \<noteq> [] \<or> rYel \<noteq> [] then
        (if rRed \<noteq> [] \<and> (rYel = [] \<or> rRed ! 0 < rYel ! 0 - 0.000000001) then
           (let raw = int (length (filter (\<lambda>r. rYel = [] \<or> r < rYel ! 0 - 0.000000001) rRed))
            in if hammerTeam = ''red'' then raw else - raw)
         else if rYel \<noteq> [] \<and> (rRed = [] \<or> rYel ! 0 < rRed ! 0 - 0.000000001) then
           (let raw = int (length (filter (\<lambda>r. rRed = [] \<or> r < rRed ! 0 - 0.000000001) rYel))
            in if hammerTeam = ''yellow'' then raw else - raw)
         else 0)
      else 0)"

definition collapseToTerminal :: "stoneTuple list \<Rightarrow> string \<Rightarrow> buckets" where
  "collapseToTerminal stones hammerTeam =
     AList.update (terminalScore stones hammerTeam) 1 (map (\<lambda>k. (k, 0)) [- 8..8])"

definition inPlayCount :: "string \<Rightarrow> stoneTuple list \<Rightarrow> int" where
  "inPlayCount team stones = int (length (filter (\<lambda>(t, x, y). t = team \<and> isInPlay x y) stones))"

text \<open>The two \<open>for k = 1..8\<close> loops of \<open>applyConstraints\<close>, one assignment at a time.\<close>

definition zeroHammer :: "string \<Rightarrow> int \<Rightarrow> int \<Rightarrow> buckets \<Rightarrow> buckets" where
  "zeroHammer hammerTeam maxRed maxYel bs =
     fold (\<lambda>k b.
        (let b1 = (if hammerTeam = ''red'' \<and> k > maxRed then AList.update k 0 b else b)
         in if hammerTeam = ''yellow'' \<and> k > maxYel then AList.update k 0 b1 else b1)) [1..8] bs"

definition zeroSteal :: "string \<Rightarrow> int \<Rightarrow> int \<Rightarrow> buckets \<Rightarrow> buckets" where
  "zeroSteal hammerTeam maxRed maxYel bs =
     fold (\<lambda>k b.
        (let b1 = (if hammerTeam = ''red'' \<and> k > maxYel then AList.update (- k) 0 b else b)
         in if hammerTeam = ''yellow'' \<and> k > maxRed then AList.update (- k) 0 b1 else b1)) [1..8] bs"

definition applyConstraints :: "buckets \<Rightarrow> stoneTuple list \<Rightarrow> string \<Rightarrow> int \<Rightarrow> int \<Rightarrow> buckets" where
  "applyConstraints bs stones hammerTeam s n =
     (let inRed = inPlayCount ''red'' stones;
          inYel = inPlayCount ''yellow'' stones;
          thRed = fst (countThrown n hammerTeam);
          thYel = snd (countThrown n hammerTeam);
          remRed = 8 - thRed; remYel = 8 - thYel;
          maxRed = inRed + remRed; maxYel = inYel + remYel in
      if s = 0 then collapseToTerminal stones hammerTeam
      else (let b1 = zeroHammer hammerTeam maxRed maxYel bs;
                b2 = zeroSteal hammerTeam maxRed maxYel b1;
                Z = sum_list (map snd b2)
            in if Z > 0 then map (\<lambda>(k, v). (k, v / Z)) b2 else b2))"

subsection \<open>Entry point\<close>

record evaluation =
  advantage_red :: real
  advantage_yellow :: real
  buckets17 :: buckets

definition scoreRedOf :: "int \<Rightarrow> string \<Rightarrow> stoneTuple list \<Rightarrow> real \<Rightarrow> real" where
  "scoreRedOf shotNumber hammerTeam stones skillPercent =
     (let s = 16 - (shotNumber + 1);
          teamRed = applyDoubleVulnerability (computeTeamStoneValues ''red'' stones) stones s skillPercent;
          teamYel = applyDoubleVulnerability (computeTeamStoneValues ''yellow'' stones) stones s skillPercent;
          posRed = sum_list (map ev teamRed);
          posYel = sum_list (map ev teamYel);
          cong = congestionTerm stones hammerTeam s;
          base = baseHammer s ''red'' hammerTeam
      in base + (posRed - posYel) + cong)"

definition evaluatePosition17 :: "int \<Rightarrow> string \<Rightarrow> stoneTuple list \<Rightarrow> real \<Rightarrow> evaluation" where
  "evaluatePosition17 shotNumber hammerTeam stones skillPercent =
     (let s = 16 - (shotNumber + 1);
          scoreRed = scoreRedOf shotNumber hammerTeam stones skillPercent;
          scoreForHammer = (if hammerTeam = ''red'' then scoreRed else - scoreRed);
          bs = applyConstraints (distribution17_fromScore scoreForHammer s skillPercent)
                 stones hammerTeam s shotNumber
      in \<lparr>advantage_red = scoreRed, advantage_yellow = - scoreRed, buckets17 = bs\<rparr>)"

section \<open>The stone-motion simulation (models/State.js, Physics.js, Stone.js, Params.js, Simulation.js)\<close>

subsection \<open>Data\<close>

text \<open>
  The classes \<open>State\<close>, \<open>Stone\<close>, \<open>Params\<close> and the three fields of \<open>SheetDimensions\<close>
  that the simulation reads. Field names carry a prefix, since a record field is a
  constant. \<open>segments\<close> is an array length, a natural number.

  A state and a stone carry one more field than the classes, the flag \<open>s_nan\<close>
  (\<open>stone_nan\<close>). It is set when the five numbers \<open>x\<close>, \<open>y\<close>, \<open>vx\<close>, \<open>vy\<close>, \<open>w\<close> of
  the object are all NaN, as \<open>resolveCollision\<close> leaves them after dividing by a zero
  distance. The real-valued fields of a flagged object carry no information and no
  definition below reads them; its time \<open>t\<close> stays a number. Every comparison with NaN is
  false and every sum, product or quotient with NaN is NaN: this is what the definitions
  do on a flagged object.
\<close>

record state =
  s_t :: real
  s_x :: real
  s_y :: real
  s_vx :: real
  s_vy :: real
  s_w :: real
  s_nan :: bool

record stone =
  stone_id :: int
  stone_x :: real
  stone_y :: real
  stone_vx :: real
  stone_vy :: real
  stone_w :: real
  stone_team :: string
  stone_inPlay :: bool
  stone_t :: real
  stone_nan :: bool

record params =
  p_m :: real
  p_g :: real
  p_R :: real
  p_rBand :: real
  p_mu0 :: real
  p_alpha :: real
  p_segments :: nat
  p_dt :: real
  p_tMax :: real
  p_vStop :: real
  p_wStop :: real
  p_vEps :: real
  p_restitution :: real

record sheet =
  XMIN :: real
  XMAX :: real
  HALF_W :: real

definition toState :: "stone \<Rightarrow> state" where
  "toState st = \<lparr>s_t = stone_t st, s_x = stone_x st, s_y = stone_y st,
                 s_vx = stone_vx st, s_vy = stone_vy st, s_w = stone_w st,
                 s_nan = stone_nan st\<rparr>"

definition fromState :: "stone \<Rightarrow> state \<Rightarrow> stone" where
  "fromState st s = st\<lparr>stone_t := s_t s, stone_x := s_x s, stone_y := s_y s,
                       stone_vx := s_vx s, stone_vy := s_vy s, stone_w := s_w s,
                       stone_nan := s_nan s\<rparr>"

subsection \<open>Physics utilities and the collision resolver\<close>

text \<open>\<open>unit\<close> returns the object \<open>{ux, uy, s}\<close>, here a triple.\<close>

definition unit :: "real \<Rightarrow> real \<Rightarrow> real \<Rightarrow> real \<times> real \<times> real" where
  "unit vx vy eps =
     (let s = sqrt (vx\<^sup>2 + vy\<^sup>2) in
      if s < eps then (0, 0, eps) else (vx / s, vy / s, s))"

text \<open>
  \<open>resolveCollision\<close> mutates its two stones; the model returns them. The early
  \<open>return\<close> for separating stones leaves both untouched, positions included. With
  coincident centres \<open>distance\<close> is 0, \<open>nx\<close> and \<open>ny\<close> are \<open>0 / 0\<close>, which is NaN, the
  test \<open>relativeVelocityAlongNormal > 0\<close> is false, and the velocity, the spin and the
  position of both stones are overwritten with NaN. The same happens when a stone that
  comes in is already NaN.
\<close>

definition resolveCollision :: "stone \<Rightarrow> stone \<Rightarrow> params \<Rightarrow> stone \<times> stone" where
  "resolveCollision stone1 stone2 ps =
     (let dx = stone_x stone2 - stone_x stone1;
          dy = stone_y stone2 - stone_y stone1;
          distance = sqrt (dx * dx + dy * dy) in
      if stone_nan stone1 \<or> stone_nan stone2 \<or> distance = 0
      then (stone1\<lparr>stone_nan := True\<rparr>, stone2\<lparr>stone_nan := True\<rparr>)
      else
     (let nx = dx / distance;
          ny = dy / distance;
          dvx = stone_vx stone2 - stone_vx stone1;
          dvy = stone_vy stone2 - stone_vy stone1;
          relativeVelocityAlongNormal = dvx * nx + dvy * ny in
      if relativeVelocityAlongNormal > 0 then (stone1, stone2)
      else (let e = p_restitution ps;
                j = - (1 + e) * relativeVelocityAlongNormal / 2;
                vx1 = stone_vx stone1 - j * nx;
                vy1 = stone_vy stone1 - j * ny;
                vx2 = stone_vx stone2 + j * nx;
                vy2 = stone_vy stone2 + j * ny;
                crossFactor = 0.5;
                w1 = stone_w stone1 + crossFactor * (nx * vy1 - ny * vx1);
                w2 = stone_w stone2 + crossFactor * (nx * vy2 - ny * vx2);
                overlap = 2 * p_R ps - distance
            in (stone1\<lparr>stone_vx := vx1, stone_vy := vy1, stone_w := w1,
                        stone_x := stone_x stone1 - overlap * nx / 2,
                        stone_y := stone_y stone1 - overlap * ny / 2\<rparr>,
                stone2\<lparr>stone_vx := vx2, stone_vy := vy2, stone_w := w2,
                        stone_x := stone_x stone2 + overlap * nx / 2,
                        stone_y := stone_y stone2 + overlap * ny / 2\<rparr>))))"

text \<open>
  The body of the double loop of \<open>detectCollisions\<close> for one pair \<open>i < j\<close>. The in-play
  flag of stone \<open>i\<close> does not change during the pass, so the \<open>continue\<close> of the outer loop
  is tested per pair. The distance to a NaN stone is NaN, and \<open>distance < twoR\<close> is
  false for it.
\<close>

definition collidePair :: "params \<Rightarrow> nat \<times> nat \<Rightarrow> stone list \<Rightarrow> stone list" where
  "collidePair ps ij stonesList = (case ij of (i, j) \<Rightarrow>
     (if \<not> stone_inPlay (stonesList ! i) then stonesList
      else if \<not> stone_inPlay (stonesList ! j) then stonesList
      else (let twoR = 2 * p_R ps;
                dx = stone_x (stonesList ! j) - stone_x (stonesList ! i);
                dy = stone_y (stonesList ! j) - stone_y (stonesList ! i);
                distance = sqrt (dx * dx + dy * dy) in
            if \<not> (stone_nan (stonesList ! i) \<or> stone_nan (stonesList ! j)) \<and> distance < twoR then
              (case resolveCollision (stonesList ! i) (stonesList ! j) ps of
                 (a, b) \<Rightarrow> stonesList[i := a, j := b])
            else stonesList)))"

definition detectCollisions :: "stone list \<Rightarrow> params \<Rightarrow> stone list" where
  "detectCollisions stonesList ps =
     fold (collidePair ps) (pairIndices (length stonesList)) stonesList"

subsection \<open>One integration step\<close>

text \<open>
  The force and torque of one band segment at angle \<open>phi\<close>; \<open>Math.hypot(..) || p.vEps\<close>
  replaces a zero speed by \<open>vEps\<close>.
\<close>

definition segmentForce :: "params \<Rightarrow> state \<Rightarrow> real \<Rightarrow> real \<Rightarrow> real \<times> real \<times> real" where
  "segmentForce ps s dN phi =
     (let vlocx = s_vx s - s_w s * p_rBand ps * sin phi;
          vlocy = s_vy s + s_w s * p_rBand ps * cos phi;
          h = sqrt (vlocx\<^sup>2 + vlocy\<^sup>2);
          vmag = (if h = 0 then p_vEps ps else h);
          mu = p_mu0 ps * (1 / sqrt vmag);
          vhatx = vlocx / vmag;
          vhaty = vlocy / vmag;
          dFx = - (dN * mu) * vhatx;
          dFy = - (dN * mu) * vhaty
      in (dFx, dFy, p_rBand ps * (cos phi * dFy - sin phi * dFx)))"

text \<open>
  \<open>netForce\<close> is \<open>(Fx, Fy, tau)\<close> when the step reaches its accelerations: the sum over the
  segments, then the pivot force.
\<close>

definition netForce :: "params \<Rightarrow> state \<Rightarrow> real \<times> real \<times> real" where
  "netForce ps s =
     (let dN = (p_m ps * p_g ps) / real (p_segments ps);
          phis = map (\<lambda>i. (2 * pi * real i) / real (p_segments ps)) [0..<p_segments ps];
          band = fold (\<lambda>phi (Fx, Fy, tau).
                    (case segmentForce ps s dN phi of
                       (dFx, dFy, dtau) \<Rightarrow> (Fx + dFx, Fy + dFy, tau + dtau))) phis (0, 0, 0);
          Vh = unit (s_vx s) (s_vy s) (p_vEps ps);
          Vperp_x = - fst (snd Vh);
          Vperp_y = fst Vh;
          vRot = max (\<bar>s_w s\<bar> * p_rBand ps) (p_vEps ps);
          muP = p_alpha ps * p_mu0 ps * (1 / sqrt vRot);
          FpMag = p_m ps * p_g ps * muP;
          sgnw = (if s_w s > 0 then 1 else if s_w s < 0 then - 1 else 0)
      in (case band of (Fx, Fy, tau) \<Rightarrow>
            (Fx + sgnw * FpMag * Vperp_x, Fy + sgnw * FpMag * Vperp_y,
             tau + - sgnw * FpMag * p_rBand ps)))"

text \<open>
  The rest of the loop body, from \<open>const ax = Fx / p.m\<close> to \<open>new State(..)\<close>. The bodies of
  the loops of \<open>simulateStone\<close> and of \<open>simulateDraw\<close> are the same text. On a NaN state
  every force is NaN and so are the five numbers of the new state; its time is
  \<open>s.t + p.dt\<close> as for any state.
\<close>

definition integrate :: "params \<Rightarrow> state \<Rightarrow> state" where
  "integrate ps s =
     (if s_nan s then s\<lparr>s_t := s_t s + p_dt ps\<rparr>
      else case netForce ps s of (Fx, Fy, tau) \<Rightarrow>
     (let I = 0.5 * p_m ps * p_R ps * p_R ps;
          ax = Fx / p_m ps;
          ay = Fy / p_m ps;
          alphaZ = tau / I;
          vx = s_vx s + p_dt ps * ax;
          vy = s_vy s + p_dt ps * ay;
          w = s_w s + p_dt ps * alphaZ;
          x = s_x s + p_dt ps * vx;
          y = s_y s + p_dt ps * vy
      in \<lparr>s_t = s_t s + p_dt ps, s_x = x, s_y = y, s_vx = vx, s_vy = vy, s_w = w,
          s_nan = False\<rparr>))"

text \<open>
  The test \<open>Math.hypot(vx, vy) < p.vStop && Math.abs(w) < p.wStop\<close>, which the three
  functions of \<open>Simulation.js\<close> apply to a state or a stone; the first argument tells
  whether the numbers are NaN, and then the test is false.
\<close>

definition stopped :: "params \<Rightarrow> bool \<Rightarrow> real \<Rightarrow> real \<Rightarrow> real \<Rightarrow> bool" where
  "stopped ps nan vx vy w = (\<not> nan \<and> sqrt (vx\<^sup>2 + vy\<^sup>2) < p_vStop ps \<and> \<bar>w\<bar> < p_wStop ps)"

subsection \<open>simulateStone\<close>

text \<open>
  \<open>N = Math.floor(duration / p.dt)\<close> bounds the \<open>for\<close> loop. With \<open>dt = 0\<close> the quotient
  is \<open>Infinity\<close> for a positive duration (the loop is unbounded) and NaN or \<open>-Infinity\<close>
  otherwise (\<open>step < N\<close> is false at once). With \<open>dt \<noteq> 0\<close> the quotient is rounded to a
  double before the floor is taken, and a negative quotient gives no step. The counter
  \<open>step\<close> is a double as well: \<open>step++\<close> counts up to \<open>2 ^ 53\<close> and stays there, since
  \<open>2 ^ 53 + 1\<close> is rounded back to \<open>2 ^ 53\<close>. So \<open>step < N\<close> never fails when \<open>N\<close> is
  above \<open>2 ^ 53\<close> (or is \<open>Infinity\<close>, for a quotient beyond the largest double), and
  the loop is unbounded then.
\<close>

definition stepBound :: "real \<Rightarrow> real \<Rightarrow> enat" where
  "stepBound duration dt =
     (if dt = 0 then (if duration > 0 then \<infinity> else 0)
      else if 2 ^ 53 < fl (duration / dt) then \<infinity>
      else enat (nat \<lfloor>fl (duration / dt)\<rfloor>))"

partial_function (option) stoneLoop ::
  "params \<Rightarrow> enat \<Rightarrow> nat \<Rightarrow> state \<Rightarrow> state list \<Rightarrow> (state \<times> state list) option" where
  "stoneLoop ps N step s traj =
     (if \<not> enat step < N then Some (s, traj)
      else if stopped ps (s_nan s) (s_vx s) (s_vy s) (s_w s) then Some (s, traj)
      else (let s' = integrate ps s in stoneLoop ps N (Suc step) s' (traj @ [s'])))"

text \<open>
  \<open>simulateStone\<close> returns the trajectory and leaves the final state in the stone; the
  model returns both. The writes under \<open>checkCollisions\<close> are overwritten by the final
  \<open>stone.fromState(s)\<close>.
\<close>

definition simulateStone :: "stone \<Rightarrow> params \<Rightarrow> real \<Rightarrow> bool \<Rightarrow> (state list \<times> stone) option" where
  "simulateStone st ps duration checkCollisions =
     (case stoneLoop ps (stepBound duration (p_dt ps)) 0 (toState st) [toState st] of
        None \<Rightarrow> None
      | Some (s, traj) \<Rightarrow> Some (traj, fromState st s))"

subsection \<open>simulateAll\<close>

type_synonym trajectories = "int \<Rightarrow> state list option"

text \<open>
  The test for a position off the sheet, the same text in \<open>simulateAll\<close> and in
  \<open>simulateDraw\<close>; false on NaN, as each of its three comparisons is.
\<close>

definition offSheet :: "sheet \<Rightarrow> bool \<Rightarrow> real \<Rightarrow> real \<Rightarrow> bool" where
  "offSheet sheetDimensions nan x y =
     (\<not> nan \<and> (x > XMAX sheetDimensions + 0.5 \<or> x < XMIN sheetDimensions - 0.5 \<or>
      \<bar>y\<bar> > HALF_W sheetDimensions + 0.5))"

text \<open>
  \<open>trajectories[stone.id].push(..)\<close>: every id was given an empty array before the loop,
  so the key is present.
\<close>

definition pushTraj :: "trajectories \<Rightarrow> int \<Rightarrow> state \<Rightarrow> trajectories" where
  "pushTraj trajs i s = (case trajs i of None \<Rightarrow> trajs | Some tr \<Rightarrow> trajs(i \<mapsto> tr @ [s]))"

text \<open>The \<open>stones.forEach\<close> that moves each stone in play by one call of \<open>simulateStone\<close>.\<close>

fun moveStones :: "params \<Rightarrow> sheet \<Rightarrow> stone list \<Rightarrow> trajectories \<Rightarrow> (stone list \<times> trajectories) option" where
  "moveStones ps sheetDimensions [] trajs = Some ([], trajs)"
| "moveStones ps sheetDimensions (st # rest) trajs =
     (if \<not> stone_inPlay st then
        (case moveStones ps sheetDimensions rest trajs of
           None \<Rightarrow> None
         | Some (rest', trajs') \<Rightarrow> Some (st # rest', trajs'))
      else
        (case simulateStone st ps (p_dt ps) False of
           None \<Rightarrow> None
         | Some (stepTraj, st1) \<Rightarrow>
            (let trajs1 = (if length stepTraj > 0 then pushTraj trajs (stone_id st1) (last stepTraj)
                           else trajs);
                 st2 = (if offSheet sheetDimensions (stone_nan st1) (stone_x st1) (stone_y st1)
                        then st1\<lparr>stone_inPlay := False\<rparr> else st1)
             in (case moveStones ps sheetDimensions rest trajs1 of
                   None \<Rightarrow> None
                 | Some (rest', trajs') \<Rightarrow> Some (st2 # rest', trajs')))))"

definition allStopped :: "params \<Rightarrow> stone list \<Rightarrow> bool" where
  "allStopped ps stones =
     list_all (\<lambda>st. \<not> stone_inPlay st \<or>
        stopped ps (stone_nan st) (stone_vx st) (stone_vy st) (stone_w st)) stones"

text \<open>
  The result of \<open>simulateAll\<close>: the trajectories it returns, the stones as it leaves them,
  and the number of executions of the body of its \<open>while\<close> loop (a counter that the
  source does not keep, added to state the bound on the ticks).

  \<open>time += timeStep\<close> adds two doubles: the sum is rounded, so that \<open>time\<close> after \<open>k\<close>
  ticks is not \<open>k * dt\<close> in general, and the number of ticks depends on the rounding. A sum
  beyond the largest double is \<open>Infinity\<close> in the source and a number not below the largest
  double here; both end the loop, \<open>duration\<close> being a double.
\<close>

record simResult =
  sim_trajectories :: trajectories
  sim_stones :: "stone list"
  sim_ticks :: nat

partial_function (option) simLoop ::
  "params \<Rightarrow> real \<Rightarrow> sheet \<Rightarrow> real \<Rightarrow> stone list \<Rightarrow> trajectories \<Rightarrow> nat \<Rightarrow> simResult option" where
  "simLoop ps duration sheetDimensions time stones trajs ticks =
     (if \<not> time < duration then
        Some \<lparr>sim_trajectories = trajs, sim_stones = stones, sim_ticks = ticks\<rparr>
      else if allStopped ps stones then
        Some \<lparr>sim_trajectories = trajs, sim_stones = stones, sim_ticks = ticks\<rparr>
      else
        (case moveStones ps sheetDimensions stones trajs of
           None \<Rightarrow> None
         | Some (stones1, trajs1) \<Rightarrow>
             simLoop ps duration sheetDimensions (fl (time + p_dt ps))
               (detectCollisions stones1 ps) trajs1 (Suc ticks)))"

definition simulateAll :: "params \<Rightarrow> real \<Rightarrow> stone list \<Rightarrow> sheet \<Rightarrow> simResult option" where
  "simulateAll ps duration stones sheetDimensions =
     simLoop ps duration sheetDimensions 0 stones
       (fold (\<lambda>st trajs. trajs(stone_id st \<mapsto> [])) stones Map.empty) 0"

subsection \<open>simulateDraw\<close>




section \<open>Notions used to state the properties\<close>

text \<open>
  The non-hammer team throws first, so after the shot with index \<open>shotNumber\<close> the hammer
  team has thrown \<open>\<lfloor>(shotNumber + 1) / 2\<rfloor>\<close> stones and the other team
  \<open>\<lfloor>(shotNumber + 2) / 2\<rfloor>\<close>. \<open>feasibleBound\<close> is a team's stones in play plus its
  remaining throws. \<open>infeasible\<close> collects the conditions of the two loops of
  \<open>applyConstraints\<close>.
\<close>

definition thrownBy :: "int \<Rightarrow> bool \<Rightarrow> int" where
  "thrownBy shotNumber hasHammer =
     (if hasHammer then (shotNumber + 1) div 2 else (shotNumber + 2) div 2)"

definition feasibleBound :: "string \<Rightarrow> bool \<Rightarrow> stoneTuple list \<Rightarrow> int \<Rightarrow> int" where
  "feasibleBound team hasHammer stones shotNumber =
     inPlayCount team stones + (8 - thrownBy shotNumber hasHammer)"

definition otherTeam :: "string \<Rightarrow> string" where
  "otherTeam team = (if team = ''red'' then ''yellow'' else ''red'')"

definition infeasible :: "string \<Rightarrow> int \<Rightarrow> int \<Rightarrow> int \<Rightarrow> bool" where
  "infeasible hammerTeam maxRed maxYel k =
     ((1 \<le> k \<and> k \<le> 8 \<and> (hammerTeam = ''red'' \<and> k > maxRed \<or> hammerTeam = ''yellow'' \<and> k > maxYel)) \<or>
      (- 8 \<le> k \<and> k \<le> - 1 \<and> (hammerTeam = ''red'' \<and> - k > maxYel \<or> hammerTeam = ''yellow'' \<and> - k > maxRed)))"

text \<open>
  The terminal computation in the words of the specification (\<open>terminalBucket_spec\<close>):
  the stones in play inside the house, sorted by distance to the button; the team of the
  closest stone scores the length of the leading run of its stones, capped at 8, signed
  by whether it is the hammer team; 0 when the house is empty.
\<close>

definition inHouse :: "stoneTuple \<Rightarrow> bool" where
  "inHouse st = (case st of (t, x, y) \<Rightarrow> isInPlay x y \<and> hypot2 x y \<le> R_HOUSE)"

definition distToButton :: "stoneTuple \<Rightarrow> real" where
  "distToButton st = (case st of (t, x, y) \<Rightarrow> hypot2 x y)"

definition terminalBucket_spec :: "stoneTuple list \<Rightarrow> string \<Rightarrow> int" where
  "terminalBucket_spec stones hammerTeam =
     (case sort_key distToButton (filter inHouse stones) of
        [] \<Rightarrow> 0
      | st # rest \<Rightarrow>
          (let c = min 8 (int (length (takeWhile (\<lambda>s. fst s = fst st) (st # rest))))
           in if fst st = hammerTeam then c else - c))"

text \<open>
  The same computation with the tolerance of the source (\<open>terminalBucket_tol\<close>): a team
  scores the number of its house stones that are closer to the button than every house
  stone of the other team by more than \<open>1e-9\<close>; at most one team has such stones.
\<close>

definition houseDists :: "string \<Rightarrow> stoneTuple list \<Rightarrow> real list" where
  "houseDists team stones = map distToButton (filter (\<lambda>st. fst st = team \<and> inHouse st) stones)"

definition nearerCount :: "real list \<Rightarrow> real list \<Rightarrow> nat" where
  "nearerCount own opp = length (filter (\<lambda>r. \<forall>r' \<in> set opp. r < r' - 0.000000001) own)"

definition terminalBucket_tol :: "stoneTuple list \<Rightarrow> string \<Rightarrow> int" where
  "terminalBucket_tol stones hammerTeam =
     (let nRed = nearerCount (houseDists ''red'' stones) (houseDists ''yellow'' stones);
          nYel = nearerCount (houseDists ''yellow'' stones) (houseDists ''red'' stones)
      in if nRed > 0 then (if hammerTeam = ''red'' then int nRed else - int nRed)
         else if nYel > 0 then (if hammerTeam = ''yellow'' then int nYel else - int nYel)
         else 0)"

text \<open>
  A stone list is \<open>separated\<close> when it holds only the two known tags and no two house
  stones of different teams are within \<open>1e-9\<close> of each other in distance to the button.
\<close>

definition separated :: "stoneTuple list \<Rightarrow> bool" where
  "separated stones =
     ((\<forall>s \<in> set stones. fst s = ''red'' \<or> fst s = ''yellow'') \<and>
      (\<forall>a \<in> set stones. \<forall>b \<in> set stones. inHouse a \<longrightarrow> inHouse b \<longrightarrow> fst a \<noteq> fst b \<longrightarrow>
          0.000000001 < \<bar>distToButton a - distToButton b\<bar>))"

text \<open>The stones of a list that carry one of the two tags the evaluator knows.\<close>

definition recognized :: "stoneTuple list \<Rightarrow> stoneTuple list" where
  "recognized stones = filter (\<lambda>(t, x, y). t = ''red'' \<or> t = ''yellow'') stones"






text \<open>
  The distance of the centres of two stones, and their relative velocity along the line
  of centres (for distinct centres).
\<close>

definition centerDistance :: "stone \<Rightarrow> stone \<Rightarrow> real" where
  "centerDistance a b = sqrt ((stone_x b - stone_x a)\<^sup>2 + (stone_y b - stone_y a)\<^sup>2)"

definition normalVelocity :: "stone \<Rightarrow> stone \<Rightarrow> real" where
  "normalVelocity a b =
     ((stone_vx b - stone_vx a) * (stone_x b - stone_x a) +
      (stone_vy b - stone_vy a) * (stone_y b - stone_y a)) / centerDistance a b"


subsection \<open>Concrete inputs\<close>

text \<open>
  Inputs for the witnesses and counterexamples. \<open>frictionless dt\<close> is the parameter set of
  \<open>Params\<close> with the usual stone geometry, one band segment and \<open>mu0 = 0\<close>, so that no
  force acts; \<open>gripping\<close> has friction on its one band segment, \<open>g = 10\<close> and
  \<open>dt = tMax = 1/2\<close>, so that a stone moving at speed 1 along the centre line is
  decelerated by 1; \<open>stoneAt\<close> is a stone on the centre line; \<open>spinner t\<close> is a stone that
  does not move but spins, at time \<open>t\<close>; \<open>glide t x vx\<close> is the state at time \<open>t\<close> of a stone at
  \<open>x\<close> on the centre line that moves along it with velocity \<open>vx\<close> and does not spin;
  \<open>tenth\<close> is the double nearest to 0.1; \<open>rink\<close> has the values of \<open>SheetDimensions\<close>.
\<close>

definition frictionless :: "real \<Rightarrow> params" where
  "frictionless dt = \<lparr>p_m = 19, p_g = 9.81, p_R = 0.145, p_rBand = 0.065, p_mu0 = 0,
     p_alpha = 0, p_segments = 1, p_dt = dt, p_tMax = 30, p_vStop = 0.01, p_wStop = 0.02,
     p_vEps = 0.000001, p_restitution = 0.8\<rparr>"


definition stoneAt :: "int \<Rightarrow> real \<Rightarrow> real \<Rightarrow> real \<Rightarrow> stone" where
  "stoneAt i x vx w = \<lparr>stone_id = i, stone_x = x, stone_y = 0, stone_vx = vx, stone_vy = 0,
     stone_w = w, stone_team = ''red'', stone_inPlay = True, stone_t = 0, stone_nan = False\<rparr>"


definition tenth :: real where
  "tenth = 3602879701896397 / 36028797018963968"

definition rink :: sheet where
  "rink = \<lparr>XMIN = 0, XMAX = 31.479, HALF_W = 2.375\<rparr>"

definition spinner :: "real \<Rightarrow> stone" where
  "spinner t = (stoneAt 1 1 0 1)\<lparr>stone_t := t\<rparr>"

section \<open>Properties of the evaluator\<close>

lemma only_foreign_filter:
  assumes "\<forall>(t, x, y) \<in> set stones. t \<noteq> team"
  shows "filter (\<lambda>(t, x, y). t = team \<and> P x y) stones = []"
  using assms by (induction stones) auto

lemma only_foreign_team:
  assumes "\<forall>(t, x, y) \<in> set stones. t \<noteq> team"
  shows "filter (\<lambda>(t, x, y). t = team) stones = []"
  using assms by (induction stones) auto

text \<open>
  C3. The two advantage values returned by \<open>evaluatePosition17\<close> are negations of each
  other, for every shot number, hammer team, stone list and skill.
\<close>

theorem advantage_negated:
  "advantage_red (evaluatePosition17 shotNumber hammerTeam stones skillPercent) =
   - advantage_yellow (evaluatePosition17 shotNumber hammerTeam stones skillPercent)"
  by (simp add: evaluatePosition17_def Let_def)

lemma hypot2_x0: "hypot2 x 0 = \<bar>x\<bar>" by (simp add: hypot2_def)
lemma hypot2_0y: "hypot2 0 y = \<bar>y\<bar>" by (simp add: hypot2_def)

lemma foreign_entries:
  assumes "\<forall>(t, x, y) \<in> set stones. t \<noteq> team"
  shows "computeTeamStoneValues team stones = []"
  using only_foreign_team[OF assms] by (simp add: computeTeamStoneValues_def)

lemma foreign_countCenter:
  assumes "\<forall>(t, x, y) \<in> set stones. t \<noteq> team"
  shows "countCenter stones team = 0"
  using only_foreign_filter[OF assms, of "\<lambda>x y. \<not> hypot2 x y \<le> R_HOUSE \<and> \<bar>x\<bar> \<le> CENTER_BAND"]
  by (simp add: countCenter_def)

lemma foreign_inPlayCount:
  assumes "\<forall>(t, x, y) \<in> set stones. t \<noteq> team"
  shows "inPlayCount team stones = 0"
  using only_foreign_filter[OF assms, of isInPlay] by (simp add: inPlayCount_def)

lemma foreign_houseRadii:
  assumes "\<forall>(t, x, y) \<in> set stones. t \<noteq> team"
  shows "houseRadii team stones = []"
  using only_foreign_filter[OF assms, of "\<lambda>x y. isInPlay x y \<and> hypot2 x y \<le> R_HOUSE"]
  by (simp add: houseRadii_def)

lemma entries_nil: "computeTeamStoneValues team [] = []"
  by (simp add: computeTeamStoneValues_def)

lemma houseRadii_nil: "houseRadii team [] = []"
  by (simp add: houseRadii_def)

lemma inPlayCount_nil: "inPlayCount team [] = 0"
  by (simp add: inPlayCount_def)

lemma dbl_nil: "applyDoubleVulnerability [] stones s skill = []"
  by (simp add: applyDoubleVulnerability_def)

lemma foreign_stones_eval:
  assumes "\<forall>(t, x, y) \<in> set stones. t \<noteq> ''red'' \<and> t \<noteq> ''yellow'' \<and> t \<noteq> hammerTeam"
  shows "evaluatePosition17 shotNumber hammerTeam stones skillPercent =
         evaluatePosition17 shotNumber hammerTeam [] skillPercent"
proof -
  have r: "\<forall>(t, x, y) \<in> set stones. t \<noteq> ''red''" and y: "\<forall>(t, x, y) \<in> set stones. t \<noteq> ''yellow''"
    and h: "\<forall>(t, x, y) \<in> set stones. t \<noteq> hammerTeam"
    using assms by auto
  have nh: "\<forall>(t, x, y) \<in> set stones. t \<noteq> (if hammerTeam = ''red'' then ''yellow'' else ''red'')"
    using r y by auto
  have cong: "congestionTerm stones hammerTeam s = congestionTerm [] hammerTeam s" for s
    unfolding congestionTerm_def Let_def
    by (simp only: foreign_countCenter[OF nh] foreign_countCenter[OF h]) (simp add: countCenter_def)

  have score: "scoreRedOf shotNumber hammerTeam stones skillPercent =
               scoreRedOf shotNumber hammerTeam [] skillPercent"
    by (simp add: scoreRedOf_def Let_def foreign_entries[OF r] foreign_entries[OF y] dbl_nil cong
        entries_nil)
  have tsc: "terminalScore stones hammerTeam = terminalScore [] hammerTeam"
    by (simp add: terminalScore_def foreign_houseRadii[OF r] foreign_houseRadii[OF y] houseRadii_nil)
  have ac: "applyConstraints bs stones hammerTeam s n = applyConstraints bs [] hammerTeam s n" for bs s n
    by (simp add: applyConstraints_def Let_def foreign_inPlayCount[OF r] foreign_inPlayCount[OF y]
        collapseToTerminal_def tsc inPlayCount_nil)
  show ?thesis
    by (simp add: evaluatePosition17_def Let_def score ac)
qed

lemma filter_recognized:
  assumes "team = ''red'' \<or> team = ''yellow''"
  shows "filter (\<lambda>(t, x, y). t = team \<and> P x y) (recognized stones) =
         filter (\<lambda>(t, x, y). t = team \<and> P x y) stones"
  using assms unfolding recognized_def by (induction stones) auto

lemma recognized_counts:
  assumes "team = ''red'' \<or> team = ''yellow''"
  shows "inPlayCount team (recognized stones) = inPlayCount team stones"
    and "houseRadii team (recognized stones) = houseRadii team stones"
  using filter_recognized[OF assms, of isInPlay stones]
    filter_recognized[OF assms, of "\<lambda>x y. isInPlay x y \<and> hypot2 x y \<le> R_HOUSE" stones]
  by (simp_all add: inPlayCount_def houseRadii_def)

lemma recognized_constraints:
  "applyConstraints bs (recognized stones) h s n = applyConstraints bs stones h s n"
  by (simp add: applyConstraints_def collapseToTerminal_def terminalScore_def recognized_counts Let_def)

lemma entry_position: "ex (stoneEntry allPos teamPos p) = fst p \<and> ey (stoneEntry allPos teamPos p) = snd p"
  by (cases p) (simp add: stoneEntry_def Let_def)

lemma entries_positions:
  "map (\<lambda>e. (ex e, ey e)) (computeTeamStoneValues team stones) =
   map (\<lambda>(t, x, y). (x, y)) (filter (\<lambda>(t, x, y). t = team) stones)"
  unfolding computeTeamStoneValues_def Let_def map_map
  by (rule map_cong[OF refl]) (simp add: entry_position case_prod_beta)

lemma congestion_tags:
  "congestionTerm (filter (\<lambda>(t, x, y). t = ''red'' \<or> t = ''yellow'' \<or> t = h) stones) h s =
   congestionTerm stones h s"
proof -
  have "filter (\<lambda>(t, x, y). t = team \<and> P x y) (filter (\<lambda>(t, x, y). t = ''red'' \<or> t = ''yellow'' \<or> t = h) stones) =
        filter (\<lambda>(t, x, y). t = team \<and> P x y) stones"
    if "team = ''red'' \<or> team = ''yellow'' \<or> team = h" for team and P :: "real \<Rightarrow> real \<Rightarrow> bool"
    using that by (induction stones) auto
  then show ?thesis
    by (simp add: congestionTerm_def countCenter_def Let_def)
qed

text \<open>
  C10 (as amended). \<open>evaluatePosition17\<close> has no check of team tags. A stone list in
  which every tag differs from \<open>''red''\<close>, from \<open>''yellow''\<close> and from the \<open>hammerTeam\<close>
  argument gives the result of the empty stone list. In any stone list, the positional
  entries of a team are those of the stones tagged with it, the constraints (feasibility
  counts and terminal collapse) see only the stones tagged \<open>''red''\<close> or \<open>''yellow''\<close>,
  and the congestion term sees only those and the stones tagged with the hammer team.
\<close>

theorem unrecognized_tags_ignored:
  "((\<forall>(t, x, y) \<in> set stones. t \<noteq> ''red'' \<and> t \<noteq> ''yellow'' \<and> t \<noteq> hammerTeam) \<longrightarrow>
      evaluatePosition17 shotNumber hammerTeam stones skillPercent =
      evaluatePosition17 shotNumber hammerTeam [] skillPercent) \<and>
   map (\<lambda>e. (ex e, ey e)) (computeTeamStoneValues team stones) =
      map (\<lambda>(t, x, y). (x, y)) (filter (\<lambda>(t, x, y). t = team) stones) \<and>
   applyConstraints bs (recognized stones) hammerTeam s shotNumber =
      applyConstraints bs stones hammerTeam s shotNumber \<and>
   congestionTerm (filter (\<lambda>(t, x, y). t = ''red'' \<or> t = ''yellow'' \<or> t = hammerTeam) stones) hammerTeam s =
      congestionTerm stones hammerTeam s"
  using foreign_stones_eval[of stones hammerTeam shotNumber skillPercent]
    entries_positions[of team stones] recognized_constraints[of bs stones hammerTeam s shotNumber]
    congestion_tags[of hammerTeam stones s]
  by blast

theorem unrecognized_tags_ignored_witness:
  "evaluatePosition17 3 ''red'' [(''A'', 0, 1), (''B'', 1/2, 3)] 50 = evaluatePosition17 3 ''red'' [] 50"
proof -
  have "\<forall>(t, x, y) \<in> set [(''A'', 0, 1), (''B'', 1/2, 3)]. t \<noteq> ''red'' \<and> t \<noteq> ''yellow'' \<and> t \<noteq> ''red''"
    by simp
  with unrecognized_tags_ignored[where stones = "[(''A'', 0, 1), (''B'', 1/2, 3)]"
      and hammerTeam = "''red''" and shotNumber = 3 and skillPercent = 50]
  show ?thesis by blast
qed

text \<open>
  With hammer team \<open>''A''\<close>, as the game controller passes it, \<open>congestionTerm\<close> counts the
  stones tagged \<open>''A''\<close> beyond the house in the centre band: such a stone moves the
  advantage although its tag is neither \<open>''red''\<close> nor \<open>''yellow''\<close>.
\<close>

lemma scoreRed_A: "scoreRedOf 0 ''A'' [(''A'', 0, 3)] 50 = scoreRedOf 0 ''A'' [] 50 - 0.2 * sqrt (15/16)"
  apply (simp add: scoreRedOf_def Let_def computeTeamStoneValues_def dbl_nil congestionTerm_def countCenter_def hypot2_0y eval_consts)
  done

text \<open>
  C10, counterexample to the claim as stated: the stone list \<open>[(''A'', 0, 3)]\<close> holds only
  an unrecognized tag, and with hammer team \<open>''A''\<close> at shot 0 its advantage differs from
  the advantage of the empty stone list.
\<close>

theorem hammer_tag_counterexample:
  "advantage_red (evaluatePosition17 0 ''A'' [(''A'', 0, 3)] 50) \<noteq>
   advantage_red (evaluatePosition17 0 ''A'' [] 50)"
  by (simp add: evaluatePosition17_def Let_def scoreRed_A)

subsection \<open>The softmax is a distribution\<close>

lemma sum_list_div_const: "sum_list (map (\<lambda>v. v / c) xs) = sum_list xs / (c::real)"
  by (induction xs) (simp_all add: add_divide_distrib)

lemma sum_list_exp_pos: "xs \<noteq> [] \<Longrightarrow> 0 < sum_list (map (\<lambda>v. exp (v - m)) xs)" for m :: real
proof (induction xs)
  case Nil then show ?case by simp
next
  case (Cons a xs)
  have "0 \<le> sum_list (map (\<lambda>v. exp (v - m)) xs)"
    by (rule sum_list_nonneg) auto
  moreover have "0 < exp (a - m)" by simp
  ultimately show ?case by (simp add: add_pos_nonneg)
qed

lemma softmax1D_length: "length (softmax1D arr) = length arr"
  by (cases arr) (simp_all add: softmax1D_def Let_def)

lemma softmax1D_sum: "arr \<noteq> [] \<Longrightarrow> sum_list (softmax1D arr) = 1"
proof (cases arr)
  case Nil then show "arr \<noteq> [] \<Longrightarrow> ?thesis" by simp
next
  case (Cons a as)
  define m where "m = fold max as a"
  have pos: "0 < sum_list (map (\<lambda>v. exp (v - m)) arr)"
    by (rule sum_list_exp_pos) (simp add: Cons)
  have "softmax1D arr = map (\<lambda>v. v / sum_list (map (\<lambda>v. exp (v - m)) arr)) (map (\<lambda>v. exp (v - m)) arr)"
    using pos unfolding softmax1D_def Cons m_def by (simp add: Let_def)
  then show ?thesis using pos by (simp only: sum_list_div_const) simp
qed

lemma softmax1D_pos: "p \<in> set (softmax1D arr) \<Longrightarrow> 0 < p"
proof (cases arr)
  case Nil then show "p \<in> set (softmax1D arr) \<Longrightarrow> ?thesis" by (simp add: softmax1D_def)
next
  case (Cons a as)
  define m where "m = fold max as a"
  assume p: "p \<in> set (softmax1D arr)"
  have pos: "0 < sum_list (map (\<lambda>v. exp (v - m)) arr)"
    by (rule sum_list_exp_pos) (simp add: Cons)
  have "softmax1D arr = map (\<lambda>v. v / sum_list (map (\<lambda>v. exp (v - m)) arr)) (map (\<lambda>v. exp (v - m)) arr)"
    using pos unfolding softmax1D_def Cons m_def by (simp add: Let_def)
  with p obtain v where "p = exp (v - m) / sum_list (map (\<lambda>v. exp (v - m)) arr)" by auto
  with pos show ?thesis by simp
qed

subsection \<open>The seventeen buckets before the constraints\<close>

lemma kVals_length: "length [- 8..8::int] = 17" by simp

lemma dist_keys: "map fst (distribution17_fromScore sc s skill) = [- 8..8]"
  unfolding distribution17_fromScore_def Let_def
  by (rule map_fst_zip) (simp add: softmax1D_length)

lemma dist_vals: "\<exists>logits. length logits = 17 \<and> map snd (distribution17_fromScore sc s skill) = softmax1D logits"
  unfolding distribution17_fromScore_def Let_def
  by (rule exI, rule conjI[rotated], rule map_snd_zip) (simp_all add: softmax1D_length)

lemma dist_sum: "sum_list (map snd (distribution17_fromScore sc s skill)) = 1"
proof -
  obtain logits where l: "length logits = 17" and m: "map snd (distribution17_fromScore sc s skill) = softmax1D logits"
    using dist_vals by blast
  from l have "logits \<noteq> []" by auto
  then show ?thesis by (simp add: m softmax1D_sum)
qed

lemma dist_pos: "(k, v) \<in> set (distribution17_fromScore sc s skill) \<Longrightarrow> 0 < v"
proof -
  assume a: "(k, v) \<in> set (distribution17_fromScore sc s skill)"
  obtain logits where m: "map snd (distribution17_fromScore sc s skill) = softmax1D logits"
    using dist_vals by blast
  from a have "v \<in> set (map snd (distribution17_fromScore sc s skill))" by force
  then show ?thesis by (simp add: m softmax1D_pos)
qed

subsection \<open>Zeroing buckets\<close>

lemma update_as_map:
  "distinct (map fst al) \<Longrightarrow> k \<in> set (map fst al) \<Longrightarrow>
   AList.update k v al = map (\<lambda>(k', v'). (k', if k' = k then v else v')) al"
proof (induction al)
  case Nil then show ?case by simp
next
  case (Cons a al)
  obtain k0 v0 where a: "a = (k0, v0)" by (cases a)
  show ?case
  proof (cases "k0 = k")
    case True
    with Cons.prems a have "k \<notin> set (map fst al)" by auto
    then have "map (\<lambda>(k', v'). (k', if k' = k then v else v')) al = al"
      by (induction al) auto
    with True a show ?thesis by simp
  next
    case False
    with Cons a show ?thesis by simp
  qed
qed

lemma fold_zero:
  assumes "distinct (map fst bs)" and "\<forall>k \<in> set ks. P k \<longrightarrow> f k \<in> set (map fst bs)"
  shows "fold (\<lambda>k b. if P k then AList.update (f k) 0 b else b) ks bs =
         map (\<lambda>(k', v). (k', if \<exists>k \<in> set ks. P k \<and> f k = k' then 0 else v)) bs"
  using assms
proof (induction ks arbitrary: bs)
  case Nil then show ?case by simp
next
  case (Cons k ks)
  let ?b1 = "if P k then AList.update (f k) 0 bs else bs"
  have b1: "?b1 = map (\<lambda>(k', v). (k', if P k \<and> f k = k' then 0 else v)) bs"
  proof (cases "P k")
    case True
    then have "f k \<in> set (map fst bs)" using Cons.prems by simp
    from update_as_map[OF Cons.prems(1) this, of 0] True show ?thesis
      by (auto intro!: map_cong)
  next
    case False then show ?thesis by simp
  qed
  have keys: "map fst ?b1 = map fst bs"
    by (subst b1) (simp add: case_prod_beta comp_def)
  have "fold (\<lambda>k b. if P k then AList.update (f k) 0 b else b) ks ?b1 =
        map (\<lambda>(k', v). (k', if \<exists>k \<in> set ks. P k \<and> f k = k' then 0 else v)) ?b1"
    by (rule Cons.IH) (use Cons.prems keys in auto)
  also have "\<dots> = map (\<lambda>(k', v). (k', if \<exists>k \<in> set (k # ks). P k \<and> f k = k' then 0 else v)) bs"
    by (subst b1) (auto simp: case_prod_beta)
  finally show ?case by simp
qed

lemma zeroHammer_map:
  assumes "distinct (map fst bs)" and "{1..8} \<subseteq> set (map fst bs)"
  shows "zeroHammer h mr my bs =
         map (\<lambda>(k, v). (k, if 1 \<le> k \<and> k \<le> 8 \<and> (h = ''red'' \<and> k > mr \<or> h = ''yellow'' \<and> k > my) then 0 else v)) bs"
proof -
  let ?P = "\<lambda>k. h = ''red'' \<and> k > mr \<or> h = ''yellow'' \<and> k > my"
  have body: "(\<lambda>k b. (let b1 = (if h = ''red'' \<and> k > mr then AList.update k 0 b else b)
            in if h = ''yellow'' \<and> k > my then AList.update k 0 b1 else b1)) =
        (\<lambda>k b. if ?P k then AList.update ((\<lambda>k. k) k) 0 b else b)"
    by (auto simp: fun_eq_iff Let_def)
  have "zeroHammer h mr my bs =
        map (\<lambda>(k', v). (k', if \<exists>k \<in> set [1..8]. ?P k \<and> (\<lambda>k. k) k = k' then 0 else v)) bs"
    unfolding zeroHammer_def body
    by (rule fold_zero) (use assms in auto)
  also have "\<dots> = map (\<lambda>(k, v). (k, if 1 \<le> k \<and> k \<le> 8 \<and> ?P k then 0 else v)) bs"
    by (rule map_cong) auto
  finally show ?thesis .
qed

lemma zeroSteal_map:
  assumes "distinct (map fst bs)" and "{- 8..- 1} \<subseteq> set (map fst bs)"
  shows "zeroSteal h mr my bs =
         map (\<lambda>(k, v). (k, if - 8 \<le> k \<and> k \<le> - 1 \<and> (h = ''red'' \<and> - k > my \<or> h = ''yellow'' \<and> - k > mr) then 0 else v)) bs"
proof -
  let ?P = "\<lambda>k. h = ''red'' \<and> k > my \<or> h = ''yellow'' \<and> k > mr"
  have body: "(\<lambda>k b. (let b1 = (if h = ''red'' \<and> k > my then AList.update (- k) 0 b else b)
            in if h = ''yellow'' \<and> k > mr then AList.update (- k) 0 b1 else b1)) =
        (\<lambda>k b. if ?P k then AList.update (uminus k) 0 b else b)"
    by (auto simp: fun_eq_iff Let_def)
  have "zeroSteal h mr my bs =
        map (\<lambda>(k', v). (k', if \<exists>k \<in> set [1..8]. ?P k \<and> uminus k = k' then 0 else v)) bs"
    unfolding zeroSteal_def body
    by (rule fold_zero) (use assms in auto)
  also have "\<dots> = map (\<lambda>(k, v). (k, if - 8 \<le> k \<and> k \<le> - 1 \<and> ?P (- k) then 0 else v)) bs"
  proof (rule map_cong[OF refl])
    fix x :: "int \<times> real"
    have "(\<exists>k \<in> set [1..8]. ?P k \<and> uminus k = fst x) \<longleftrightarrow> (- 8 \<le> fst x \<and> fst x \<le> - 1 \<and> ?P (- fst x))"
      by (auto intro: bexI[where x = "- fst x"])
    then show "(case x of (k', v) \<Rightarrow> (k', if \<exists>k \<in> set [1..8]. ?P k \<and> uminus k = k' then 0 else v)) =
               (case x of (k, v) \<Rightarrow> (k, if - 8 \<le> k \<and> k \<le> - 1 \<and> ?P (- k) then 0 else v))"
      by (cases x) simp
  qed
  finally show ?thesis .
qed

lemma zero_both:
  assumes "map fst bs = [- 8..8]"
  shows "zeroSteal h mr my (zeroHammer h mr my bs) =
         map (\<lambda>(k, v). (k, if infeasible h mr my k then 0 else v)) bs"
proof -
  have d: "distinct (map fst bs)" and s1: "{1..8} \<subseteq> set (map fst bs)"
    and s2: "{- 8..- 1} \<subseteq> set (map fst bs)"
    using assms by auto
  have zh: "zeroHammer h mr my bs =
      map (\<lambda>(k, v). (k, if 1 \<le> k \<and> k \<le> 8 \<and> (h = ''red'' \<and> k > mr \<or> h = ''yellow'' \<and> k > my) then 0 else v)) bs"
    by (rule zeroHammer_map[OF d s1])
  have keys: "map fst (zeroHammer h mr my bs) = map fst bs"
    by (subst zh) (simp add: case_prod_beta comp_def)
  show ?thesis
    apply (subst zeroSteal_map)
    using keys d s2 apply simp
    using keys d s2 apply simp
    apply (subst zh)
    apply (auto simp: case_prod_beta comp_def infeasible_def)
    done
qed

lemma map_of_keyed_map:
  "map_of (map (\<lambda>(k, v). (k, g k v)) bs) k = map_option (g k) (map_of bs k)"
  by (induction bs) auto

lemma keyed_map_keys: "map fst (map (\<lambda>(k, v). (k, g k v)) bs) = map fst bs"
  by (induction bs) auto

lemma dist_lookup:
  assumes "k \<in> {- 8..8}"
  shows "\<exists>v. map_of (distribution17_fromScore sc s skill) k = Some v \<and> 0 < v"
proof -
  have "k \<in> set (map fst (distribution17_fromScore sc s skill))"
    using assms by (simp only: dist_keys set_upto)
  then obtain v where v: "map_of (distribution17_fromScore sc s skill) k = Some v"
    by (metis map_of_eq_None_iff not_None_eq set_map)
  then have "(k, v) \<in> set (distribution17_fromScore sc s skill)" by (rule map_of_SomeD)
  then have "0 < v" by (rule dist_pos)
  with v show ?thesis by blast
qed

lemma constrained_form:
  assumes "s \<noteq> 0"
  shows "\<exists>Z > 0. sum_list (map (\<lambda>(k, v). if infeasible h
             (inPlayCount ''red'' stones + (8 - fst (countThrown n h)))
             (inPlayCount ''yellow'' stones + (8 - snd (countThrown n h))) k then 0 else v)
             (distribution17_fromScore sc s skill)) = Z \<and>
         applyConstraints (distribution17_fromScore sc s skill) stones h s n =
         map (\<lambda>(k, v). (k, (if infeasible h
             (inPlayCount ''red'' stones + (8 - fst (countThrown n h)))
             (inPlayCount ''yellow'' stones + (8 - snd (countThrown n h))) k then 0 else v) / Z))
           (distribution17_fromScore sc s skill)"
proof -
  let ?bs = "distribution17_fromScore sc s skill"
  let ?mr = "inPlayCount ''red'' stones + (8 - fst (countThrown n h))"
  let ?my = "inPlayCount ''yellow'' stones + (8 - snd (countThrown n h))"
  let ?g = "\<lambda>(k, v). if infeasible h ?mr ?my k then 0 else (v::real)"
  let ?b2 = "map (\<lambda>(k, v). (k, if infeasible h ?mr ?my k then 0 else v)) ?bs"
  have b2: "zeroSteal h ?mr ?my (zeroHammer h ?mr ?my ?bs) = ?b2"
    by (rule zero_both) (rule dist_keys)
  have snd_b2: "map snd ?b2 = map ?g ?bs"
    by (simp add: case_prod_beta comp_def)
  obtain v0 where v0: "map_of ?bs 0 = Some v0" and v0pos: "0 < v0"
    using dist_lookup[of 0 sc s skill] by auto
  have mem: "(0, v0) \<in> set ?bs" using v0 by (rule map_of_SomeD)
  have "?g (0, v0) \<in> ?g ` set ?bs" using mem by (rule imageI)
  moreover have "?g (0, v0) = v0" by (simp add: infeasible_def)
  ultimately have in0: "v0 \<in> set (map ?g ?bs)" by (simp only: set_map)
  have nonneg: "\<And>x. x \<in> set (map ?g ?bs) \<Longrightarrow> 0 \<le> x"
    using dist_pos[of _ _ sc s skill] by (auto simp: less_imp_le)
  have "v0 \<le> sum_list (map ?g ?bs)"
    by (rule member_le_sum_list[OF in0 nonneg])
  with v0pos have Zpos: "0 < sum_list (map ?g ?bs)" by simp
  have "applyConstraints ?bs stones h s n = map (\<lambda>(k, v). (k, v / sum_list (map ?g ?bs))) ?b2"
    using assms Zpos unfolding applyConstraints_def Let_def b2 snd_b2 by simp
  also have "\<dots> = map (\<lambda>(k, v). (k, (if infeasible h ?mr ?my k then 0 else v) / sum_list (map ?g ?bs))) ?bs"
    by (simp add: case_prod_beta comp_def)
  finally show ?thesis using Zpos by blast
qed

lemma constrained_keys:
  assumes "s \<noteq> 0"
  shows "map fst (applyConstraints (distribution17_fromScore sc s skill) stones h s n) = [- 8..8]"
proof -
  from constrained_form[OF assms, of h stones n sc skill] obtain Z where
    "applyConstraints (distribution17_fromScore sc s skill) stones h s n =
         map (\<lambda>(k, v). (k, (if infeasible h
             (inPlayCount ''red'' stones + (8 - fst (countThrown n h)))
             (inPlayCount ''yellow'' stones + (8 - snd (countThrown n h))) k then 0 else v) / Z))
           (distribution17_fromScore sc s skill)" by blast
  then show ?thesis
    by (simp only: keyed_map_keys dist_keys)
qed

lemma constrained_sum:
  assumes "s \<noteq> 0"
  shows "sum_list (map snd (applyConstraints (distribution17_fromScore sc s skill) stones h s n)) = 1"
proof -
  let ?g = "\<lambda>(k, v). if infeasible h
             (inPlayCount ''red'' stones + (8 - fst (countThrown n h)))
             (inPlayCount ''yellow'' stones + (8 - snd (countThrown n h))) k then 0 else (v::real)"
  from constrained_form[OF assms, of h stones n sc skill] obtain Z where
    Z: "0 < Z" "sum_list (map ?g (distribution17_fromScore sc s skill)) = Z" and
    eq: "applyConstraints (distribution17_fromScore sc s skill) stones h s n =
         map (\<lambda>(k, v). (k, (if infeasible h
             (inPlayCount ''red'' stones + (8 - fst (countThrown n h)))
             (inPlayCount ''yellow'' stones + (8 - snd (countThrown n h))) k then 0 else v) / Z))
           (distribution17_fromScore sc s skill)" by blast
  have "map snd (applyConstraints (distribution17_fromScore sc s skill) stones h s n) =
        map (\<lambda>v. v / Z) (map ?g (distribution17_fromScore sc s skill))"
    unfolding eq by (simp add: case_prod_beta comp_def)
  then show ?thesis using Z by (simp only: sum_list_div_const) simp
qed

lemma constrained_lookup:
  assumes "s \<noteq> 0" and "k \<in> {- 8..8}"
  shows "\<exists>v. map_of (applyConstraints (distribution17_fromScore sc s skill) stones h s n) k = Some v \<and>
             0 \<le> v \<and>
             (v = 0 \<longleftrightarrow> infeasible h
               (inPlayCount ''red'' stones + (8 - fst (countThrown n h)))
               (inPlayCount ''yellow'' stones + (8 - snd (countThrown n h))) k)"
proof -
  from constrained_form[OF assms(1), of h stones n sc skill] obtain Z where
    Z: "0 < Z" and
    eq: "applyConstraints (distribution17_fromScore sc s skill) stones h s n =
         map (\<lambda>(k, v). (k, (if infeasible h
             (inPlayCount ''red'' stones + (8 - fst (countThrown n h)))
             (inPlayCount ''yellow'' stones + (8 - snd (countThrown n h))) k then 0 else v) / Z))
           (distribution17_fromScore sc s skill)" by blast
  obtain v where v: "map_of (distribution17_fromScore sc s skill) k = Some v" "0 < v"
    using dist_lookup[OF assms(2)] by blast
  show ?thesis
    unfolding eq map_of_keyed_map using v Z by auto
qed

subsection \<open>The feasibility pass\<close>

lemma eval_buckets:
  "buckets17 (evaluatePosition17 n h stones skill) =
   applyConstraints (distribution17_fromScore
      (if h = ''red'' then scoreRedOf n h stones skill else - scoreRedOf n h stones skill)
      (15 - n) skill) stones h (15 - n) n"
  by (simp add: evaluatePosition17_def Let_def)

lemma bounds_red:
  "inPlayCount ''red'' stones + (8 - fst (countThrown n ''red'')) = feasibleBound ''red'' True stones n"
  "inPlayCount ''yellow'' stones + (8 - snd (countThrown n ''red'')) = feasibleBound ''yellow'' False stones n"
  by (simp_all add: countThrown_def feasibleBound_def thrownBy_def Let_def)

lemma bounds_yellow:
  "inPlayCount ''red'' stones + (8 - fst (countThrown n ''yellow'')) = feasibleBound ''red'' False stones n"
  "inPlayCount ''yellow'' stones + (8 - snd (countThrown n ''yellow'')) = feasibleBound ''yellow'' True stones n"
  by (simp_all add: countThrown_def feasibleBound_def thrownBy_def Let_def)

lemma infeasible_hammer:
  assumes "h = ''red'' \<or> h = ''yellow''" and "k \<in> {- 8..8}"
  shows "infeasible h
           (inPlayCount ''red'' stones + (8 - fst (countThrown n h)))
           (inPlayCount ''yellow'' stones + (8 - snd (countThrown n h))) k \<longleftrightarrow>
         (0 < k \<and> feasibleBound h True stones n < k) \<or>
         (k < 0 \<and> feasibleBound (otherTeam h) False stones n < - k)"
proof -
  from assms(2) have k: "- 8 \<le> k" "k \<le> 8" by simp_all
  from assms(1) show ?thesis
  proof
    assume h: "h = ''red''"
    show ?thesis unfolding h bounds_red infeasible_def otherTeam_def using k by auto
  next
    assume h: "h = ''yellow''"
    show ?thesis unfolding h bounds_yellow infeasible_def otherTeam_def using k by auto
  qed
qed

lemma dist_key_range:
  assumes "(k, v) \<in> set (distribution17_fromScore sc s skill)"
  shows "k \<in> {- 8..8}"
proof -
  from assms have "k \<in> set (map fst (distribution17_fromScore sc s skill))" by force
  then show ?thesis by (simp only: dist_keys set_upto)
qed

lemma constrained_hammer_form:
  assumes h: "h = ''red'' \<or> h = ''yellow''" and s: "s \<noteq> 0"
  shows "\<exists>Z > 0.
     sum_list (map (\<lambda>(k, v). if (0 < k \<and> feasibleBound h True stones n < k) \<or>
                                (k < 0 \<and> feasibleBound (otherTeam h) False stones n < - k)
                             then 0 else v) (distribution17_fromScore sc s skill)) = Z \<and>
     applyConstraints (distribution17_fromScore sc s skill) stones h s n =
       map (\<lambda>(k, v). (k, (if (0 < k \<and> feasibleBound h True stones n < k) \<or>
                              (k < 0 \<and> feasibleBound (otherTeam h) False stones n < - k)
                           then 0 else v) / Z)) (distribution17_fromScore sc s skill)"
proof -
  let ?d = "distribution17_fromScore sc s skill"
  let ?inf = "infeasible h (inPlayCount ''red'' stones + (8 - fst (countThrown n h)))
             (inPlayCount ''yellow'' stones + (8 - snd (countThrown n h)))"
  let ?bad = "\<lambda>k. (0 < k \<and> feasibleBound h True stones n < k) \<or>
                  (k < 0 \<and> feasibleBound (otherTeam h) False stones n < - k)"
  from constrained_form[OF s, of h stones n sc skill] obtain Z where
    Z: "0 < Z" "sum_list (map (\<lambda>(k, v). if ?inf k then 0 else v) ?d) = Z" and
    eq: "applyConstraints ?d stones h s n = map (\<lambda>(k, v). (k, (if ?inf k then 0 else v) / Z)) ?d"
    by blast
  have same: "?inf k = ?bad k" if "(k, v) \<in> set ?d" for k v
    by (rule infeasible_hammer[OF h dist_key_range[OF that]])
  have m1: "map (\<lambda>(k, v). if ?inf k then 0 else v) ?d = map (\<lambda>(k, v). if ?bad k then 0 else v) ?d"
    by (rule map_cong[OF refl]) (use same in auto)
  have m2: "map (\<lambda>(k, v). (k, (if ?inf k then 0 else v) / Z)) ?d =
            map (\<lambda>(k, v). (k, (if ?bad k then 0 else v) / Z)) ?d"
    by (rule map_cong[OF refl]) (use same in auto)
  from Z eq show ?thesis unfolding m1 m2 by blast
qed

text \<open>
  C6 (as amended). For a hammer team \<open>''red''\<close> or \<open>''yellow''\<close> and remaining shots
  \<open>s > 0\<close> (shot number below 15), in the buckets that \<open>evaluatePosition17\<close> returns:
  every bucket \<open>k > 0\<close> above the hammer team's stones in play plus its remaining throws
  is 0; every bucket \<open>-k\<close> with \<open>k\<close> above the other team's stones in play plus its
  remaining throws is 0; these are the only zero buckets (every other bucket of \<open>-8..8\<close>
  stays positive, so no further bound from the opposing team's capacity to block is
  applied); the buckets sum to 1; and each bucket that is not zeroed is its value in the
  softmax distribution \<open>d\<close> of the hammer team's score, divided by the total \<open>Z\<close> of the
  values of \<open>d\<close> that are not zeroed.
\<close>

theorem feasibility_pass:
  assumes "hammerTeam = ''red'' \<or> hammerTeam = ''yellow''" and "shotNumber < 15"
  shows "let b = buckets17 (evaluatePosition17 shotNumber hammerTeam stones skill);
             maxH = feasibleBound hammerTeam True stones shotNumber;
             maxN = feasibleBound (otherTeam hammerTeam) False stones shotNumber;
             d = distribution17_fromScore
                   (if hammerTeam = ''red'' then scoreRedOf shotNumber hammerTeam stones skill
                    else - scoreRedOf shotNumber hammerTeam stones skill) (15 - shotNumber) skill;
             kept = (\<lambda>(k, v). if (0 < k \<and> maxH < k) \<or> (k < 0 \<and> maxN < - k) then 0 else v);
             Z = sum_list (map kept d)
         in (\<forall>k \<in> {1..8}. (maxH < k \<longrightarrow> map_of b k = Some 0) \<and>
                          (maxN < k \<longrightarrow> map_of b (- k) = Some 0)) \<and>
            (\<forall>k \<in> {- 8..8}. \<exists>v. map_of b k = Some v \<and> 0 \<le> v \<and>
                 (v = 0 \<longleftrightarrow> (0 < k \<and> maxH < k) \<or> (k < 0 \<and> maxN < - k))) \<and>
            sum_list (map snd b) = 1 \<and>
            0 < Z \<and> b = map (\<lambda>(k, v). (k, kept (k, v) / Z)) d"
proof -
  let ?b = "buckets17 (evaluatePosition17 shotNumber hammerTeam stones skill)"
  let ?maxH = "feasibleBound hammerTeam True stones shotNumber"
  let ?maxN = "feasibleBound (otherTeam hammerTeam) False stones shotNumber"
  let ?d = "distribution17_fromScore
                   (if hammerTeam = ''red'' then scoreRedOf shotNumber hammerTeam stones skill
                    else - scoreRedOf shotNumber hammerTeam stones skill) (15 - shotNumber) skill"
  let ?kept = "\<lambda>(k, v). if (0 < k \<and> ?maxH < k) \<or> (k < 0 \<and> ?maxN < - k) then 0 else (v::real)"
  have s: "15 - shotNumber \<noteq> 0" using assms(2) by simp
  have look: "\<exists>v. map_of ?b k = Some v \<and> 0 \<le> v \<and>
                 (v = 0 \<longleftrightarrow> (0 < k \<and> ?maxH < k) \<or> (k < 0 \<and> ?maxN < - k))"
    if k: "k \<in> {- 8..8}" for k
    using constrained_lookup[OF s k, of _ skill stones hammerTeam shotNumber]
    unfolding eval_buckets infeasible_hammer[OF assms(1) k] by blast
  have pos: "map_of ?b k = Some 0" if "k \<in> {1..8}" "?maxH < k" for k
  proof -
    from that have "k \<in> {- 8..8}" by simp
    from look[OF this] that show ?thesis by auto
  qed
  have neg: "map_of ?b (- k) = Some 0" if "k \<in> {1..8}" "?maxN < k" for k
  proof -
    from that have "- k \<in> {- 8..8}" by simp
    from look[OF this] that show ?thesis by auto
  qed
  have sum: "sum_list (map snd ?b) = 1"
    unfolding eval_buckets by (rule constrained_sum[OF s])
  from constrained_hammer_form[OF assms(1) s, of stones shotNumber _ skill]
  have form: "0 < sum_list (map ?kept ?d) \<and>
              ?b = map (\<lambda>(k, v). (k, ?kept (k, v) / sum_list (map ?kept ?d))) ?d"
    unfolding eval_buckets by (auto simp: case_prod_beta)
  show ?thesis
    unfolding Let_def using look pos neg sum form by blast
qed

theorem feasibility_pass_witness:
  "map_of (buckets17 (evaluatePosition17 13 ''red'' [(''yellow'', 0, 0)] 50)) 2 = Some 0 \<and>
   map_of (buckets17 (evaluatePosition17 13 ''red'' [(''yellow'', 0, 0)] 50)) (- 3) = Some 0 \<and>
   sum_list (map snd (buckets17 (evaluatePosition17 13 ''red'' [(''yellow'', 0, 0)] 50))) = 1"
proof -
  let ?b = "buckets17 (evaluatePosition17 13 ''red'' [(''yellow'', 0, 0)] 50)"
  have h: "''red'' = ''red'' \<or> ''red'' = ''yellow''" and n: "(13::int) < 15" by simp_all
  have bH: "feasibleBound ''red'' True [(''yellow'', 0, 0)] 13 = 1"
    by (simp add: feasibleBound_def thrownBy_def inPlayCount_def)
  have bN: "feasibleBound (otherTeam ''red'') False [(''yellow'', 0, 0)] 13 = 2"
    by (simp add: feasibleBound_def thrownBy_def inPlayCount_def otherTeam_def isInPlay_def eval_consts)
  from feasibility_pass[OF h n, of "[(''yellow'', 0, 0)]" 50]
  have 1: "\<forall>k \<in> {1..8}. (1 < k \<longrightarrow> map_of ?b k = Some 0) \<and> (2 < k \<longrightarrow> map_of ?b (- k) = Some 0)"
    and 2: "sum_list (map snd ?b) = 1"
    unfolding Let_def bH bN by blast+
  from 1 have "(1 < (2::int) \<longrightarrow> map_of ?b 2 = Some 0) \<and> (2 < (2::int) \<longrightarrow> map_of ?b (- 2) = Some 0)"
    by (rule bspec) simp
  moreover from 1 have "(1 < (3::int) \<longrightarrow> map_of ?b 3 = Some 0) \<and> (2 < (3::int) \<longrightarrow> map_of ?b (- 3) = Some 0)"
    by (rule bspec) simp
  ultimately show ?thesis using 2 by simp
qed

text \<open>
  C6, counterexample to the claim as stated: with hammer team \<open>''A''\<close> (the tag the game
  controller passes), shot 13 and no stones, the hammer team has no stone in play and one
  throw left, yet bucket 2 is not 0: neither loop of \<open>applyConstraints\<close> fires for a
  hammer team other than \<open>''red''\<close> and \<open>''yellow''\<close>.
\<close>

theorem unrecognized_hammer_not_constrained:
  "feasibleBound ''A'' True [] 13 < 2 \<and>
   map_of (buckets17 (evaluatePosition17 13 ''A'' [] 50)) 2 \<noteq> Some 0"
proof -
  have s: "15 - (13::int) \<noteq> 0" and k: "(2::int) \<in> {- 8..8}" by simp_all
  have ni: "\<not> infeasible ''A'' mr my 2" for mr my by (simp add: infeasible_def)
  have "map_of (applyConstraints (distribution17_fromScore sc (15 - 13) 50) [] ''A'' (15 - 13) 13) 2 \<noteq> Some 0" for sc
  proof -
    from constrained_lookup[OF s k, of sc 50 "[]" "''A''" 13] obtain v where
      v: "map_of (applyConstraints (distribution17_fromScore sc (15 - 13) 50) [] ''A'' (15 - 13) 13) 2 = Some v"
      and z: "v = 0 \<longleftrightarrow> infeasible ''A''
          (inPlayCount ''red'' [] + (8 - fst (countThrown 13 ''A'')))
          (inPlayCount ''yellow'' [] + (8 - snd (countThrown 13 ''A''))) 2"
      by blast
    from z ni have "v \<noteq> 0" by blast
    with v show ?thesis by simp
  qed
  then have "map_of (buckets17 (evaluatePosition17 13 ''A'' [] 50)) 2 \<noteq> Some 0"
    unfolding eval_buckets by blast
  moreover have "feasibleBound ''A'' True [] 13 < 2"
    by (simp add: feasibleBound_def thrownBy_def inPlayCount_def)
  ultimately show ?thesis by simp
qed

subsection \<open>Terminal collapse\<close>

lemma houseRadii_sort: "houseRadii team stones = sort (houseDists team stones)"
proof -
  have "(\<lambda>(t, x, y). t = team \<and> isInPlay x y \<and> hypot2 x y \<le> R_HOUSE) =
        (\<lambda>st. fst st = team \<and> inHouse st)"
    by (auto simp: fun_eq_iff inHouse_def)
  moreover have "(\<lambda>(t, x, y). hypot2 x y) = distToButton"
    by (auto simp: fun_eq_iff distToButton_def)
  ultimately show ?thesis by (simp add: houseRadii_def houseDists_def)
qed

lemma sort_Nil_iff: "sort ds = [] \<longleftrightarrow> ds = []" for ds :: "real list"
  by (metis length_sort length_0_conv)

lemma sorted_first_least: "sorted xs \<Longrightarrow> xs \<noteq> [] \<Longrightarrow> y \<in> set xs \<Longrightarrow> xs ! 0 \<le> (y::real)"
  by (cases xs) auto

lemma below_first_iff:
  assumes "ds \<noteq> []"
  shows "(r < sort ds ! 0 - c) \<longleftrightarrow> (\<forall>r' \<in> set ds. r < r' - (c::real))"
proof
  assume a: "r < sort ds ! 0 - c"
  show "\<forall>r' \<in> set ds. r < r' - c"
  proof
    fix r' assume "r' \<in> set ds"
    then have "sort ds ! 0 \<le> r'"
      using sorted_first_least[of "sort ds" r'] assms by (simp add: sort_Nil_iff)
    with a show "r < r' - c" by simp
  qed
next
  assume a: "\<forall>r' \<in> set ds. r < r' - c"
  from assms have "sort ds \<noteq> []" by (metis length_sort length_0_conv)
  then have "sort ds ! 0 \<in> set (sort ds)" by (cases "sort ds") auto
  then have "sort ds ! 0 \<in> set ds" by simp
  with a show "r < sort ds ! 0 - c" by blast
qed

lemma raw_count:
  "length (filter (\<lambda>r. sort opp = [] \<or> r < sort opp ! 0 - 0.000000001) (sort own)) = nearerCount own opp"
proof (cases "opp = []")
  case True
  then show ?thesis by (simp add: nearerCount_def)
next
  case False
  then have ne: "sort opp \<noteq> []" by (metis length_sort length_0_conv)
  have "filter (\<lambda>r. sort opp = [] \<or> r < sort opp ! 0 - 0.000000001) (sort own) =
        sort (filter (\<lambda>r. \<forall>r' \<in> set opp. r < r' - 0.000000001) own)"
    using ne below_first_iff[OF False] by (simp add: filter_sort)
  then show ?thesis by (simp add: nearerCount_def)
qed

lemma first_nearer:
  "sort own \<noteq> [] \<and> (sort opp = [] \<or> sort own ! 0 < sort opp ! 0 - 0.000000001) \<longleftrightarrow> 0 < nearerCount own opp"
proof (cases "own = []")
  case True then show ?thesis by (simp add: nearerCount_def)
next
  case own: False
  then have ne: "sort own \<noteq> []" by (metis length_sort length_0_conv)
  then have hd_in: "sort own ! 0 \<in> set own"
    by (cases "sort own") (auto dest: arg_cong[where f = set])
  show ?thesis
  proof (cases "opp = []")
    case True
    with own show ?thesis by (simp add: nearerCount_def sort_Nil_iff)
  next
    case opp: False
    then have neo: "sort opp \<noteq> []" by (metis length_sort length_0_conv)
    have "0 < nearerCount own opp \<longleftrightarrow> (\<exists>r \<in> set own. \<forall>r' \<in> set opp. r < r' - 0.000000001)"
      by (auto simp: nearerCount_def filter_empty_conv)
    also have "\<dots> \<longleftrightarrow> (\<exists>r \<in> set own. r < sort opp ! 0 - 0.000000001)"
      using below_first_iff[OF opp] by simp
    also have "\<dots> \<longleftrightarrow> sort own ! 0 < sort opp ! 0 - 0.000000001"
    proof
      assume "\<exists>r \<in> set own. r < sort opp ! 0 - 0.000000001"
      then obtain r where r: "r \<in> set own" "r < sort opp ! 0 - 0.000000001" by blast
      have "sort own ! 0 \<le> r" using sorted_first_least[of "sort own" r] ne r by (simp add: sort_Nil_iff)
      with r show "sort own ! 0 < sort opp ! 0 - 0.000000001" by simp
    next
      assume "sort own ! 0 < sort opp ! 0 - 0.000000001"
      with hd_in show "\<exists>r \<in> set own. r < sort opp ! 0 - 0.000000001" by blast
    qed
    finally show ?thesis using ne neo by simp
  qed
qed

lemma terminalScore_tol: "terminalScore stones hammerTeam = terminalBucket_tol stones hammerTeam"
proof -
  let ?dr = "houseDists ''red'' stones" and ?dy = "houseDists ''yellow'' stones"
  let ?R = "sort ?dr \<noteq> [] \<and> (sort ?dy = [] \<or> sort ?dr ! 0 < sort ?dy ! 0 - 0.000000001)"
  let ?Y = "sort ?dy \<noteq> [] \<and> (sort ?dr = [] \<or> sort ?dy ! 0 < sort ?dr ! 0 - 0.000000001)"
  have R: "?R \<longleftrightarrow> 0 < nearerCount ?dr ?dy" by (rule first_nearer)
  have Y: "?Y \<longleftrightarrow> 0 < nearerCount ?dy ?dr" by (rule first_nearer)
  have ts: "terminalScore stones hammerTeam =
      (if sort ?dr \<noteq> [] \<or> sort ?dy \<noteq> [] then
         (if ?R then (if hammerTeam = ''red'' then int (nearerCount ?dr ?dy) else - int (nearerCount ?dr ?dy))
          else if ?Y then (if hammerTeam = ''yellow'' then int (nearerCount ?dy ?dr) else - int (nearerCount ?dy ?dr))
          else 0)
       else 0)"
    unfolding terminalScore_def houseRadii_sort Let_def raw_count ..
  show ?thesis
  proof (cases "sort ?dr \<noteq> [] \<or> sort ?dy \<noteq> []")
    case True
    then show ?thesis unfolding ts terminalBucket_tol_def Let_def R Y by simp
  next
    case False
    then have "\<not> ?R" "\<not> ?Y" by simp_all
    then have "nearerCount ?dr ?dy = 0" "nearerCount ?dy ?dr = 0" unfolding R Y by simp_all
    with False show ?thesis unfolding ts terminalBucket_tol_def Let_def by simp
  qed
qed

lemma shot15_buckets:
  "buckets17 (evaluatePosition17 15 hammerTeam stones skill) = collapseToTerminal stones hammerTeam"
  by (simp add: evaluatePosition17_def applyConstraints_def Let_def)

lemma zero_keys: "map fst (map (\<lambda>k. (k, 0::real)) ks) = ks"
  by (induction ks) auto

lemma zero_lookup: "map_of (map (\<lambda>k. (k, 0::real)) ks) j = (if j \<in> set ks then Some 0 else None)"
  by (induction ks) auto

lemma collapse_lookup:
  "map_of (collapseToTerminal stones h) j =
     (if j = terminalScore stones h then Some 1 else if j \<in> {- 8..8} then Some 0 else None)"
  unfolding collapseToTerminal_def update_conv' zero_lookup set_upto by simp

lemma collapse_distinct: "distinct (map fst (collapseToTerminal stones h))"
  unfolding collapseToTerminal_def
  by (rule distinct_update) (simp only: zero_keys distinct_upto)

lemma collapse_keys: "set (map fst (collapseToTerminal stones h)) = {- 8..8} \<union> {terminalScore stones h}"
  unfolding collapseToTerminal_def update_keys zero_keys by (auto simp only: set_upto set_append split: if_splits) auto

lemma zero_sum: "sum_list (map snd (map (\<lambda>k. (k, 0::real)) ks)) = 0"
  by (induction ks) auto

lemma collapse_sum_gen: "sum_list (map snd (AList.update k (1::real) (map (\<lambda>k. (k, 0)) ks))) = 1"
  using zero_sum by (induction ks) auto

lemma collapse_sum: "sum_list (map snd (collapseToTerminal stones h)) = 1"
  unfolding collapseToTerminal_def by (rule collapse_sum_gen)

lemma nearerCount_le: "nearerCount own opp \<le> length own"
  by (simp add: nearerCount_def)

lemma houseDists_le: "length (houseDists team stones) \<le> length (filter (\<lambda>(t, x, y). t = team) stones)"
proof -
  have "length (filter (\<lambda>st. fst st = team \<and> inHouse st) stones) \<le> length (filter (\<lambda>st. fst st = team) stones)"
    by (induction stones) auto
  moreover have "(\<lambda>st::stoneTuple. fst st = team) = (\<lambda>(t, x, y). t = team)" by (auto simp: fun_eq_iff)
  ultimately show ?thesis by (simp add: houseDists_def)
qed

lemma terminalBucket_range:
  assumes "length (filter (\<lambda>(t, x, y). t = ''red'') stones) \<le> 8"
      and "length (filter (\<lambda>(t, x, y). t = ''yellow'') stones) \<le> 8"
  shows "terminalBucket_tol stones h \<in> {- 8..8}"
proof -
  have "nearerCount (houseDists ''red'' stones) (houseDists ''yellow'' stones) \<le> 8"
    using nearerCount_le[of "houseDists ''red'' stones"] houseDists_le[of "''red''" stones] assms(1)
    by (meson le_trans)
  moreover have "nearerCount (houseDists ''yellow'' stones) (houseDists ''red'' stones) \<le> 8"
    using nearerCount_le[of "houseDists ''yellow'' stones"] houseDists_le[of "''yellow''" stones] assms(2)
    by (meson le_trans)
  ultimately show ?thesis by (simp add: terminalBucket_tol_def Let_def)
qed

lemma takeWhile_sorted_filter:
  assumes "sorted (map d xs)"
      and "\<forall>a \<in> set xs. \<forall>b \<in> set xs. Q a \<longrightarrow> \<not> Q b \<longrightarrow> d a \<noteq> (d b :: real)"
  shows "takeWhile Q xs = filter (\<lambda>s. Q s \<and> (\<forall>s' \<in> set xs. \<not> Q s' \<longrightarrow> d s < d s')) xs"
  using assms
proof (induction xs)
  case Nil
  show ?case by simp
next
  case (Cons x xs)
  from Cons.prems(1) have le: "\<forall>y \<in> set xs. d x \<le> d y" and srt: "sorted (map d xs)" by simp_all
  from Cons.prems(2) have ne: "\<forall>a \<in> set xs. \<forall>b \<in> set xs. Q a \<longrightarrow> \<not> Q b \<longrightarrow> d a \<noteq> d b" by simp
  note IH = Cons.IH[OF srt ne]
  show ?case
  proof (cases "Q x")
    case True
    have x: "\<forall>s' \<in> set (x # xs). \<not> Q s' \<longrightarrow> d x < d s'"
    proof (intro ballI impI)
      fix s' assume s': "s' \<in> set (x # xs)" "\<not> Q s'"
      with True have in_xs: "s' \<in> set xs" by auto
      with le have "d x \<le> d s'" by blast
      moreover from Cons.prems(2) True s' have "d x \<noteq> d s'" by auto
      ultimately show "d x < d s'" by simp
    qed
    have "filter (\<lambda>s. Q s \<and> (\<forall>s' \<in> set (x # xs). \<not> Q s' \<longrightarrow> d s < d s')) xs =
          filter (\<lambda>s. Q s \<and> (\<forall>s' \<in> set xs. \<not> Q s' \<longrightarrow> d s < d s')) xs"
      using True by (intro filter_cong) auto
    with True x IH show ?thesis by simp
  next
    case False
    have "\<not> (Q s \<and> (\<forall>s' \<in> set (x # xs). \<not> Q s' \<longrightarrow> d s < d s'))" if "s \<in> set (x # xs)" for s
    proof (cases "s = x")
      case True with False show ?thesis by simp
    next
      case ne: False
      with that have "s \<in> set xs" by simp
      with le have "d x \<le> d s" by blast
      with False show ?thesis by auto
    qed
    then have "filter (\<lambda>s. Q s \<and> (\<forall>s' \<in> set (x # xs). \<not> Q s' \<longrightarrow> d s < d s')) (x # xs) = []"
      unfolding filter_empty_conv by blast
    with False show ?thesis by simp
  qed
qed

lemma length_filter_sort_key: "length (filter P (sort_key f xs)) = length (filter P xs)"
  by (simp add: filter_sort)

lemma leading_run:
  assumes sep: "separated stones"
      and t: "t0 = ''red'' \<and> t1 = ''yellow'' \<or> t0 = ''yellow'' \<and> t1 = ''red''"
  shows "nearerCount (houseDists t0 stones) (houseDists t1 stones) =
         length (takeWhile (\<lambda>s. fst s = t0) (sort_key distToButton (filter inHouse stones)))"
proof -
  let ?hs = "filter inHouse stones"
  let ?ranked = "sort_key distToButton ?hs"
  let ?Q = "\<lambda>s::stoneTuple. fst s = t0"
  have tags: "\<And>s. s \<in> set ?hs \<Longrightarrow> (\<not> ?Q s) = (fst s = t1)"
    using sep t unfolding separated_def by auto
  have far: "\<And>a b. a \<in> set ?hs \<Longrightarrow> b \<in> set ?hs \<Longrightarrow> ?Q a \<Longrightarrow> \<not> ?Q b \<Longrightarrow>
      0.000000001 < \<bar>distToButton a - distToButton b\<bar>"
    using sep unfolding separated_def by auto
  have ne: "\<forall>a \<in> set ?ranked. \<forall>b \<in> set ?ranked. ?Q a \<longrightarrow> \<not> ?Q b \<longrightarrow> distToButton a \<noteq> distToButton b"
    using far by fastforce
  have "length (takeWhile ?Q ?ranked) =
        length (filter (\<lambda>s. ?Q s \<and> (\<forall>s' \<in> set ?ranked. \<not> ?Q s' \<longrightarrow> distToButton s < distToButton s')) ?ranked)"
    by (subst takeWhile_sorted_filter[where d = distToButton, OF _ ne]) simp_all
  also have "\<dots> = length (filter (\<lambda>s. ?Q s \<and> (\<forall>s' \<in> set ?hs. \<not> ?Q s' \<longrightarrow> distToButton s < distToButton s')) ?hs)"
    by (simp add: length_filter_sort_key)
  also have "filter (\<lambda>s. ?Q s \<and> (\<forall>s' \<in> set ?hs. \<not> ?Q s' \<longrightarrow> distToButton s < distToButton s')) ?hs =
      filter (\<lambda>s. ?Q s \<and> (\<forall>s' \<in> set ?hs. fst s' = t1 \<longrightarrow> distToButton s < distToButton s' - 0.000000001)) ?hs"
  proof (rule filter_cong[OF refl])
    fix s assume s: "s \<in> set ?hs"
    show "(?Q s \<and> (\<forall>s' \<in> set ?hs. \<not> ?Q s' \<longrightarrow> distToButton s < distToButton s')) =
          (?Q s \<and> (\<forall>s' \<in> set ?hs. fst s' = t1 \<longrightarrow> distToButton s < distToButton s' - 0.000000001))"
    proof (cases "?Q s")
      case False then show ?thesis by simp
    next
      case True
      have "(distToButton s < distToButton s') = (distToButton s < distToButton s' - 0.000000001)"
        if "s' \<in> set ?hs" "\<not> ?Q s'" for s'
        using far[OF s that(1) True that(2)] by auto
      with True tags show ?thesis by (metis (no_types, lifting))
    qed
  qed
  also have "length \<dots> = nearerCount (houseDists t0 stones) (houseDists t1 stones)"
  proof -
    have a: "houseDists t0 stones = map distToButton (filter ?Q ?hs)"
      by (simp add: houseDists_def conj_commute)
    have b: "set (houseDists t1 stones) = distToButton ` {s' \<in> set ?hs. fst s' = t1}"
      by (auto simp: houseDists_def)
    show ?thesis
      unfolding nearerCount_def a b filter_map length_map filter_filter comp_def
      by (rule arg_cong[where f = length], rule filter_cong[OF refl]) auto
  qed
  finally show ?thesis by simp
qed

lemma spec_agrees_when_separated:
  assumes sep: "separated stones"
      and cap: "length (filter (\<lambda>(t, x, y). t = ''red'') stones) \<le> 8"
               "length (filter (\<lambda>(t, x, y). t = ''yellow'') stones) \<le> 8"
  shows "terminalBucket_spec stones hammerTeam = terminalBucket_tol stones hammerTeam"
proof -
  let ?ranked = "sort_key distToButton (filter inHouse stones)"
  have nR: "nearerCount (houseDists ''red'' stones) (houseDists ''yellow'' stones) =
      length (takeWhile (\<lambda>s. fst s = ''red'') ?ranked)"
    by (rule leading_run[OF sep]) simp
  have nY: "nearerCount (houseDists ''yellow'' stones) (houseDists ''red'' stones) =
      length (takeWhile (\<lambda>s. fst s = ''yellow'') ?ranked)"
    by (rule leading_run[OF sep]) simp
  have capR: "nearerCount (houseDists ''red'' stones) (houseDists ''yellow'' stones) \<le> 8"
    using nearerCount_le[of "houseDists ''red'' stones"] houseDists_le[of "''red''" stones] cap(1)
    by (meson le_trans)
  have capY: "nearerCount (houseDists ''yellow'' stones) (houseDists ''red'' stones) \<le> 8"
    using nearerCount_le[of "houseDists ''yellow'' stones"] houseDists_le[of "''yellow''" stones] cap(2)
    by (meson le_trans)
  show ?thesis
  proof (cases ?ranked)
    case Nil
    then show ?thesis
      using nR nY by (simp add: terminalBucket_spec_def terminalBucket_tol_def)
  next
    case (Cons st rest)
    then have "st \<in> set ?ranked" by simp
    then have "st \<in> set stones" by simp
    with sep have tag: "fst st = ''red'' \<or> fst st = ''yellow''" unfolding separated_def by blast
    then show ?thesis
    proof
      assume r: "fst st = ''red''"
      with nR Cons have pos: "0 < nearerCount (houseDists ''red'' stones) (houseDists ''yellow'' stones)"
        by simp
      show ?thesis
        using pos capR nR r Cons
        by (simp add: terminalBucket_spec_def terminalBucket_tol_def Let_def)
    next
      assume y: "fst st = ''yellow''"
      with nR Cons have zero: "nearerCount (houseDists ''red'' stones) (houseDists ''yellow'' stones) = 0"
        by simp
      from y nY Cons have pos: "0 < nearerCount (houseDists ''yellow'' stones) (houseDists ''red'' stones)"
        by simp
      show ?thesis
        using pos zero capY nY y Cons
        by (simp add: terminalBucket_spec_def terminalBucket_tol_def Let_def)
    qed
  qed
qed

text \<open>
  C2 (as amended). At shot number 15 the returned distribution is degenerate: the keys
  are \<open>-8..8\<close> together with the terminal bucket, that bucket has probability 1 and every
  other bucket 0. The terminal bucket is \<open>terminalBucket_tol\<close>: the number of house stones
  of one team that are closer to the button than every house stone of the other team by
  more than \<open>1e-9\<close>, positive if that team is the hammer team and negative otherwise, and
  0 if neither team has such a stone. No cap is applied; with at most 8 stones per team
  the bucket lies in \<open>-8..8\<close>, and if moreover the stone list is separated the bucket is
  the terminal computation in the words of the specification.
\<close>

theorem terminal_collapse:
  "let b = buckets17 (evaluatePosition17 15 hammerTeam stones skill);
       k = terminalBucket_tol stones hammerTeam
   in distinct (map fst b) \<and> set (map fst b) = {- 8..8} \<union> {k} \<and>
      map_of b k = Some 1 \<and>
      (\<forall>j \<in> {- 8..8}. j \<noteq> k \<longrightarrow> map_of b j = Some 0) \<and>
      (length (filter (\<lambda>(t, x, y). t = ''red'') stones) \<le> 8 \<and>
       length (filter (\<lambda>(t, x, y). t = ''yellow'') stones) \<le> 8 \<longrightarrow>
         k \<in> {- 8..8} \<and> (separated stones \<longrightarrow> k = terminalBucket_spec stones hammerTeam))"
  unfolding Let_def shot15_buckets
  using terminalBucket_range[of stones hammerTeam] spec_agrees_when_separated[of stones hammerTeam]
  by (simp add: collapse_distinct collapse_keys collapse_lookup terminalScore_tol del: set_map)

lemma hd_house [simp]: "inHouse (t, x, 0) \<longleftrightarrow> \<bar>x\<bar> \<le> R_HOUSE"
  by (auto simp: inHouse_def isInPlay_def hypot2_x0 eval_consts)

lemma hd_house_y [simp]: "inHouse (t, 0, y) \<longleftrightarrow> \<bar>y\<bar> \<le> R_HOUSE"
  by (auto simp: inHouse_def isInPlay_def hypot2_0y eval_consts)

lemma dist_axis [simp]: "distToButton (t, x, 0) = \<bar>x\<bar>" "distToButton (t, 0, y) = \<bar>y\<bar>"
  by (simp_all add: distToButton_def hypot2_x0 hypot2_0y)

lemma tol_example:
  "terminalBucket_tol [(''red'', 1/10, 0), (''red'', 0, - 3/10), (''yellow'', 1/2, 0), (''red'', 1, 0)] ''yellow'' = - 2"
  by (simp add: terminalBucket_tol_def houseDists_def nearerCount_def R_HOUSE_def)

theorem terminal_collapse_witness:
  "map_of (buckets17 (evaluatePosition17 15 ''yellow''
      [(''red'', 1/10, 0), (''red'', 0, - 3/10), (''yellow'', 1/2, 0), (''red'', 1, 0)] 50)) (- 2) = Some 1 \<and>
   map_of (buckets17 (evaluatePosition17 15 ''yellow''
      [(''red'', 1/10, 0), (''red'', 0, - 3/10), (''yellow'', 1/2, 0), (''red'', 1, 0)] 50)) 3 = Some 0"
proof -
  let ?b = "buckets17 (evaluatePosition17 15 ''yellow''
      [(''red'', 1/10, 0), (''red'', 0, - 3/10), (''yellow'', 1/2, 0), (''red'', 1, 0)] 50)"
  from terminal_collapse [of "''yellow''"
      "[(''red'', 1/10, 0), (''red'', 0, - 3/10), (''yellow'', 1/2, 0), (''red'', 1, 0)]" 50]
  have 1: "map_of ?b (- 2) = Some 1" and 2: "\<forall>j \<in> {- 8..8}. j \<noteq> - 2 \<longrightarrow> map_of ?b j = Some 0"
    unfolding Let_def tol_example by blast+
  from 2 have "(3::int) \<noteq> - 2 \<longrightarrow> map_of ?b 3 = Some 0" by (rule bspec) simp
  with 1 show ?thesis by simp
qed

lemma near_tie_tol:
  "terminalBucket_tol [(''red'', 1/2, 0), (''yellow'', 1/2 + 1/2000000000, 0)] ''red'' = 0"
  by (simp add: terminalBucket_tol_def houseDists_def nearerCount_def R_HOUSE_def)

lemma near_tie_spec:
  "terminalBucket_spec [(''red'', 1/2, 0), (''yellow'', 1/2 + 1/2000000000, 0)] ''red'' = 1"
  by (simp add: terminalBucket_spec_def R_HOUSE_def)

text \<open>
  C2, counterexample to the claim as stated: a red stone at distance 0.5 and a yellow
  stone at distance 0.5000000005, red with the hammer, shot 15. In the words of the
  specification red owns the closest stone and scores 1; the source compares with a
  tolerance of \<open>1e-9\<close>, finds neither team closer and puts probability 1 on bucket 0.
\<close>

theorem near_tie_counterexample:
  "terminalBucket_spec [(''red'', 1/2, 0), (''yellow'', 1/2 + 1/2000000000, 0)] ''red'' = 1 \<and>
   map_of (buckets17 (evaluatePosition17 15 ''red''
      [(''red'', 1/2, 0), (''yellow'', 1/2 + 1/2000000000, 0)] 50)) 1 = Some 0 \<and>
   map_of (buckets17 (evaluatePosition17 15 ''red''
      [(''red'', 1/2, 0), (''yellow'', 1/2 + 1/2000000000, 0)] 50)) 0 = Some 1"
  unfolding near_tie_spec shot15_buckets collapse_lookup terminalScore_tol near_tie_tol by simp

lemma buckets_sum_any:
  "sum_list (map snd (buckets17 (evaluatePosition17 n h stones skill))) = 1"
proof (cases "n = 15")
  case True
  then show ?thesis by (simp add: shot15_buckets collapse_sum)
next
  case False
  then have "15 - n \<noteq> 0" by simp
  then show ?thesis unfolding eval_buckets by (rule constrained_sum)
qed

text \<open>
  C1. For a valid input (shot number in 0..15, hammer team \<open>''red''\<close> or \<open>''yellow''\<close>, at
  most 8 stones per team, skill in 10..90) the returned \<open>buckets17\<close> has exactly the keys
  \<open>-8..8\<close>, each once, and its probabilities sum to 1 within \<open>1e-9\<close> (in real arithmetic
  the sum is exactly 1).
\<close>

theorem buckets_sum_to_one:
  assumes "0 \<le> shotNumber" and "shotNumber \<le> 15"
      and "hammerTeam = ''red'' \<or> hammerTeam = ''yellow''"
      and "length (filter (\<lambda>(t, x, y). t = ''red'') stones) \<le> 8"
      and "length (filter (\<lambda>(t, x, y). t = ''yellow'') stones) \<le> 8"
      and "10 \<le> skill" and "skill \<le> 90"
  shows "let b = buckets17 (evaluatePosition17 shotNumber hammerTeam stones skill)
         in distinct (map fst b) \<and> set (map fst b) = {- 8..8} \<and>
            \<bar>sum_list (map snd b) - 1\<bar> \<le> 0.000000001"
proof -
  let ?b = "buckets17 (evaluatePosition17 shotNumber hammerTeam stones skill)"
  have keys: "distinct (map fst ?b) \<and> set (map fst ?b) = {- 8..8}"
  proof (cases "shotNumber = 15")
    case True
    have "terminalScore stones hammerTeam \<in> {- 8..8}"
      unfolding terminalScore_tol by (rule terminalBucket_range[OF assms(4,5)])
    then have "{- 8..8} \<union> {terminalScore stones hammerTeam} = {- 8..8}" by blast
    then show ?thesis
      unfolding True shot15_buckets using collapse_distinct collapse_keys by metis
  next
    case False
    then have "15 - shotNumber \<noteq> 0" by simp
    from constrained_keys[OF this] have "map fst ?b = [- 8..8]"
      unfolding eval_buckets .
    then show ?thesis by (simp only: distinct_upto set_upto)
  qed
  moreover have "\<bar>sum_list (map snd ?b) - 1\<bar> \<le> 0.000000001"
    by (simp add: buckets_sum_any)
  ultimately show ?thesis by (simp only: Let_def) 
qed

theorem buckets_sum_to_one_witness:
  "set (map fst (buckets17 (evaluatePosition17 4 ''red'' [(''red'', 0, 1), (''yellow'', 1, 0)] 50))) = {- 8..8} \<and>
   \<bar>sum_list (map snd (buckets17 (evaluatePosition17 4 ''red'' [(''red'', 0, 1), (''yellow'', 1, 0)] 50))) - 1\<bar>
     \<le> 0.000000001"
  using buckets_sum_to_one [of 4 "''red''" "[(''red'', 0, 1), (''yellow'', 1, 0)]" 50]
  by (simp add: Let_def)

subsection \<open>Two scenarios of the test suite\<close>

text \<open>
  The two final-stone scenarios of the repository's regression tests, replayed on the
  model: the blank end (all four stones outside the house: both advantages 0, bucket 0)
  and the deterministic score (three red stones inside every yellow one: bucket 3).
\<close>

lemma pairIndices_2: "pairIndices (Suc (Suc 0)) = [(0, Suc 0)]"
  by (simp add: pairIndices_def upt_rec)

lemma hypot2_gt: "0 \<le> c \<Longrightarrow> c\<^sup>2 < x\<^sup>2 + y\<^sup>2 \<Longrightarrow> c < hypot2 x y"
  unfolding hypot2_def by (rule real_less_rsqrt)

lemma hypot2_lt: "0 < c \<Longrightarrow> x\<^sup>2 + y\<^sup>2 < c\<^sup>2 \<Longrightarrow> hypot2 x y < c"
  unfolding hypot2_def by (rule real_less_lsqrt) simp_all

lemma outside_entry:
  assumes "R_HOUSE < hypot2 x y"
  shows "stoneEntry allPos teamPos (x, y) =
     \<lparr>ex = x, ey = y, er = hypot2 x y, eG = 0, eT = 1, ev = 0, epre = 0, eacc = 0\<rparr>"
  using assms by (simp add: stoneEntry_def radialValue_def Let_def)

lemma outside_pair:
  assumes "R_HOUSE < er a"
  shows "applyDoubleVulnerability [a, b] stones s skill = [a, b]"
  using assms by (simp add: applyDoubleVulnerability_def pairIndices_2 dblPair_def Let_def)

lemma blank_far:
  "R_HOUSE < hypot2 (5/2) (3/2)" "R_HOUSE < hypot2 (- (12/5)) (8/5)"
  "R_HOUSE < hypot2 (11/5) (- (19/10))" "R_HOUSE < hypot2 (- (23/10)) (- (9/5))"
  by (rule hypot2_gt; simp add: R_HOUSE_def power2_eq_square)+

lemma scenario_blank_end:
  "advantage_red (evaluatePosition17 15 ''yellow''
      [(''red'', 5/2, 3/2), (''yellow'', - 12/5, 8/5), (''red'', 11/5, - 19/10), (''yellow'', - 23/10, - 9/5)] 40) = 0 \<and>
   advantage_yellow (evaluatePosition17 15 ''yellow''
      [(''red'', 5/2, 3/2), (''yellow'', - 12/5, 8/5), (''red'', 11/5, - 19/10), (''yellow'', - 23/10, - 9/5)] 40) = 0 \<and>
   map_of (buckets17 (evaluatePosition17 15 ''yellow''
      [(''red'', 5/2, 3/2), (''yellow'', - 12/5, 8/5), (''red'', 11/5, - 19/10), (''yellow'', - 23/10, - 9/5)] 40)) 0 = Some 1"
proof -
  let ?st = "[(''red'', 5/2, 3/2), (''yellow'', - 12/5, 8/5), (''red'', 11/5, - 19/10), (''yellow'', - 23/10, - 9/5)]
      :: stoneTuple list"
  have red: "sum_list (map ev (applyDoubleVulnerability (computeTeamStoneValues ''red'' ?st) ?st 0 40)) = 0"
    by (simp add: computeTeamStoneValues_def outside_entry blank_far outside_pair)
  have yel: "sum_list (map ev (applyDoubleVulnerability (computeTeamStoneValues ''yellow'' ?st) ?st 0 40)) = 0"
    by (simp add: computeTeamStoneValues_def outside_entry blank_far outside_pair)
  have score: "scoreRedOf 15 ''yellow'' ?st 40 = 0"
    unfolding scoreRedOf_def Let_def using red yel
    by (simp add: congestionTerm_def baseHammer_def)
  have "\<not> hypot2 x y \<le> R_HOUSE" if "R_HOUSE < hypot2 x y" for x y using that by simp
  note out = this[OF blank_far(1)] this[OF blank_far(2)] this[OF blank_far(3)] this[OF blank_far(4)]
  have "terminalBucket_tol ?st ''yellow'' = 0"
    by (simp add: terminalBucket_tol_def houseDists_def inHouse_def out nearerCount_def)
  then have "map_of (buckets17 (evaluatePosition17 15 ''yellow'' ?st 40)) 0 = Some 1"
    by (simp add: shot15_buckets collapse_lookup terminalScore_tol)
  with score show ?thesis by (simp add: evaluatePosition17_def Let_def)
qed

lemma final_red:
  "hypot2 (1/20) (1/10) < 6/10" "hypot2 (- (1/5)) (3/10) < 6/10" "hypot2 (3/10) (- (2/5)) < 6/10"
  by (rule hypot2_lt; simp add: power2_eq_square)+

lemma final_yellow_lo:
  "9/10 < hypot2 (9/10) (1/5)" "9/10 < hypot2 (- 1) (- (1/10))" "9/10 < hypot2 (6/5) (- (3/5))"
  "9/10 < hypot2 (- (1/2)) (3/2)"
  by (rule hypot2_gt; simp add: power2_eq_square)+

lemma final_yellow_hi:
  "hypot2 (9/10) (1/5) < 18/10" "hypot2 (- 1) (- (1/10)) < 18/10" "hypot2 (6/5) (- (3/5)) < 18/10"
  "hypot2 (- (1/2)) (3/2) < 18/10"
  by (rule hypot2_lt; simp add: power2_eq_square)+

lemma scenario_final_stone:
  "map_of (buckets17 (evaluatePosition17 15 ''red''
      [(''red'', 0.05, 0.1), (''red'', - 0.2, 0.3), (''red'', 0.3, - 0.4), (''yellow'', 0.9, 0.2),
       (''yellow'', - 1.0, - 0.1), (''yellow'', 1.2, - 0.6), (''yellow'', - 0.5, 1.5)] 50)) 3 = Some 1"
proof -
  have "terminalBucket_tol
      [(''red'', 0.05, 0.1), (''red'', - 0.2, 0.3), (''red'', 0.3, - 0.4), (''yellow'', 0.9, 0.2),
       (''yellow'', - 1.0, - 0.1), (''yellow'', 1.2, - 0.6), (''yellow'', - 0.5, 1.5)] ''red'' = 3"
    using final_red final_yellow_lo final_yellow_hi
    by (simp add: terminalBucket_tol_def houseDists_def inHouse_def isInPlay_def nearerCount_def
        distToButton_def eval_consts)
  then show ?thesis
    by (simp only: shot15_buckets collapse_lookup terminalScore_tol) simp
qed

section \<open>Properties of the rounding\<close>

lemma fl_zero: "fl 0 = 0"
  by (simp add: fl_def)

lemma roundEven_int: "roundEven (real_of_int m) = m"
  by (simp add: roundEven_def)

lemma roundEven_lower: "y - 1/2 \<le> real_of_int (roundEven y)"
  unfolding roundEven_def Let_def by (auto simp: not_less) linarith+

lemma roundEven_nonpos: "y \<le> 0 \<Longrightarrow> roundEven y \<le> 0"
proof -
  assume y: "y \<le> 0"
  then have f: "\<lfloor>y\<rfloor> \<le> 0" by (simp add: floor_le_iff)
  show ?thesis
  proof (cases "\<lfloor>y\<rfloor> = 0")
    case True
    then have "0 \<le> y" by (metis of_int_0 of_int_floor_le)
    with y have "y = 0" by simp
    then show ?thesis by (simp add: roundEven_def)
  next
    case False
    with f have "\<lfloor>y\<rfloor> + 1 \<le> 0" by linarith
    with f show ?thesis unfolding roundEven_def Let_def by auto
  qed
qed

lemma binade_eq:
  assumes "2 powi e \<le> \<bar>x\<bar>" and "\<bar>x\<bar> < 2 powi (e + 1)" and "- 1022 \<le> e"
  shows "binade x = e"
proof -
  have "(0::real) < 2 powi e" by simp
  with assms(1) have pos: "0 < \<bar>x\<bar>" by linarith
  have one2: "1 < (2::real)" by simp
  have p1: "(2::real) powr real_of_int e = 2 powi e" by (rule powr_real_of_int') simp_all
  have p2: "(2::real) powr real_of_int (e + 1) = 2 powi (e + 1)" by (rule powr_real_of_int') simp_all
  have "\<lfloor>log 2 \<bar>x\<bar>\<rfloor> = e"
    using assms(1,2) unfolding floor_log_eq_powr_iff[OF pos one2] p1 p2 by simp
  with assms(3) show ?thesis by (simp add: binade_def)
qed

lemma fl_in_binade:
  assumes "2 powi e \<le> \<bar>x\<bar>" and "\<bar>x\<bar> < 2 powi (e + 1)" and "- 1022 \<le> e"
  shows "fl x = 2 powi (e - 52) * real_of_int (roundEven (x / 2 powi (e - 52)))"
proof -
  have "(0::real) < 2 powi e" by simp
  with assms(1) have "0 < \<bar>x\<bar>" by linarith
  then have "x \<noteq> 0" by simp
  then show ?thesis by (simp add: fl_def binade_eq[OF assms])
qed

lemma fl_exact:
  assumes "2 powi e \<le> \<bar>x\<bar>" and "\<bar>x\<bar> < 2 powi (e + 1)" and "- 1022 \<le> e"
      and "x = real_of_int m * 2 powi (e - 52)"
  shows "fl x = x"
proof -
  have "x / 2 powi (e - 52) = real_of_int m" using assms(4) by simp
  then show ?thesis unfolding fl_in_binade[OF assms(1-3)] using assms(4) by (simp add: roundEven_int)
qed

lemma pow2_floor_log: "0 < x \<Longrightarrow> 2 powi \<lfloor>log 2 x\<rfloor> \<le> x"
proof -
  assume pos: "0 < x"
  have p: "(2::real) powr real_of_int \<lfloor>log 2 x\<rfloor> = 2 powi \<lfloor>log 2 x\<rfloor>"
    by (rule powr_real_of_int') simp_all
  have "(2::real) powr real_of_int \<lfloor>log 2 x\<rfloor> \<le> 2 powr log 2 x"
    by (simp add: powr_le_cancel_iff)
  with pos show ?thesis unfolding p by simp
qed

lemma minNormal_pos: "0 < minNormal" by (simp add: minNormal_def)
lemma unitRoundoff_bounds: "0 < unitRoundoff" "unitRoundoff < 1"
  by (simp_all add: unitRoundoff_def)

lemma fl_lower:
  assumes "minNormal \<le> x"
  shows "x * (1 - unitRoundoff) \<le> fl x"
proof -
  have pos: "0 < x" using assms minNormal_pos by linarith
  have p: "(2::real) powr real_of_int (- 1022) = minNormal"
    unfolding minNormal_def by (rule powr_real_of_int') simp_all
  have "(2::real) powr real_of_int (- 1022) \<le> x" unfolding p by (rule assms)
  then have "real_of_int (- 1022) \<le> log 2 x" using pos by (subst le_log_iff) simp_all
  then have e: "- 1022 \<le> \<lfloor>log 2 x\<rfloor>" by (simp only: le_floor_iff)
  define e where "e = \<lfloor>log 2 x\<rfloor>"
  have b: "binade x = e" using e pos by (simp add: binade_def e_def)
  have le: "2 powi e \<le> x" unfolding e_def by (rule pow2_floor_log[OF pos])
  define q :: real where "q = 2 powi (e - 52)"
  have q: "0 < q" by (simp add: q_def)
  have "(2::real) powi (e - 52) = 2 powi e * 2 powi (- 53) * 2"
    by (simp add: power_int_diff power_int_minus field_simps)
  then have half: "q / 2 = 2 powi e * unitRoundoff"
    by (simp add: q_def unitRoundoff_def)
  have "fl x = q * real_of_int (roundEven (x / q))" using pos by (simp add: fl_def b q_def)
  moreover have "q * (x / q - 1/2) \<le> q * real_of_int (roundEven (x / q))"
    using q roundEven_lower[of "x / q"] by (simp only: mult_le_cancel_left_pos)
  moreover have "q * (x / q - 1/2) = x - q / 2" using q by (simp add: field_simps)
  moreover have "q / 2 \<le> x * unitRoundoff"
    unfolding half using le unitRoundoff_bounds(1) by (simp add: mult_right_mono)
  ultimately show ?thesis by (simp add: algebra_simps)
qed

lemma fl_nonpos: "x \<le> 0 \<Longrightarrow> fl x \<le> 0"
proof -
  assume x: "x \<le> 0"
  have q: "0 < (2::real) powi (binade x - 52)" by simp
  from x q have "x / 2 powi (binade x - 52) \<le> 0" by (simp add: divide_nonpos_pos)
  then have "roundEven (x / 2 powi (binade x - 52)) \<le> 0" by (rule roundEven_nonpos)
  then have "real_of_int (roundEven (x / 2 powi (binade x - 52))) \<le> 0" by simp
  with q show ?thesis by (simp add: fl_def mult_nonneg_nonpos)
qed

lemma fl_one: "fl 1 = 1"
  by (rule fl_exact[where e = 0 and m = "2 ^ 52"]) simp_all

lemma fl_two: "fl 2 = 2"
  by (rule fl_exact[where e = 1 and m = "2 ^ 52"]) simp_all

lemma fl_four: "fl 4 = 4"
  by (rule fl_exact[where e = 2 and m = "2 ^ 52"]) simp_all

text \<open>
  The natural numbers up to \<open>2 ^ 53\<close> are doubles. The sum \<open>2 ^ 53 + 1\<close> is not: it lies
  half-way between the doubles \<open>2 ^ 53\<close> and \<open>2 ^ 53 + 2\<close> and is rounded to the first,
  whose significand is even.
\<close>

lemma fl_nat:
  assumes "n \<le> 2 ^ 53"
  shows "fl (real n) = real n"
proof (cases "n = 0 \<or> n = 2 ^ 53")
  case True
  then show ?thesis
  proof
    assume "n = 0"
    then show ?thesis by (simp add: fl_zero)
  next
    assume n: "n = 2 ^ 53"
    have "fl (2 ^ 53) = 2 ^ 53"
      by (rule fl_exact[where e = 53 and m = "2 ^ 52"]) simp_all
    with n show ?thesis by simp
  qed
next
  case False
  with assms have pos: "0 < real n" and lt: "real n < 2 ^ 53"
    by (simp_all add: of_nat_less_numeral_power_cancel_iff[symmetric] del: of_nat_less_numeral_power_cancel_iff)
  define e where "e = \<lfloor>log 2 (real n)\<rfloor>"
  have lo: "2 powi e \<le> real n" unfolding e_def by (rule pow2_floor_log[OF pos])
  have "1 \<le> real n" using False by (cases n) simp_all
  then have "0 \<le> log 2 (real n)" by simp
  then have e0: "0 \<le> e" by (simp add: e_def)
  have "log 2 (real n) < real_of_int (e + 1)" unfolding e_def by linarith
  then have "real n < 2 powr real_of_int (e + 1)" using pos by (simp add: log_less_iff)
  moreover have "(2::real) powr real_of_int (e + 1) = 2 powi (e + 1)"
    by (rule powr_real_of_int') simp_all
  ultimately have hi: "real n < 2 powi (e + 1)" by simp
  have e52: "e \<le> 52"
  proof (rule ccontr)
    assume "\<not> e \<le> 52"
    then have "53 \<le> e" by simp
    then have "(2::real) powi 53 \<le> 2 powi e" by (intro power_int_increasing) simp_all
    with lo lt show False by simp
  qed
  define m where "m = int n * 2 ^ nat (52 - e)"
  have "(2::real) ^ nat (52 - e) = 2 powi (52 - e)"
    using e52 by (simp add: power_int_def)
  then have "real_of_int m * 2 powi (e - 52) = real n * (2 powi (52 - e) * 2 powi (e - 52))"
    by (simp add: m_def)
  also have "(2::real) powi (52 - e) * 2 powi (e - 52) = 1"
    by (simp add: power_int_add[symmetric])
  finally have m: "real n = real_of_int m * 2 powi (e - 52)" by simp
  from e0 have e': "- 1022 \<le> e" by simp
  from lo hi pos have "2 powi e \<le> \<bar>real n\<bar>" "\<bar>real n\<bar> < 2 powi (e + 1)" by simp_all
  then show ?thesis using e' m by (rule fl_exact)
qed

lemma fl_absorbed: "fl (2 ^ 53 + 1) = 2 ^ 53"
  by (subst fl_in_binade[where e = 53]) (simp_all add: roundEven_def Let_def)

lemma absorbed_step:
  assumes "n \<le> 2 ^ 53"
  shows "\<exists>n'. fl (real n + 1) = real n' \<and> n' \<le> 2 ^ 53"
proof (cases "n = 2 ^ 53")
  case True
  then have "fl (real n + 1) = real ((2::nat) ^ 53)" using fl_absorbed by simp
  then show ?thesis by blast
next
  case False
  with assms have "Suc n \<le> 2 ^ 53" by simp
  then have "fl (real (Suc n)) = real (Suc n)" by (rule fl_nat)
  then have "fl (real n + 1) = real (Suc n)" by (simp add: add.commute)
  with \<open>Suc n \<le> 2 ^ 53\<close> show ?thesis by blast
qed

section \<open>Properties of the simulation\<close>

subsection \<open>The collision resolver\<close>

lemma distance_sq: "sqrt (dx * dx + dy * dy) = sqrt (dx\<^sup>2 + dy\<^sup>2)" for dx dy :: real
  by (simp add: power2_eq_square)


lemma resolve_separating:
  assumes "\<not> stone_nan s1" and "\<not> stone_nan s2"
      and "centerDistance s1 s2 \<noteq> 0" and "0 < normalVelocity s1 s2"
  shows "resolveCollision s1 s2 ps = (s1, s2)"
proof -
  let ?dx = "stone_x s2 - stone_x s1" and ?dy = "stone_y s2 - stone_y s1"
  let ?d = "sqrt (?dx * ?dx + ?dy * ?dy)"
  have d: "?d = centerDistance s1 s2" by (simp add: centerDistance_def power2_eq_square)
  have "(stone_vx s2 - stone_vx s1) * (?dx / centerDistance s1 s2) +
        (stone_vy s2 - stone_vy s1) * (?dy / centerDistance s1 s2)
        = normalVelocity s1 s2"
    unfolding normalVelocity_def by (simp add: add_divide_distrib)
  with assms show ?thesis
    unfolding resolveCollision_def Let_def d by simp
qed

lemma resolve_closing:
  assumes "\<not> stone_nan s1" and "\<not> stone_nan s2"
      and "centerDistance s1 s2 \<noteq> 0" and "\<not> 0 < normalVelocity s1 s2"
  shows "resolveCollision s1 s2 ps =
     (let d = centerDistance s1 s2;
          nx = (stone_x s2 - stone_x s1) / d;
          ny = (stone_y s2 - stone_y s1) / d;
          j = - (1 + p_restitution ps) * normalVelocity s1 s2 / 2;
          vx1 = stone_vx s1 - j * nx; vy1 = stone_vy s1 - j * ny;
          vx2 = stone_vx s2 + j * nx; vy2 = stone_vy s2 + j * ny
      in (s1\<lparr>stone_vx := vx1, stone_vy := vy1,
              stone_w := stone_w s1 + 0.5 * (nx * vy1 - ny * vx1),
              stone_x := stone_x s1 - (2 * p_R ps - d) * nx / 2,
              stone_y := stone_y s1 - (2 * p_R ps - d) * ny / 2\<rparr>,
          s2\<lparr>stone_vx := vx2, stone_vy := vy2,
              stone_w := stone_w s2 + 0.5 * (nx * vy2 - ny * vx2),
              stone_x := stone_x s2 + (2 * p_R ps - d) * nx / 2,
              stone_y := stone_y s2 + (2 * p_R ps - d) * ny / 2\<rparr>))"
proof -
  let ?dx = "stone_x s2 - stone_x s1" and ?dy = "stone_y s2 - stone_y s1"
  let ?d = "sqrt (?dx * ?dx + ?dy * ?dy)"
  have d: "?d = centerDistance s1 s2" by (simp add: centerDistance_def power2_eq_square)
  have nv: "(stone_vx s2 - stone_vx s1) * (?dx / centerDistance s1 s2) +
            (stone_vy s2 - stone_vy s1) * (?dy / centerDistance s1 s2) = normalVelocity s1 s2"
    unfolding normalVelocity_def by (simp add: add_divide_distrib)
  show ?thesis
    unfolding resolveCollision_def d Let_def nv using assms by simp
qed

lemma resolve_keeps_numbers:
  assumes "\<not> stone_nan s1" and "\<not> stone_nan s2" and "centerDistance s1 s2 \<noteq> 0"
  shows "\<not> stone_nan (fst (resolveCollision s1 s2 ps)) \<and> \<not> stone_nan (snd (resolveCollision s1 s2 ps))"
proof (cases "0 < normalVelocity s1 s2")
  case True
  from resolve_separating[OF assms True] assms(1,2) show ?thesis by simp
next
  case False
  from assms(1,2) show ?thesis
    unfolding resolve_closing[OF assms False] Let_def by simp
qed

lemma separated_distance:
  assumes n1: "\<not> stone_nan s1" and n2: "\<not> stone_nan s2"
      and d: "0 < centerDistance s1 s2" and R: "0 < p_R ps"
      and n: "\<not> 0 < normalVelocity s1 s2"
  shows "centerDistance (fst (resolveCollision s1 s2 ps)) (snd (resolveCollision s1 s2 ps)) = 2 * p_R ps"
proof -
  let ?dx = "stone_x s2 - stone_x s1" and ?dy = "stone_y s2 - stone_y s1"
  let ?d = "centerDistance s1 s2"
  let ?k = "2 * p_R ps / ?d"
  have k: "0 < ?k" using d R by simp
  from d have nz: "?d \<noteq> 0" by simp
  have dd: "?d = sqrt (?dx\<^sup>2 + ?dy\<^sup>2)" by (simp add: centerDistance_def)
  let ?r = "resolveCollision s1 s2 ps"
  have x: "stone_x (snd ?r) - stone_x (fst ?r) = ?k * ?dx"
    unfolding resolve_closing[OF n1 n2 nz n] Let_def using d by (simp add: field_simps)
  have y: "stone_y (snd ?r) - stone_y (fst ?r) = ?k * ?dy"
    unfolding resolve_closing[OF n1 n2 nz n] Let_def using d by (simp add: field_simps)
  have 1: "centerDistance (fst ?r) (snd ?r) = sqrt ((?k * ?dx)\<^sup>2 + (?k * ?dy)\<^sup>2)"
    unfolding centerDistance_def[of "fst ?r" "snd ?r"] x y ..
  have 2: "(?k * ?dx)\<^sup>2 + (?k * ?dy)\<^sup>2 = ?k\<^sup>2 * (?dx\<^sup>2 + ?dy\<^sup>2)"
    by (simp only: power_mult_distrib distrib_left)
  have 3: "sqrt (?k\<^sup>2 * (?dx\<^sup>2 + ?dy\<^sup>2)) = sqrt (?k\<^sup>2) * sqrt (?dx\<^sup>2 + ?dy\<^sup>2)"
    by (rule real_sqrt_mult)
  have 4: "sqrt (?k\<^sup>2) = ?k"
    using k by (simp only: real_sqrt_abs abs_of_pos)
  have 5: "?k * ?d = 2 * p_R ps" using d by simp
  show ?thesis
    unfolding 1 2 3 4 dd[symmetric] by (rule 5)
qed


lemma collidePair_hit:
  assumes "stone_inPlay (ss ! i)" and "stone_inPlay (ss ! j)"
      and "\<not> stone_nan (ss ! i)" and "\<not> stone_nan (ss ! j)"
      and "centerDistance (ss ! i) (ss ! j) < 2 * p_R ps"
  shows "collidePair ps (i, j) ss = ss[i := fst (resolveCollision (ss ! i) (ss ! j) ps),
                                       j := snd (resolveCollision (ss ! i) (ss ! j) ps)]"
  using assms
  by (simp add: collidePair_def Let_def centerDistance_def power2_eq_square case_prod_beta)

lemma collidePair_miss:
  assumes "\<not> stone_inPlay (ss ! i) \<or> \<not> stone_inPlay (ss ! j) \<or> stone_nan (ss ! i) \<or>
           stone_nan (ss ! j) \<or> \<not> centerDistance (ss ! i) (ss ! j) < 2 * p_R ps"
  shows "collidePair ps (i, j) ss = ss"
  using assms
  by (auto simp add: collidePair_def Let_def centerDistance_def power2_eq_square case_prod_beta)

lemma detect_pair:
  "detectCollisions [s1, s2] ps =
     (if stone_inPlay s1 \<and> stone_inPlay s2 \<and> \<not> stone_nan s1 \<and> \<not> stone_nan s2 \<and>
         centerDistance s1 s2 < 2 * p_R ps
      then [fst (resolveCollision s1 s2 ps), snd (resolveCollision s1 s2 ps)] else [s1, s2])"
proof -
  have "detectCollisions [s1, s2] ps = collidePair ps (0, Suc 0) [s1, s2]"
    by (simp add: detectCollisions_def pairIndices_2)
  then show ?thesis
    using collidePair_hit[of "[s1, s2]" 0 "Suc 0" ps] collidePair_miss[of "[s1, s2]" 0 "Suc 0" ps]
    by auto
qed

text \<open>
  C4 (as amended). Take any parameter set, any list of stones and any pair \<open>i < j\<close> of it
  whose two stones are in play, are not NaN, and have distinct centres closer than \<open>2R\<close>
  when the collision pass reaches the pair. The pass then replaces the two stones by the
  result of \<open>resolveCollision\<close> and touches no other stone. If the relative velocity along
  the line of centres is not positive, the centre distance of the two stones right after
  this call is exactly \<open>2R\<close>. If it is positive (the stones are separating), the call
  returns both stones as they were and the list is unchanged: no impulse is applied, and
  the positions are not separated either.
\<close>

theorem collision_resolution:
  assumes "i < j" and "j < length ss"
      and "stone_inPlay (ss ! i)" and "stone_inPlay (ss ! j)"
      and "\<not> stone_nan (ss ! i)" and "\<not> stone_nan (ss ! j)"
      and "0 < centerDistance (ss ! i) (ss ! j)"
      and "centerDistance (ss ! i) (ss ! j) < 2 * p_R ps"
  shows "collidePair ps (i, j) ss =
           ss[i := fst (resolveCollision (ss ! i) (ss ! j) ps),
              j := snd (resolveCollision (ss ! i) (ss ! j) ps)] \<and>
         (\<not> 0 < normalVelocity (ss ! i) (ss ! j) \<longrightarrow>
            centerDistance (collidePair ps (i, j) ss ! i) (collidePair ps (i, j) ss ! j) = 2 * p_R ps) \<and>
         (0 < normalVelocity (ss ! i) (ss ! j) \<longrightarrow>
            resolveCollision (ss ! i) (ss ! j) ps = (ss ! i, ss ! j) \<and>
            collidePair ps (i, j) ss = ss)"
proof -
  let ?r = "resolveCollision (ss ! i) (ss ! j) ps"
  from assms(7,8) have R: "0 < p_R ps" by simp
  from assms(7) have nz: "centerDistance (ss ! i) (ss ! j) \<noteq> 0" by simp
  have hit: "collidePair ps (i, j) ss = ss[i := fst ?r, j := snd ?r]"
    by (rule collidePair_hit[OF assms(3-6,8)])
  from assms(1,2) have at_i: "ss[i := fst ?r, j := snd ?r] ! i = fst ?r"
    and at_j: "ss[i := fst ?r, j := snd ?r] ! j = snd ?r" by simp_all
  have closing: "centerDistance (collidePair ps (i, j) ss ! i) (collidePair ps (i, j) ss ! j) = 2 * p_R ps"
    if "\<not> 0 < normalVelocity (ss ! i) (ss ! j)"
    unfolding hit at_i at_j by (rule separated_distance[OF assms(5,6,7) R that])
  have sep: "?r = (ss ! i, ss ! j) \<and> collidePair ps (i, j) ss = ss"
    if "0 < normalVelocity (ss ! i) (ss ! j)"
  proof -
    have r: "?r = (ss ! i, ss ! j)" by (rule resolve_separating[OF assms(5,6) nz that])
    then show ?thesis unfolding hit by simp
  qed
  from hit closing sep show ?thesis by blast
qed

lemma dist_axis_stones: "centerDistance (stoneAt i x vx w) (stoneAt i' x' vx' w') = \<bar>x' - x\<bar>"
  by (simp add: centerDistance_def stoneAt_def)

lemma nv_axis_stones:
  "normalVelocity (stoneAt i x vx w) (stoneAt i' x' vx' w') = (vx' - vx) * (x' - x) / \<bar>x' - x\<bar>"
  by (simp add: normalVelocity_def centerDistance_def stoneAt_def)

lemma stoneAt_flags [simp]: "stone_inPlay (stoneAt i x vx w)" "\<not> stone_nan (stoneAt i x vx w)"
  by (simp_all add: stoneAt_def)

theorem collision_resolution_witness:
  "centerDistance (collidePair (frictionless 1) (0, 1) [stoneAt 1 1 1 0, stoneAt 2 (11/10) 0 0] ! 0)
                  (collidePair (frictionless 1) (0, 1) [stoneAt 1 1 1 0, stoneAt 2 (11/10) 0 0] ! 1)
     = 2 * p_R (frictionless 1) \<and>
   collidePair (frictionless 1) (0, 1) [stoneAt 1 1 0 0, stoneAt 2 (11/10) 1 0]
     = [stoneAt 1 1 0 0, stoneAt 2 (11/10) 1 0]"
proof -
  let ?a = "[stoneAt 1 1 1 0, stoneAt 2 (11/10) 0 0]"
  let ?b = "[stoneAt 1 1 0 0, stoneAt 2 (11/10) 1 0]"
  have a: "(0::nat) < 1" "1 < length ?a" "stone_inPlay (?a ! 0)" "stone_inPlay (?a ! 1)"
      "\<not> stone_nan (?a ! 0)" "\<not> stone_nan (?a ! 1)"
      "0 < centerDistance (?a ! 0) (?a ! 1)"
      "centerDistance (?a ! 0) (?a ! 1) < 2 * p_R (frictionless 1)"
    and c: "\<not> 0 < normalVelocity (?a ! 0) (?a ! 1)"
    by (simp_all add: dist_axis_stones nv_axis_stones frictionless_def)
  have b: "(0::nat) < 1" "1 < length ?b" "stone_inPlay (?b ! 0)" "stone_inPlay (?b ! 1)"
      "\<not> stone_nan (?b ! 0)" "\<not> stone_nan (?b ! 1)"
      "0 < centerDistance (?b ! 0) (?b ! 1)"
      "centerDistance (?b ! 0) (?b ! 1) < 2 * p_R (frictionless 1)"
    and c': "0 < normalVelocity (?b ! 0) (?b ! 1)"
    by (simp_all add: dist_axis_stones nv_axis_stones frictionless_def)
  from collision_resolution[OF a] c collision_resolution[OF b] c'
  show ?thesis by blast
qed

text \<open>
  C4, counterexample to the claim as stated: two stones 0.1 apart with \<open>R = 0.145\<close>, the
  second moving away from the first. The pair overlaps when the collision pass runs, the
  pass leaves both stones untouched, and their distance stays 0.1, more than 0.1 below
  \<open>2R = 0.29\<close>.
\<close>

theorem separating_overlap_counterexample:
  "centerDistance (stoneAt 1 1 0 0) (stoneAt 2 (11/10) 1 0) < 2 * p_R (frictionless 1) \<and>
   detectCollisions [stoneAt 1 1 0 0, stoneAt 2 (11/10) 1 0] (frictionless 1)
     = [stoneAt 1 1 0 0, stoneAt 2 (11/10) 1 0] \<and>
   centerDistance (stoneAt 1 1 0 0) (stoneAt 2 (11/10) 1 0) < 2 * p_R (frictionless 1) - 1/10"
proof -
  have nz: "centerDistance (stoneAt 1 1 0 0) (stoneAt 2 (11/10) 1 0) \<noteq> 0"
    and c: "0 < normalVelocity (stoneAt 1 1 0 0) (stoneAt 2 (11/10) 1 0)"
    by (simp_all add: dist_axis_stones nv_axis_stones)
  have "resolveCollision (stoneAt 1 1 0 0) (stoneAt 2 (11/10) 1 0) (frictionless 1)
        = (stoneAt 1 1 0 0, stoneAt 2 (11/10) 1 0)"
    by (rule resolve_separating[OF _ _ nz c]) simp_all
  then show ?thesis
    by (simp add: detect_pair dist_axis_stones frictionless_def)
qed

text \<open>
  The distance \<open>2R\<close> holds right after the call, not at the end of the pass. Three stones
  at rest on the centre line, 0.2 apart, with \<open>R = 0.145\<close>: the pass resolves the pair
  \<open>(0, 1)\<close>, finds the pair \<open>(0, 2)\<close> apart, and resolves the pair \<open>(1, 2)\<close>, which pushes
  stone 1 back towards stone 0. At the end of the pass the stones 0 and 1 are 0.2225
  apart, less than \<open>2R = 0.29\<close>.
\<close>

lemma pairIndices_3:
  "pairIndices (Suc (Suc (Suc 0))) = [(0, Suc 0), (0, Suc (Suc 0)), (Suc 0, Suc (Suc 0))]"
  by (simp add: pairIndices_def upt_rec)

lemma resolve_axis_rest:
  assumes "x < x'"
  shows "resolveCollision (stoneAt i x 0 0) (stoneAt i' x' 0 0) ps =
     (stoneAt i (x - (2 * p_R ps - (x' - x)) / 2) 0 0,
      stoneAt i' (x' + (2 * p_R ps - (x' - x)) / 2) 0 0)"
proof -
  have d: "centerDistance (stoneAt i x 0 0) (stoneAt i' x' 0 0) = x' - x"
    using assms by (simp add: dist_axis_stones)
  have nz: "centerDistance (stoneAt i x 0 0) (stoneAt i' x' 0 0) \<noteq> 0" using assms d by simp
  have n: "\<not> 0 < normalVelocity (stoneAt i x 0 0) (stoneAt i' x' 0 0)"
    by (simp add: nv_axis_stones)
  have nv: "normalVelocity (stoneAt i x 0 0) (stoneAt i' x' 0 0) = 0"
    by (simp add: nv_axis_stones)
  show ?thesis
    unfolding resolve_closing[OF stoneAt_flags(2) stoneAt_flags(2) nz n] Let_def d nv
    using assms by (simp add: stoneAt_def)
qed

lemma pass_reoverlap_example:
  "detectCollisions [stoneAt 1 0 0 0, stoneAt 2 (1/5) 0 0, stoneAt 3 (2/5) 0 0] (frictionless 1) =
     [stoneAt 1 (- (9/200)) 0 0, stoneAt 2 (71/400) 0 0, stoneAt 3 (187/400) 0 0] \<and>
   centerDistance (stoneAt 1 (- (9/200)) 0 0) (stoneAt 2 (71/400) 0 0) < 2 * p_R (frictionless 1)"
proof -
  let ?ps = "frictionless 1"
  let ?s0 = "[stoneAt 1 0 0 0, stoneAt 2 (1/5) 0 0, stoneAt 3 (2/5) 0 0]"
  let ?s1 = "[stoneAt 1 (- (9/200)) 0 0, stoneAt 2 (49/200) 0 0, stoneAt 3 (2/5) 0 0]"
  let ?s2 = "[stoneAt 1 (- (9/200)) 0 0, stoneAt 2 (71/400) 0 0, stoneAt 3 (187/400) 0 0]"
  have R: "p_R ?ps = 29/200" by (simp add: frictionless_def)
  have a: "collidePair ?ps (0, Suc 0) ?s0 = ?s1"
    by (subst collidePair_hit) (simp_all add: dist_axis_stones resolve_axis_rest R)
  have b: "collidePair ?ps (0, Suc (Suc 0)) ?s1 = ?s1"
    by (rule collidePair_miss) (simp add: dist_axis_stones R)
  have c: "collidePair ?ps (Suc 0, Suc (Suc 0)) ?s1 = ?s2"
    by (subst collidePair_hit) (simp_all add: dist_axis_stones resolve_axis_rest R)
  have "detectCollisions ?s0 ?ps = ?s2"
    by (simp add: detectCollisions_def pairIndices_3 a b c)
  then show ?thesis by (simp add: dist_axis_stones R)
qed




subsection \<open>Integration steps\<close>






lemma stoneLoop_total: "\<exists>r. stoneLoop ps (enat n) step s traj = Some r"
proof (induction "n - step" arbitrary: step s traj)
  case 0
  then have "\<not> enat step < enat n" by simp
  then show ?case by (subst stoneLoop.simps) simp
next
  case (Suc k)
  then have lt: "enat step < enat n" and k: "k = n - Suc step" by simp_all
  show ?case
  proof (cases "stopped ps (s_nan s) (s_vx s) (s_vy s) (s_w s)")
    case True
    then show ?thesis by (subst stoneLoop.simps) simp
  next
    case False
    from lt False have "stoneLoop ps (enat n) step s traj =
        stoneLoop ps (enat n) (Suc step) (integrate ps s) (traj @ [integrate ps s])"
      by (subst stoneLoop.simps) (simp add: Let_def)
    with Suc.hyps(1)[OF k] show ?thesis by simp
  qed
qed



lemma stepBound_self: "stepBound dt dt = (if dt = 0 then 0 else 1)"
  by (simp add: stepBound_def one_enat_def fl_one)



subsection \<open>Termination of the time loop\<close>

lemma simulateStone_tick_total: "\<exists>r. simulateStone st ps (p_dt ps) cc = Some r"
proof -
  have "\<exists>n. stepBound (p_dt ps) (p_dt ps) = enat n"
    by (simp add: stepBound_self zero_enat_def one_enat_def)
  then obtain n where n: "stepBound (p_dt ps) (p_dt ps) = enat n" ..
  obtain r where "stoneLoop ps (enat n) 0 (toState st) [toState st] = Some r"
    using stoneLoop_total by blast
  then show ?thesis by (cases r) (simp add: simulateStone_def n)
qed

lemma moveStones_total: "\<exists>r. moveStones ps sh stones trajs = Some r"
proof (induction stones arbitrary: trajs)
  case Nil
  show ?case by simp
next
  case (Cons st rest)
  show ?case
  proof (cases "stone_inPlay st")
    case False
    from Cons[of trajs] obtain rest' trajs' where "moveStones ps sh rest trajs = Some (rest', trajs')"
      by auto
    with False show ?thesis by simp
  next
    case True
    obtain stepTraj st1 where s: "simulateStone st ps (p_dt ps) False = Some (stepTraj, st1)"
      using simulateStone_tick_total[of st ps False] by auto
    let ?trajs1 = "if length stepTraj > 0 then pushTraj trajs (stone_id st1) (last stepTraj) else trajs"
    from Cons[of ?trajs1] obtain rest' trajs' where "moveStones ps sh rest ?trajs1 = Some (rest', trajs')"
      by auto
    with True s show ?thesis by (simp add: Let_def)
  qed
qed

lemma simLoop_exit:
  assumes "\<not> time < duration \<or> allStopped ps stones"
  shows "simLoop ps duration sh time stones trajs ticks =
     Some \<lparr>sim_trajectories = trajs, sim_stones = stones, sim_ticks = ticks\<rparr>"
  using assms by (subst simLoop.simps) auto

lemma simLoop_step:
  assumes "time < duration" and "\<not> allStopped ps stones"
      and "moveStones ps sh stones trajs = Some (stones1, trajs1)"
  shows "simLoop ps duration sh time stones trajs ticks =
     simLoop ps duration sh (fl (time + p_dt ps)) (detectCollisions stones1 ps) trajs1 (Suc ticks)"
  using assms by (subst simLoop.simps) simp

text \<open>
  After \<open>k\<close> ticks the accumulated time is at least \<open>k * dt * (1 - u)\<^sup>k\<close>, where \<open>u\<close> is the
  unit roundoff: each addition loses at most the factor \<open>1 - u\<close>. While \<open>k\<^sup>2 * u \<le> 1\<close>
  this is at least \<open>(k - 1) * dt\<close>.
\<close>

lemma accumulated_time_step:
  assumes dt: "minNormal \<le> dt"
      and inv: "real k * dt * (1 - unitRoundoff) ^ k \<le> time"
  shows "real (Suc k) * dt * (1 - unitRoundoff) ^ Suc k \<le> fl (time + dt)"
proof -
  let ?q = "1 - unitRoundoff"
  have q: "0 < ?q" "?q \<le> 1" using unitRoundoff_bounds by simp_all
  have dt0: "0 < dt" using dt minNormal_pos by linarith
  have qk: "0 \<le> ?q ^ k" "?q ^ k \<le> 1" using q by (simp_all add: power_le_one)
  have "0 \<le> real k * dt * ?q ^ k" using dt0 qk by simp
  with inv have t0: "0 \<le> time" by linarith
  with dt have "minNormal \<le> time + dt" by linarith
  then have low: "(time + dt) * ?q \<le> fl (time + dt)" by (rule fl_lower)
  have "dt * ?q ^ k \<le> dt" using dt0 qk by simp
  with inv have "real k * dt * ?q ^ k + dt * ?q ^ k \<le> time + dt" by linarith
  then have "(real k * dt * ?q ^ k + dt * ?q ^ k) * ?q \<le> (time + dt) * ?q"
    using q(1) by (simp only: mult_le_cancel_right_pos)
  moreover have "real (Suc k) * dt * ?q ^ Suc k = (real k * dt * ?q ^ k + dt * ?q ^ k) * ?q"
    by (simp add: algebra_simps)
  ultimately show ?thesis using low by linarith
qed

lemma accumulated_time_reaches:
  assumes dt: "0 < dt"
      and n: "real (Suc c) * real (Suc c) * unitRoundoff \<le> 1"
      and D: "duration \<le> real c * dt"
      and inv: "real (Suc c) * dt * (1 - unitRoundoff) ^ Suc c \<le> time"
  shows "duration \<le> time"
proof -
  let ?n = "real (Suc c)"
  have "- 1 \<le> - unitRoundoff" using unitRoundoff_bounds by simp
  from Bernoulli_inequality[OF this, of "Suc c"]
  have "1 - ?n * unitRoundoff \<le> (1 - unitRoundoff) ^ Suc c" by simp
  moreover have "0 \<le> ?n * dt" using dt by simp
  ultimately have "?n * dt * (1 - ?n * unitRoundoff) \<le> ?n * dt * (1 - unitRoundoff) ^ Suc c"
    by (rule mult_left_mono)
  then have a: "?n * dt * (1 - ?n * unitRoundoff) \<le> time" using inv by (rule order_trans)
  have b: "?n * dt * (1 - ?n * unitRoundoff) = ?n * dt - (?n * ?n * unitRoundoff) * dt"
    by (simp add: algebra_simps)
  have "(?n * ?n * unitRoundoff) * dt \<le> 1 * dt"
    using n dt by (intro mult_right_mono) simp_all
  then have c: "(?n * ?n * unitRoundoff) * dt \<le> dt" by simp
  have d: "?n * dt = real c * dt + dt" by (simp add: algebra_simps)
  from a have a': "?n * dt - (?n * ?n * unitRoundoff) * dt \<le> time" unfolding b .
  from a' c d D show ?thesis by linarith
qed

lemma simLoop_bound:
  assumes dt: "minNormal \<le> p_dt ps"
      and n: "real (Suc c) * real (Suc c) * unitRoundoff \<le> 1"
      and D: "duration \<le> real c * p_dt ps"
  shows "real ticks * p_dt ps * (1 - unitRoundoff) ^ ticks \<le> time \<Longrightarrow> ticks \<le> Suc c \<Longrightarrow>
         \<exists>r. simLoop ps duration sh time stones trajs ticks = Some r \<and> sim_ticks r \<le> Suc c"
proof (induction "Suc c - ticks" arbitrary: time stones trajs ticks)
  case 0
  then have "ticks = Suc c" by simp
  with 0 have "real (Suc c) * p_dt ps * (1 - unitRoundoff) ^ Suc c \<le> time" by simp
  moreover have "0 < p_dt ps" using dt minNormal_pos by linarith
  ultimately have "duration \<le> time" using n D by (rule accumulated_time_reaches[rotated 3])
  then have "\<not> time < duration" by simp
  then have "simLoop ps duration sh time stones trajs ticks =
     Some \<lparr>sim_trajectories = trajs, sim_stones = stones, sim_ticks = ticks\<rparr>"
    by (simp add: simLoop_exit)
  with \<open>ticks = Suc c\<close> show ?case by simp
next
  case (Suc k)
  show ?case
  proof (cases "\<not> time < duration \<or> allStopped ps stones")
    case True
    then have "simLoop ps duration sh time stones trajs ticks =
        Some \<lparr>sim_trajectories = trajs, sim_stones = stones, sim_ticks = ticks\<rparr>"
      by (rule simLoop_exit)
    with Suc.prems(2) show ?thesis by simp
  next
    case False
    obtain stones1 trajs1 where mv: "moveStones ps sh stones trajs = Some (stones1, trajs1)"
      using moveStones_total[of ps sh stones trajs] by auto
    from False have step: "simLoop ps duration sh time stones trajs ticks =
        simLoop ps duration sh (fl (time + p_dt ps)) (detectCollisions stones1 ps) trajs1 (Suc ticks)"
      by (intro simLoop_step[OF _ _ mv]) simp_all
    from Suc.hyps(2) have k: "k = Suc c - Suc ticks" and le: "Suc ticks \<le> Suc c" by simp_all
    have inv: "real (Suc ticks) * p_dt ps * (1 - unitRoundoff) ^ Suc ticks \<le> fl (time + p_dt ps)"
      by (rule accumulated_time_step[OF dt Suc.prems(1)])
    from Suc.hyps(1)[OF k inv le, of "detectCollisions stones1 ps" trajs1]
    show ?thesis unfolding step .
  qed
qed

text \<open>
  C8 (as amended). For every parameter set whose \<open>dt\<close> is at least the smallest positive
  normal double, every duration with \<open>\<lceil>duration / dt\<rceil> < 2\<^sup>2\<^sup>6\<close> and every stone list,
  \<open>simulateAll\<close> returns, and the body of its time loop has run at most
  \<open>\<lceil>duration / dt\<rceil> + 1\<close> times, and not at all for a duration that is not positive.
\<close>

theorem simulateAll_terminates:
  assumes "minNormal \<le> p_dt ps" and "\<lceil>duration / p_dt ps\<rceil> < 2 ^ 26"
  shows "\<exists>r. simulateAll ps duration stones sh = Some r \<and>
             int (sim_ticks r) \<le> (if duration \<le> 0 then 0 else \<lceil>duration / p_dt ps\<rceil> + 1)"
proof (cases "duration \<le> 0")
  case True
  then have "simulateAll ps duration stones sh =
     Some \<lparr>sim_trajectories = fold (\<lambda>st trajs. trajs(stone_id st \<mapsto> [])) stones Map.empty,
           sim_stones = stones, sim_ticks = 0\<rparr>"
    unfolding simulateAll_def by (intro simLoop_exit) simp
  with True show ?thesis by simp
next
  case False
  define c where "c = nat \<lceil>duration / p_dt ps\<rceil>"
  have dt0: "0 < p_dt ps" using assms(1) minNormal_pos by linarith
  with False have "0 < duration / p_dt ps" by simp
  then have pos: "0 < \<lceil>duration / p_dt ps\<rceil>" by (simp add: less_ceiling_iff)
  then have c: "int c = \<lceil>duration / p_dt ps\<rceil>" by (simp add: c_def)
  have "duration / p_dt ps \<le> real_of_int \<lceil>duration / p_dt ps\<rceil>" by (rule le_of_int_ceiling)
  also have "\<dots> = real c" unfolding c[symmetric] by simp
  finally have D: "duration \<le> real c * p_dt ps" using dt0 by (simp add: pos_divide_le_eq)
  from assms(2) c have "int (Suc c) \<le> 2 ^ 26" by simp
  then have "Suc c \<le> 2 ^ 26" by (metis of_nat_le_iff of_nat_numeral of_nat_power)
  then have "real (Suc c) \<le> 2 ^ 26" by (metis of_nat_le_iff of_nat_numeral of_nat_power)
  then have "real (Suc c) * real (Suc c) \<le> 2 ^ 26 * 2 ^ 26"
    by (intro mult_mono) simp_all
  then have "real (Suc c) * real (Suc c) * unitRoundoff \<le> (2 ^ 26 * 2 ^ 26) * unitRoundoff"
    using unitRoundoff_bounds(1) by (simp only: mult_le_cancel_right_pos)
  also have "(2 ^ 26 * 2 ^ 26) * unitRoundoff \<le> 1" by (simp add: unitRoundoff_def)
  finally have n: "real (Suc c) * real (Suc c) * unitRoundoff \<le> 1" .
  from simLoop_bound[OF assms(1) n D, of 0 0 sh stones
      "fold (\<lambda>st trajs. trajs(stone_id st \<mapsto> [])) stones Map.empty"]
  obtain r where r: "simulateAll ps duration stones sh = Some r" and b: "sim_ticks r \<le> Suc c"
    unfolding simulateAll_def by auto
  from b have "int (sim_ticks r) \<le> int c + 1" by simp
  with r False c show ?thesis by simp
qed

subsection \<open>Concrete runs\<close>

lemma netForce_frictionless: "netForce (frictionless dt) s = (0, 0, 0)"
  by (simp add: netForce_def frictionless_def segmentForce_def Let_def)

lemma integrate_frictionless:
  assumes "\<not> s_nan s"
  shows "integrate (frictionless dt) s =
     \<lparr>s_t = s_t s + dt, s_x = s_x s + dt * s_vx s, s_y = s_y s + dt * s_vy s,
      s_vx = s_vx s, s_vy = s_vy s, s_w = s_w s, s_nan = False\<rparr>"
  using assms
  by (simp add: integrate_def netForce_frictionless Let_def) (simp add: frictionless_def)

lemma spinner_not_stopped:
  "\<not> stopped (frictionless dt) (stone_nan (spinner t)) (stone_vx (spinner t)) (stone_vy (spinner t))
       (stone_w (spinner t))"
  by (simp add: stopped_def spinner_def stoneAt_def frictionless_def)

lemma spinner_step:
  assumes "dt \<noteq> 0"
  shows "simulateStone (spinner t) (frictionless dt) dt cc =
         Some ([toState (spinner t), toState (spinner (t + dt))], spinner (t + dt))"
proof -
  have b: "stepBound dt (p_dt (frictionless dt)) = enat 1"
    using assms by (simp add: stepBound_self frictionless_def one_enat_def)
  have ns: "\<not> stopped (frictionless dt) (s_nan (toState (spinner t))) (s_vx (toState (spinner t)))
              (s_vy (toState (spinner t))) (s_w (toState (spinner t)))"
    using spinner_not_stopped[of dt t] by (simp add: toState_def)
  have i: "integrate (frictionless dt) (toState (spinner t)) = toState (spinner (t + dt))"
    by (subst integrate_frictionless) (simp_all add: toState_def spinner_def stoneAt_def)
  have "stoneLoop (frictionless dt) (enat 1) 0 (toState (spinner t)) [toState (spinner t)] =
        stoneLoop (frictionless dt) (enat 1) (Suc 0) (toState (spinner (t + dt)))
          [toState (spinner t), toState (spinner (t + dt))]"
    using ns by (subst stoneLoop.simps) (simp add: Let_def i)
  also have "\<dots> = Some (toState (spinner (t + dt)), [toState (spinner t), toState (spinner (t + dt))])"
    by (subst stoneLoop.simps) simp
  finally show ?thesis
    unfolding simulateStone_def b
    by (simp add: fromState_def toState_def spinner_def stoneAt_def)
qed

lemma detect_single: "detectCollisions [st] ps = [st]"
  by (simp add: detectCollisions_def pairIndices_def)

lemma spinner_on_rink:
  "\<not> offSheet rink (stone_nan (spinner t)) (stone_x (spinner t)) (stone_y (spinner t))"
  by (simp add: offSheet_def rink_def spinner_def stoneAt_def)

lemma spinner_move:
  assumes "dt \<noteq> 0"
  shows "\<exists>trajs'. moveStones (frictionless dt) rink [spinner t] trajs = Some ([spinner (t + dt)], trajs')"
  using spinner_step[OF assms, of t False] spinner_on_rink[of "t + dt"]
  by (simp add: Let_def frictionless_def spinner_def stoneAt_def)

lemma spinner_tick:
  assumes "dt \<noteq> 0" and "time < duration"
  shows "\<exists>trajs'. simLoop (frictionless dt) duration rink time [spinner t] trajs ticks =
           simLoop (frictionless dt) duration rink (fl (time + dt)) [spinner (t + dt)] trajs' (Suc ticks)"
proof -
  have ns: "\<not> allStopped (frictionless dt) [spinner t]"
    using spinner_not_stopped[of dt t] by (simp add: allStopped_def spinner_def stoneAt_def)
  from spinner_move[OF assms(1), of t trajs] obtain trajs' where
    mv: "moveStones (frictionless dt) rink [spinner t] trajs = Some ([spinner (t + dt)], trajs')" ..
  have "simLoop (frictionless dt) duration rink time [spinner t] trajs ticks =
      simLoop (frictionless dt) duration rink (fl (time + p_dt (frictionless dt)))
        (detectCollisions [spinner (t + dt)] (frictionless dt)) trajs' (Suc ticks)"
    by (rule simLoop_step[OF assms(2) ns mv])
  then show ?thesis by (auto simp add: detect_single frictionless_def)
qed

lemma spinner_two_ticks:
  "map_option sim_ticks (simulateAll (frictionless 2) 3 [spinner 0] rink) = Some 2"
proof -
  let ?ps = "frictionless 2"
  obtain tr1 where 1: "simLoop ?ps 3 rink 0 [spinner 0]
        (fold (\<lambda>st trajs. trajs(stone_id st \<mapsto> [])) [spinner 0] Map.empty) 0 =
      simLoop ?ps 3 rink (fl (0 + 2)) [spinner (0 + 2)] tr1 (Suc 0)"
    using spinner_tick[of 2 0 3 0 _ 0] by auto
  obtain tr2 where 2: "simLoop ?ps 3 rink 2 [spinner (0 + 2)] tr1 (Suc 0) =
      simLoop ?ps 3 rink (fl (2 + 2)) [spinner (0 + 2 + 2)] tr2 (Suc (Suc 0))"
    using spinner_tick[of 2 2 3 "0 + 2" tr1 "Suc 0"] by auto
  have 3: "simLoop ?ps 3 rink 4 [spinner (0 + 2 + 2)] tr2 (Suc (Suc 0)) =
      Some \<lparr>sim_trajectories = tr2, sim_stones = [spinner (0 + 2 + 2)], sim_ticks = Suc (Suc 0)\<rparr>"
    by (rule simLoop_exit) simp
  have "simulateAll ?ps 3 [spinner 0] rink =
      Some \<lparr>sim_trajectories = tr2, sim_stones = [spinner (0 + 2 + 2)], sim_ticks = Suc (Suc 0)\<rparr>"
    unfolding simulateAll_def 1 using 2 3 by (simp add: fl_two fl_four)
  then show ?thesis by simp
qed

text \<open>
  \<open>tenth\<close> is the double nearest to 0.1. Ten rounded additions of it give
  \<open>1 - 2 powi (- 53)\<close>, which is less than 1, so that the loop runs an eleventh time for a
  duration of 1, where \<open>\<lceil>duration / dt\<rceil> = 10\<close>.
\<close>

lemma spinner_count_exit:
  assumes "\<not> time < duration"
  shows "map_option sim_ticks (simLoop ps duration rink time [spinner t] trajs ticks) = Some ticks"
  using assms by (simp add: simLoop_exit)

lemma spinner_count_step:
  assumes "dt \<noteq> 0" and "time < duration" and "fl (time + dt) = time'"
      and "\<And>t trajs. map_option sim_ticks
             (simLoop (frictionless dt) duration rink time' [spinner t] trajs (Suc ticks)) = Some n"
  shows "map_option sim_ticks (simLoop (frictionless dt) duration rink time [spinner t] trajs ticks) = Some n"
proof -
  from spinner_tick[OF assms(1,2), of t trajs ticks] obtain trajs' where
    "simLoop (frictionless dt) duration rink time [spinner t] trajs ticks =
     simLoop (frictionless dt) duration rink (fl (time + dt)) [spinner (t + dt)] trajs' (Suc ticks)" ..
  then show ?thesis unfolding assms(3) by (simp only: assms(4))
qed

lemma tenth_sums:
  "fl (0 + tenth) = 3602879701896397/36028797018963968"
  "fl (3602879701896397/36028797018963968 + tenth) = 3602879701896397/18014398509481984"
  "fl (3602879701896397/18014398509481984 + tenth) = 1351079888211149/4503599627370496"
  "fl (1351079888211149/4503599627370496 + tenth) = 3602879701896397/9007199254740992"
  "fl (3602879701896397/9007199254740992 + tenth) = 1/2"
  "fl (1/2 + tenth) = 5404319552844595/9007199254740992"
  "fl (5404319552844595/9007199254740992 + tenth) = 3152519739159347/4503599627370496"
  "fl (3152519739159347/4503599627370496 + tenth) = 7205759403792793/9007199254740992"
  "fl (7205759403792793/9007199254740992 + tenth) = 2026619832316723/2251799813685248"
  "fl (2026619832316723/2251799813685248 + tenth) = 9007199254740991/9007199254740992"
  "fl (9007199254740991/9007199254740992 + tenth) = 4953959590107545/4503599627370496"
  unfolding tenth_def
  subgoal by (subst fl_in_binade[where e = "- 4"]) (simp_all add: roundEven_def Let_def power_int_minus)
  subgoal by (subst fl_in_binade[where e = "- 3"]) (simp_all add: roundEven_def Let_def power_int_minus)
  subgoal by (subst fl_in_binade[where e = "- 2"]) (simp_all add: roundEven_def Let_def power_int_minus)
  subgoal by (subst fl_in_binade[where e = "- 2"]) (simp_all add: roundEven_def Let_def power_int_minus)
  subgoal by (subst fl_in_binade[where e = "- 1"]) (simp_all add: roundEven_def Let_def power_int_minus)
  subgoal by (subst fl_in_binade[where e = "- 1"]) (simp_all add: roundEven_def Let_def power_int_minus)
  subgoal by (subst fl_in_binade[where e = "- 1"]) (simp_all add: roundEven_def Let_def power_int_minus)
  subgoal by (subst fl_in_binade[where e = "- 1"]) (simp_all add: roundEven_def Let_def power_int_minus)
  subgoal by (subst fl_in_binade[where e = "- 1"]) (simp_all add: roundEven_def Let_def power_int_minus)
  subgoal by (subst fl_in_binade[where e = "- 1"]) (simp_all add: roundEven_def Let_def power_int_minus)
  subgoal by (subst fl_in_binade[where e = "0"]) (simp_all add: roundEven_def Let_def power_int_minus)
  done

lemma tenth_eleven_ticks:
  "map_option sim_ticks (simulateAll (frictionless tenth) 1 [spinner 0] rink) = Some 11 \<and>
   \<lceil>1 / p_dt (frictionless tenth)\<rceil> = 10"
proof -
  let ?ps = "frictionless tenth"
  have nz: "tenth \<noteq> 0" by (simp add: tenth_def)
  have s11: "map_option sim_ticks (simLoop ?ps 1 rink (4953959590107545/4503599627370496) [spinner t] trajs (Suc (Suc (Suc (Suc (Suc (Suc (Suc (Suc (Suc (Suc (Suc 0)))))))))))) = Some (Suc (Suc (Suc (Suc (Suc (Suc (Suc (Suc (Suc (Suc (Suc 0)))))))))))" for t trajs
    by (rule spinner_count_exit) simp
  have s10: "map_option sim_ticks (simLoop ?ps 1 rink (9007199254740991/9007199254740992) [spinner t] trajs (Suc (Suc (Suc (Suc (Suc (Suc (Suc (Suc (Suc (Suc 0))))))))))) = Some (Suc (Suc (Suc (Suc (Suc (Suc (Suc (Suc (Suc (Suc (Suc 0)))))))))))" for t trajs
    by (rule spinner_count_step[OF nz _ tenth_sums(11) s11]) simp
  have s9: "map_option sim_ticks (simLoop ?ps 1 rink (2026619832316723/2251799813685248) [spinner t] trajs (Suc (Suc (Suc (Suc (Suc (Suc (Suc (Suc (Suc 0)))))))))) = Some (Suc (Suc (Suc (Suc (Suc (Suc (Suc (Suc (Suc (Suc (Suc 0)))))))))))" for t trajs
    by (rule spinner_count_step[OF nz _ tenth_sums(10) s10]) simp
  have s8: "map_option sim_ticks (simLoop ?ps 1 rink (7205759403792793/9007199254740992) [spinner t] trajs (Suc (Suc (Suc (Suc (Suc (Suc (Suc (Suc 0))))))))) = Some (Suc (Suc (Suc (Suc (Suc (Suc (Suc (Suc (Suc (Suc (Suc 0)))))))))))" for t trajs
    by (rule spinner_count_step[OF nz _ tenth_sums(9) s9]) simp
  have s7: "map_option sim_ticks (simLoop ?ps 1 rink (3152519739159347/4503599627370496) [spinner t] trajs (Suc (Suc (Suc (Suc (Suc (Suc (Suc 0)))))))) = Some (Suc (Suc (Suc (Suc (Suc (Suc (Suc (Suc (Suc (Suc (Suc 0)))))))))))" for t trajs
    by (rule spinner_count_step[OF nz _ tenth_sums(8) s8]) simp
  have s6: "map_option sim_ticks (simLoop ?ps 1 rink (5404319552844595/9007199254740992) [spinner t] trajs (Suc (Suc (Suc (Suc (Suc (Suc 0))))))) = Some (Suc (Suc (Suc (Suc (Suc (Suc (Suc (Suc (Suc (Suc (Suc 0)))))))))))" for t trajs
    by (rule spinner_count_step[OF nz _ tenth_sums(7) s7]) simp
  have s5: "map_option sim_ticks (simLoop ?ps 1 rink (1/2) [spinner t] trajs (Suc (Suc (Suc (Suc (Suc 0)))))) = Some (Suc (Suc (Suc (Suc (Suc (Suc (Suc (Suc (Suc (Suc (Suc 0)))))))))))" for t trajs
    by (rule spinner_count_step[OF nz _ tenth_sums(6) s6]) simp
  have s4: "map_option sim_ticks (simLoop ?ps 1 rink (3602879701896397/9007199254740992) [spinner t] trajs (Suc (Suc (Suc (Suc 0))))) = Some (Suc (Suc (Suc (Suc (Suc (Suc (Suc (Suc (Suc (Suc (Suc 0)))))))))))" for t trajs
    by (rule spinner_count_step[OF nz _ tenth_sums(5) s5]) simp
  have s3: "map_option sim_ticks (simLoop ?ps 1 rink (1351079888211149/4503599627370496) [spinner t] trajs (Suc (Suc (Suc 0)))) = Some (Suc (Suc (Suc (Suc (Suc (Suc (Suc (Suc (Suc (Suc (Suc 0)))))))))))" for t trajs
    by (rule spinner_count_step[OF nz _ tenth_sums(4) s4]) simp
  have s2: "map_option sim_ticks (simLoop ?ps 1 rink (3602879701896397/18014398509481984) [spinner t] trajs (Suc (Suc 0))) = Some (Suc (Suc (Suc (Suc (Suc (Suc (Suc (Suc (Suc (Suc (Suc 0)))))))))))" for t trajs
    by (rule spinner_count_step[OF nz _ tenth_sums(3) s3]) simp
  have s1: "map_option sim_ticks (simLoop ?ps 1 rink (3602879701896397/36028797018963968) [spinner t] trajs (Suc 0)) = Some (Suc (Suc (Suc (Suc (Suc (Suc (Suc (Suc (Suc (Suc (Suc 0)))))))))))" for t trajs
    by (rule spinner_count_step[OF nz _ tenth_sums(2) s2]) simp
  have s0: "map_option sim_ticks (simLoop ?ps 1 rink 0 [spinner t] trajs (0)) = Some (Suc (Suc (Suc (Suc (Suc (Suc (Suc (Suc (Suc (Suc (Suc 0)))))))))))" for t trajs
    by (rule spinner_count_step[OF nz _ tenth_sums(1) s1]) simp
  have "map_option sim_ticks (simulateAll ?ps 1 [spinner 0] rink) = Some (Suc (Suc (Suc (Suc (Suc (Suc (Suc (Suc (Suc (Suc (Suc 0)))))))))))"
    unfolding simulateAll_def by (rule s0)
  moreover have "\<lceil>1 / p_dt ?ps\<rceil> = 10"
    by (simp add: frictionless_def tenth_def ceiling_eq_iff)
  moreover have "Suc (Suc (Suc (Suc (Suc (Suc (Suc (Suc (Suc (Suc (Suc 0)))))))))) = 11" by simp
  ultimately show ?thesis by (simp only: simp_thms)
qed

text \<open>
  An addend that is too small against the accumulated time is absorbed by the rounding.
  With \<open>dt = 1\<close> the time counts up to \<open>2 ^ 53\<close> and stays there, since \<open>2 ^ 53 + 1\<close> is
  rounded back to \<open>2 ^ 53\<close>: for the duration \<open>2 ^ 53 + 2\<close> and a stone that keeps
  spinning, the test \<open>time < duration\<close> never fails and \<open>simulateAll\<close> does not return.
\<close>

lemma spinner_absorbed:
  assumes run: "simLoop ps duration sh time stones trajs ticks = Some r"
  shows "\<not> (ps = frictionless 1 \<and> duration = 2 ^ 53 + 2 \<and> sh = rink \<and>
            (\<exists>n. time = real n \<and> n \<le> 2 ^ 53) \<and> (\<exists>t. stones = [spinner t]))"
proof -
  define P where "P = (\<lambda>ps (duration::real) sh (time::real) (stones::stone list)
      (trajs::trajectories) (ticks::nat) (r::simResult).
      \<not> (ps = frictionless 1 \<and> duration = 2 ^ 53 + 2 \<and> sh = rink \<and>
            (\<exists>n. time = real n \<and> n \<le> 2 ^ 53) \<and> (\<exists>t. stones = [spinner t])))"
  have "P ps duration sh time stones trajs ticks r"
  proof (rule simLoop.raw_induct[OF _ run])
    fix loop ps duration sh time stones trajs ticks r
    assume IH: "\<And>ps duration sh time stones trajs ticks r.
        loop ps duration sh time stones trajs ticks = Some r \<Longrightarrow> P ps duration sh time stones trajs ticks r"
      and eq: "(if \<not> time < duration
                then Some \<lparr>sim_trajectories = trajs, sim_stones = stones, sim_ticks = ticks\<rparr>
                else if allStopped ps stones
                  then Some \<lparr>sim_trajectories = trajs, sim_stones = stones, sim_ticks = ticks\<rparr>
                  else case moveStones ps sh stones trajs of None \<Rightarrow> None
                       | Some (stones1, trajs1) \<Rightarrow>
                           loop ps duration sh (fl (time + p_dt ps)) (detectCollisions stones1 ps) trajs1 (Suc ticks))
               = Some r"
    show "P ps duration sh time stones trajs ticks r"
      unfolding P_def
    proof
      assume a: "ps = frictionless 1 \<and> duration = 2 ^ 53 + 2 \<and> sh = rink \<and>
            (\<exists>n. time = real n \<and> n \<le> 2 ^ 53) \<and> (\<exists>t. stones = [spinner t])"
      then obtain n t where ps: "ps = frictionless 1" and D: "duration = 2 ^ 53 + 2" and sh: "sh = rink"
        and n: "time = real n" "n \<le> 2 ^ 53" and st: "stones = [spinner t]" by blast
      from n(2) have "real n \<le> 2 ^ 53"
        by (metis of_nat_le_iff of_nat_numeral of_nat_power)
      with n(1) D have lt: "time < duration" by simp
      have ns: "\<not> allStopped ps stones"
        using spinner_not_stopped[of 1 t] by (simp add: ps st allStopped_def spinner_def stoneAt_def)
      obtain trajs' where mv: "moveStones ps sh stones trajs = Some ([spinner (t + 1)], trajs')"
        unfolding ps sh st using spinner_move[of 1 t trajs] by auto
      from absorbed_step[OF n(2)] obtain n' where n': "fl (real n + 1) = real n'" "n' \<le> 2 ^ 53"
        by blast
      have dt: "p_dt ps = 1" by (simp add: ps frictionless_def)
      from eq lt ns have "loop ps duration sh (real n') [spinner (t + 1)] trajs' (Suc ticks) = Some r"
        unfolding mv by (simp add: dt n(1) n'(1) detect_single)
      from IH[OF this] show False
        unfolding P_def using ps D sh n' by blast
    qed
  qed
  then show ?thesis by (simp add: P_def)
qed

lemma absorbed_time_never_returns:
  "simulateAll (frictionless 1) (2 ^ 53 + 2) [spinner 0] rink = None"
proof (rule ccontr)
  assume "simulateAll (frictionless 1) (2 ^ 53 + 2) [spinner 0] rink \<noteq> None"
  then obtain r where r: "simLoop (frictionless 1) (2 ^ 53 + 2) rink 0 [spinner 0]
      (fold (\<lambda>st trajs. trajs(stone_id st \<mapsto> [])) [spinner 0] Map.empty) 0 = Some r"
    unfolding simulateAll_def by blast
  have "\<exists>n. (0::real) = real n \<and> n \<le> 2 ^ 53" by (rule exI[of _ 0]) simp
  with spinner_absorbed[OF r] show False by blast
qed

lemma minNormal_le_one: "minNormal \<le> 1"
proof -
  have "(2::real) powi (- 1022) \<le> 2 powi 0" by (rule power_int_increasing) simp_all
  then show ?thesis by (simp add: minNormal_def)
qed

theorem simulateAll_terminates_witness:
  "\<exists>r. simulateAll (frictionless 2) 3 [spinner 0] rink = Some r \<and> int (sim_ticks r) \<le> 3"
proof -
  have a: "minNormal \<le> p_dt (frictionless 2)"
    using minNormal_le_one by (simp add: frictionless_def)
  have c: "\<lceil>3 / p_dt (frictionless 2)\<rceil> = 2" by (simp add: frictionless_def ceiling_eq_iff)
  then have b: "\<lceil>3 / p_dt (frictionless 2)\<rceil> < 2 ^ 26" by simp
  from simulateAll_terminates[OF a b, of "[spinner 0]" rink]
  show ?thesis unfolding c by simp
qed

text \<open>
  C8, counterexample to the claim as stated: with \<open>dt = 2\<close> and duration 3 a stone that
  keeps spinning makes the loop run at times 0 and 2, two ticks, more than
  \<open>duration / dt = 1.5\<close>; and with \<open>dt\<close> the double nearest to 0.1 and duration 1 the
  loop runs 11 times, more than \<open>duration / dt\<close>, which is below 10, and more than
  \<open>\<lceil>duration / dt\<rceil> = 10\<close>.
\<close>

theorem tick_bound_counterexample:
  "map_option sim_ticks (simulateAll (frictionless 2) 3 [spinner 0] rink) = Some 2 \<and>
   \<not> real 2 \<le> 3 / p_dt (frictionless 2) \<and>
   map_option sim_ticks (simulateAll (frictionless tenth) 1 [spinner 0] rink) = Some 11 \<and>
   \<not> real 11 \<le> 1 / p_dt (frictionless tenth) \<and>
   \<lceil>1 / p_dt (frictionless tenth)\<rceil> = 10"
proof -
  have a: "map_option sim_ticks (simulateAll (frictionless 2) 3 [spinner 0] rink) = Some 2"
    by (rule spinner_two_ticks)
  have b: "\<not> real 2 \<le> 3 / p_dt (frictionless 2)" by (simp add: frictionless_def)
  have c: "\<not> real 11 \<le> 1 / p_dt (frictionless tenth)"
    by (simp add: frictionless_def tenth_def)
  from a b c tenth_eleven_ticks show ?thesis by blast
qed










subsection \<open>Unvalidated inputs\<close>

lemma from_to_state: "fromState st (toState st) = st"
  by (simp add: fromState_def toState_def)

lemma simulateStone_dt0:
  assumes "p_dt ps = 0"
  shows "simulateStone st ps (p_dt ps) cc = Some ([toState st], st)"
proof -
  have "stoneLoop ps 0 0 (toState st) [toState st] = Some (toState st, [toState st])"
    by (subst stoneLoop.simps) (simp add: zero_enat_def)
  then show ?thesis
    unfolding simulateStone_def stepBound_self using assms by (simp add: from_to_state)
qed

lemma moveStones_dt0:
  assumes "p_dt ps = 0" and "stone_inPlay st"
      and "\<not> offSheet sh (stone_nan st) (stone_x st) (stone_y st)"
  shows "moveStones ps sh [st] trajs = Some ([st], pushTraj trajs (stone_id st) (toState st))"
  using assms simulateStone_dt0[OF assms(1), of st False] by (simp add: Let_def)

lemma simLoop_dt0_diverges:
  assumes run: "simLoop ps duration sh time stones trajs ticks = Some r"
  shows "\<not> (p_dt ps = 0 \<and> time = 0 \<and> 0 < duration \<and>
            (\<exists>st. stones = [st] \<and> stone_inPlay st \<and>
               \<not> stopped ps (stone_nan st) (stone_vx st) (stone_vy st) (stone_w st) \<and>
               \<not> offSheet sh (stone_nan st) (stone_x st) (stone_y st)))"
proof -
  define P where "P = (\<lambda>ps (duration::real) sh (time::real) (stones::stone list)
      (trajs::trajectories) (ticks::nat) (r::simResult).
      \<not> (p_dt ps = 0 \<and> time = 0 \<and> 0 < duration \<and>
            (\<exists>st. stones = [st] \<and> stone_inPlay st \<and>
               \<not> stopped ps (stone_nan st) (stone_vx st) (stone_vy st) (stone_w st) \<and>
               \<not> offSheet sh (stone_nan st) (stone_x st) (stone_y st))))"
  have "P ps duration sh time stones trajs ticks r"
  proof (rule simLoop.raw_induct[OF _ run])
    fix loop ps duration sh time stones trajs ticks r
    assume IH: "\<And>ps duration sh time stones trajs ticks r.
        loop ps duration sh time stones trajs ticks = Some r \<Longrightarrow> P ps duration sh time stones trajs ticks r"
      and eq: "(if \<not> time < duration
                then Some \<lparr>sim_trajectories = trajs, sim_stones = stones, sim_ticks = ticks\<rparr>
                else if allStopped ps stones
                  then Some \<lparr>sim_trajectories = trajs, sim_stones = stones, sim_ticks = ticks\<rparr>
                  else case moveStones ps sh stones trajs of None \<Rightarrow> None
                       | Some (stones1, trajs1) \<Rightarrow>
                           loop ps duration sh (fl (time + p_dt ps)) (detectCollisions stones1 ps) trajs1 (Suc ticks))
               = Some r"
    show "P ps duration sh time stones trajs ticks r"
      unfolding P_def
    proof
      assume a: "p_dt ps = 0 \<and> time = 0 \<and> 0 < duration \<and>
            (\<exists>st. stones = [st] \<and> stone_inPlay st \<and>
               \<not> stopped ps (stone_nan st) (stone_vx st) (stone_vy st) (stone_w st) \<and>
               \<not> offSheet sh (stone_nan st) (stone_x st) (stone_y st))"
      then obtain st where st: "stones = [st]" "stone_inPlay st"
          "\<not> stopped ps (stone_nan st) (stone_vx st) (stone_vy st) (stone_w st)"
          "\<not> offSheet sh (stone_nan st) (stone_x st) (stone_y st)" by blast
      from a have dt: "p_dt ps = 0" and t0: "time = 0" and lt: "time < duration" by simp_all
      have ns: "\<not> allStopped ps stones" using st by (simp add: allStopped_def)
      have mv: "moveStones ps sh stones trajs = Some ([st], pushTraj trajs (stone_id st) (toState st))"
        unfolding st(1) by (rule moveStones_dt0[OF dt st(2) st(4)])
      from eq lt ns have "loop ps duration sh 0 [st] (pushTraj trajs (stone_id st) (toState st)) (Suc ticks) = Some r"
        unfolding mv by (simp add: dt t0 detect_single fl_zero)
      from IH[OF this] show False
        unfolding P_def using a st by blast
    qed
  qed
  then show ?thesis by (simp add: P_def)
qed

lemma simulateAll_dt0:
  assumes "p_dt ps = 0" and "0 < duration" and "stone_inPlay st"
      and "\<not> stopped ps (stone_nan st) (stone_vx st) (stone_vy st) (stone_w st)"
      and "\<not> offSheet sh (stone_nan st) (stone_x st) (stone_y st)"
  shows "simulateAll ps duration [st] sh = None"
proof (rule ccontr)
  assume "simulateAll ps duration [st] sh \<noteq> None"
  then obtain r where "simLoop ps duration sh 0 [st] (fold (\<lambda>st trajs. trajs(stone_id st \<mapsto> [])) [st] Map.empty) 0 = Some r"
    unfolding simulateAll_def by blast
  from simLoop_dt0_diverges[OF this] assms show False by blast
qed

lemma simulateAll_no_duration:
  assumes "duration \<le> 0"
  shows "simulateAll ps duration stones sh =
     Some \<lparr>sim_trajectories = fold (\<lambda>st trajs. trajs(stone_id st \<mapsto> [])) stones Map.empty,
           sim_stones = stones, sim_ticks = 0\<rparr>"
  unfolding simulateAll_def using assms by (intro simLoop_exit) simp

lemma simLoop_negative_dt:
  assumes run: "simLoop ps duration sh time stones trajs ticks = Some r"
      and "p_dt ps < 0" and "time \<le> 0" and "0 < duration"
  shows "allStopped ps (sim_stones r)"
proof -
  define P where "P = (\<lambda>ps (duration::real) (sh::sheet) (time::real) (stones::stone list)
      (trajs::trajectories) (ticks::nat) (r::simResult).
      p_dt ps < 0 \<and> time \<le> 0 \<and> 0 < duration \<longrightarrow> allStopped ps (sim_stones r))"
  have "P ps duration sh time stones trajs ticks r"
  proof (rule simLoop.raw_induct[OF _ run])
    fix loop ps duration sh time stones trajs ticks r
    assume IH: "\<And>ps duration sh time stones trajs ticks r.
        loop ps duration sh time stones trajs ticks = Some r \<Longrightarrow> P ps duration sh time stones trajs ticks r"
      and eq: "(if \<not> time < duration
                then Some \<lparr>sim_trajectories = trajs, sim_stones = stones, sim_ticks = ticks\<rparr>
                else if allStopped ps stones
                  then Some \<lparr>sim_trajectories = trajs, sim_stones = stones, sim_ticks = ticks\<rparr>
                  else case moveStones ps sh stones trajs of None \<Rightarrow> None
                       | Some (stones1, trajs1) \<Rightarrow>
                           loop ps duration sh (fl (time + p_dt ps)) (detectCollisions stones1 ps) trajs1 (Suc ticks))
               = Some r"
    show "P ps duration sh time stones trajs ticks r"
      unfolding P_def
    proof
      assume a: "p_dt ps < 0 \<and> time \<le> 0 \<and> 0 < duration"
      then have lt: "time < duration" by simp
      from a have t': "fl (time + p_dt ps) \<le> 0" by (intro fl_nonpos) simp
      show "allStopped ps (sim_stones r)"
      proof (cases "allStopped ps stones")
        case True
        with eq lt have "r = \<lparr>sim_trajectories = trajs, sim_stones = stones, sim_ticks = ticks\<rparr>"
          by simp
        with True show ?thesis by simp
      next
        case False
        with eq lt obtain stones1 trajs1 where
          "loop ps duration sh (fl (time + p_dt ps)) (detectCollisions stones1 ps) trajs1 (Suc ticks) = Some r"
          by (auto split: option.splits)
        from IH[OF this] a t' show ?thesis by (simp add: P_def)
      qed
    qed
  qed
  with assms(2-4) show ?thesis by (simp add: P_def)
qed

text \<open>
  C5 (as amended). The two entry points check none of their arguments.
  \<open>evaluatePosition17\<close> gives a stone list in which every team label is unknown (none is
  \<open>''red''\<close>, \<open>''yellow''\<close> or the \<open>hammerTeam\<close> argument) the result of the empty stone
  list. \<open>simulateAll\<close> with a duration that is not positive returns at once, with an empty
  trajectory for every stone and the stones unchanged; with \<open>dt = 0\<close>, a positive duration
  and one stone that is in play, not off the sheet and not at rest it never returns; with
  \<open>dt < 0\<close> and a positive duration it can return only with every stone in play at rest,
  since the accumulated time never reaches the duration. The coordinates of the stones
  given to \<open>evaluatePosition17\<close> are finite numbers here.
\<close>

theorem no_input_validation:
  "((\<forall>(t, x, y) \<in> set tuples. t \<noteq> ''red'' \<and> t \<noteq> ''yellow'' \<and> t \<noteq> hammerTeam) \<longrightarrow>
      evaluatePosition17 shotNumber hammerTeam tuples skill =
      evaluatePosition17 shotNumber hammerTeam [] skill) \<and>
   (duration \<le> 0 \<longrightarrow> simulateAll ps duration stones sh =
      Some \<lparr>sim_trajectories = fold (\<lambda>st trajs. trajs(stone_id st \<mapsto> [])) stones Map.empty,
            sim_stones = stones, sim_ticks = 0\<rparr>) \<and>
   (p_dt ps = 0 \<and> 0 < duration \<and> stone_inPlay st \<and>
      \<not> stopped ps (stone_nan st) (stone_vx st) (stone_vy st) (stone_w st) \<and>
      \<not> offSheet sh (stone_nan st) (stone_x st) (stone_y st) \<longrightarrow>
      simulateAll ps duration [st] sh = None) \<and>
   (p_dt ps < 0 \<and> 0 < duration \<longrightarrow>
      (\<forall>r. simulateAll ps duration stones sh = Some r \<longrightarrow> allStopped ps (sim_stones r)))"
proof -
  have neg: "allStopped ps (sim_stones r)"
    if "p_dt ps < 0" "0 < duration" "simulateAll ps duration stones sh = Some r" for r
    using that(3) unfolding simulateAll_def
    by (rule simLoop_negative_dt) (use that in simp_all)
  show ?thesis
    using foreign_stones_eval[of tuples hammerTeam shotNumber skill]
      simulateAll_no_duration[of duration ps stones sh]
      simulateAll_dt0[of ps duration st sh] neg
    by blast
qed

theorem no_input_validation_witness:
  "evaluatePosition17 0 ''red'' [(''blue'', 0, 0)] 50 = evaluatePosition17 0 ''red'' [] 50 \<and>
   simulateAll (frictionless 1) 0 [spinner 0] rink =
      Some \<lparr>sim_trajectories = [1 \<mapsto> []], sim_stones = [spinner 0], sim_ticks = 0\<rparr> \<and>
   simulateAll (frictionless 0) 1 [spinner 0] rink = None \<and>
   simulateAll (frictionless (- 1)) 1 [stoneAt 1 1 0 0] rink =
      Some \<lparr>sim_trajectories = [1 \<mapsto> []], sim_stones = [stoneAt 1 1 0 0], sim_ticks = 0\<rparr> \<and>
   allStopped (frictionless (- 1)) [stoneAt 1 1 0 0]"
proof -
  have l: "\<forall>(t, x, y) \<in> set [(''blue'', 0::real, 0::real)]. t \<noteq> ''red'' \<and> t \<noteq> ''yellow'' \<and> t \<noteq> ''red''"
    by simp
  have a: "p_dt (frictionless 0) = 0 \<and> (0::real) < 1 \<and> stone_inPlay (spinner 0) \<and>
      \<not> stopped (frictionless 0) (stone_nan (spinner 0)) (stone_vx (spinner 0)) (stone_vy (spinner 0))
          (stone_w (spinner 0)) \<and>
      \<not> offSheet rink (stone_nan (spinner 0)) (stone_x (spinner 0)) (stone_y (spinner 0))"
    using spinner_not_stopped[of 0 0] spinner_on_rink[of 0]
    by (simp add: frictionless_def spinner_def stoneAt_def)
  have i: "fold (\<lambda>st trajs. trajs(stone_id st \<mapsto> [])) [spinner 0] Map.empty = [1 \<mapsto> []]"
    by (simp add: spinner_def stoneAt_def)
  have rest: "allStopped (frictionless (- 1)) [stoneAt 1 1 0 0]"
    by (simp add: allStopped_def stopped_def stoneAt_def frictionless_def)
  have i2: "fold (\<lambda>st trajs. trajs(stone_id st \<mapsto> [])) [stoneAt 1 1 0 0] Map.empty = [1 \<mapsto> []]"
    by (simp add: stoneAt_def)
  have run: "simulateAll (frictionless (- 1)) 1 [stoneAt 1 1 0 0] rink =
      Some \<lparr>sim_trajectories = [1 \<mapsto> []], sim_stones = [stoneAt 1 1 0 0], sim_ticks = 0\<rparr>"
    unfolding simulateAll_def i2 by (rule simLoop_exit) (simp add: rest)
  have n: "p_dt (frictionless (- 1)) < 0 \<and> (0::real) < 1" by (simp add: frictionless_def)
  from no_input_validation[where tuples = "[(''blue'', 0, 0)]" and hammerTeam = "''red''"
      and shotNumber = 0 and skill = 50 and ps = "frictionless 0" and duration = 1
      and st = "spinner 0" and sh = rink] l a
  have 1: "evaluatePosition17 0 ''red'' [(''blue'', 0, 0)] 50 = evaluatePosition17 0 ''red'' [] 50"
    and 3: "simulateAll (frictionless 0) 1 [spinner 0] rink = None"
    by blast+
  from no_input_validation[where ps = "frictionless 1" and duration = 0 and stones = "[spinner 0]"
      and sh = rink]
  have 2: "simulateAll (frictionless 1) 0 [spinner 0] rink =
      Some \<lparr>sim_trajectories = [1 \<mapsto> []], sim_stones = [spinner 0], sim_ticks = 0\<rparr>"
    unfolding i by simp
  from no_input_validation[where ps = "frictionless (- 1)" and duration = 1
      and stones = "[stoneAt 1 1 0 0]" and sh = rink] n run
  have 4: "allStopped (frictionless (- 1)) [stoneAt 1 1 0 0]"
    by (metis simResult.select_convs(2))
  from 1 2 3 4 run show ?thesis by blast
qed

text \<open>
  C5, counterexample to the claim as stated: with \<open>dt = 0\<close> \<open>simulateAll\<close> loops for ever
  on a spinning stone instead of failing, and with the unknown team label \<open>''blue''\<close>
  \<open>evaluatePosition17\<close> returns the result of the empty stone list instead of failing.
\<close>

theorem unvalidated_input_counterexample:
  "simulateAll (frictionless 0) 1 [spinner 0] rink = None \<and>
   evaluatePosition17 0 ''red'' [(''blue'', 0, 0)] 50 = evaluatePosition17 0 ''red'' [] 50"
proof -
  have "simulateAll (frictionless 0) 1 [spinner 0] rink = None"
    by (rule simulateAll_dt0)
       (use spinner_not_stopped[of 0 0] spinner_on_rink[of 0] in
         \<open>simp_all add: frictionless_def spinner_def stoneAt_def\<close>)
  moreover have "evaluatePosition17 0 ''red'' [(''blue'', 0, 0)] 50 = evaluatePosition17 0 ''red'' [] 50"
    by (rule foreign_stones_eval) simp
  ultimately show ?thesis ..
qed

end
